theory Spec2Isabelle
  imports Complex_Main "HOL-Library.Multiset" "HOL-Library.Char_ord" "HOL-Library.List_Lexorder"
    "HOL-Library.Product_Lexorder"
begin

chapter \<open>llama.cpp UI metrics: parser, correlator and aggregation\<close>

text \<open>
  A shallow embedding of the capture and correlation engine of the extension:
  \<^item> \<^verbatim>\<open>background.js\<close>: the conversation-chain correlator (\<^verbatim>\<open>shouldRotateChain\<close>,
    \<^verbatim>\<open>assignChainMetadata\<close>, \<^verbatim>\<open>addRecord\<close>) and the aggregation engine
    (\<^verbatim>\<open>buildDashboardStats\<close>, \<^verbatim>\<open>buildScenarioComparisons\<close>);
  \<^item> \<^verbatim>\<open>injected.js\<close>: the SSE stream parser (\<^verbatim>\<open>parseSseCloneAndEmitRecord\<close>).

  Conventions of the embedding.
  \<^item> A finite JavaScript number is the \<^typ>\<open>rat\<close> that it denotes (the sign of zero
    apart); \<open>number\<close> adds the infinities and \<^verbatim>\<open>NaN\<close>.
  \<^item> A property that the code reads through a \<^verbatim>\<open>typeof\<close> test is an \<open>option\<close> of the
    type tested for: \<open>None\<close> stands for every value on which the test fails. A property
    that the code copies or computes with, whatever its type, is a \<open>jsval option\<close>:
    \<open>None\<close> stands for \<^verbatim>\<open>null\<close> and \<^verbatim>\<open>undefined\<close> only.
  \<^item> A nested object that the code reads only through its leaves (\<^verbatim>\<open>r?.resp?.timings || {}\<close>)
    is a record of optional leaves; the absent object is the record of \<open>None\<close>s.
  \<^item> \<^verbatim>\<open>Date.now()\<close>, \<^verbatim>\<open>Math.random()\<close>, \<^verbatim>\<open>JSON.parse\<close>, \<^verbatim>\<open>localeCompare\<close>, the rounding of
    an arithmetic result to a binary64 number and the conversion of a string to a number
    belong to the platform; they are parameters of the functions that use them.
  \<^item> The stream parser computes with the platform's rounding. The correlator computes
    with clock readings and counters, the aggregation counts in natural numbers and adds
    and averages the measurements of the records as rationals.
\<close>

section \<open>JavaScript values\<close>

type_synonym jsnum = rat

text \<open>A number: a finite one, an infinity or \<^verbatim>\<open>NaN\<close>.\<close>

datatype number = Finite jsnum | PosInf | NegInf | NaN

text \<open>
  A value other than \<^verbatim>\<open>null\<close> and \<^verbatim>\<open>undefined\<close>, as \<^verbatim>\<open>JSON.parse\<close> yields it. Of an
  object or an array only its conversion to a primitive is ever used (by the operator
  \<^verbatim>\<open>-\<close>): \<open>JObject s\<close> is an object whose \<^verbatim>\<open>toString\<close> yields \<open>s\<close>.
\<close>

datatype jsval = JNumber number | JString string | JBoolean bool | JObject string

text \<open>A leaf that holds a finite number or \<^verbatim>\<open>null\<close>, as a value.\<close>

definition num_leaf :: "jsnum option \<Rightarrow> jsval option" where
  "num_leaf x = (case x of None \<Rightarrow> None | Some v \<Rightarrow> Some (JNumber (Finite v)))"

text \<open>
  The arithmetic of the platform. \<open>fl\<close> rounds the exact result of an operation on
  finite numbers to a binary64 number with an unbounded exponent; a result beyond the
  largest finite number is an infinity. \<open>str_num\<close> is the conversion of a string to a
  number (\<^verbatim>\<open>StringToNumber\<close>).
\<close>

record platform =
  fl :: "rat \<Rightarrow> rat"
  str_num :: "string \<Rightarrow> number"

definition MAX_VALUE :: rat where
  "MAX_VALUE = (2 ^ 53 - 1) * 2 ^ 971"

definition rounded :: "platform \<Rightarrow> rat \<Rightarrow> number" where
  "rounded pf x =
     (let y = fl pf x in
      if y > MAX_VALUE then PosInf else if y < - MAX_VALUE then NegInf else Finite y)"

text \<open>\<^verbatim>\<open>a - b\<close> on numbers.\<close>

fun num_sub :: "platform \<Rightarrow> number \<Rightarrow> number \<Rightarrow> number" where
  "num_sub pf (Finite x) (Finite y) = rounded pf (x - y)"
| "num_sub pf NaN b = NaN"
| "num_sub pf a NaN = NaN"
| "num_sub pf PosInf PosInf = NaN"
| "num_sub pf NegInf NegInf = NaN"
| "num_sub pf PosInf b = PosInf"
| "num_sub pf NegInf b = NegInf"
| "num_sub pf (Finite x) PosInf = NegInf"
| "num_sub pf (Finite x) NegInf = PosInf"

text \<open>\<^verbatim>\<open>a * k\<close> and \<^verbatim>\<open>a / k\<close> for a positive constant \<open>k\<close>.\<close>

fun num_times :: "platform \<Rightarrow> number \<Rightarrow> rat \<Rightarrow> number" where
  "num_times pf (Finite x) k = rounded pf (x * k)"
| "num_times pf a k = a"

fun num_over :: "platform \<Rightarrow> number \<Rightarrow> rat \<Rightarrow> number" where
  "num_over pf (Finite x) k = rounded pf (x / k)"
| "num_over pf a k = a"

text \<open>\<^verbatim>\<open>Math.max(0, a)\<close>\<close>

fun math_max0 :: "number \<Rightarrow> number" where
  "math_max0 (Finite x) = Finite (max 0 x)"
| "math_max0 PosInf = PosInf"
| "math_max0 NegInf = Finite 0"
| "math_max0 NaN = NaN"

text \<open>The conversion of a value to a number, as the operator \<^verbatim>\<open>-\<close> applies it to an
  operand.\<close>

fun ToNumber :: "platform \<Rightarrow> jsval \<Rightarrow> number" where
  "ToNumber pf (JNumber n) = n"
| "ToNumber pf (JBoolean b) = Finite (if b then 1 else 0)"
| "ToNumber pf (JString s) = str_num pf s"
| "ToNumber pf (JObject s) = str_num pf s"

text \<open>\<^verbatim>\<open>x ?? dflt\<close>\<close>

definition nullish_or :: "jsval option \<Rightarrow> jsval \<Rightarrow> jsval" where
  "nullish_or x dflt = (case x of None \<Rightarrow> dflt | Some v \<Rightarrow> v)"

text \<open>\<^verbatim>\<open>typeof x === "number"\<close>\<close>

definition is_number :: "jsval option \<Rightarrow> bool" where
  "is_number x = (case x of Some (JNumber n) \<Rightarrow> True | _ \<Rightarrow> False)"

text \<open>Truthiness of a string-or-null value: \<^verbatim>\<open>null\<close> and \<^verbatim>\<open>""\<close> are falsy.\<close>

definition truthy_str :: "string option \<Rightarrow> bool" where
  "truthy_str x = (case x of None \<Rightarrow> False | Some s \<Rightarrow> s \<noteq> [])"

section \<open>The completion record\<close>

text \<open>
  The blocks of \<^verbatim>\<open>resp\<close>. The parser copies the leaves of the stop chunk's timings and
  its finish reason as they are, and the aggregation tests the type of what it reads
  of them: these leaves are values.
\<close>

record timings =
  cache_n :: "jsval option"
  prompt_n :: "jsval option"
  prompt_ms :: "jsval option"
  predicted_n :: "jsval option"
  predicted_ms :: "jsval option"
  prompt_tps :: "jsval option"
  predicted_tps :: "jsval option"

record phase_boundary =
  reasoning_final_predicted_n :: "jsval option"
  reasoning_final_predicted_ms :: "jsval option"

record derived =
  reasoning_n :: "jsval option"
  reasoning_ms :: "jsval option"
  content_n :: "jsval option"
  content_ms :: "jsval option"

record client_timing =
  request_start_ms :: "jsval option"
  response_headers_ms :: "jsval option"
  first_stream_chunk_ms :: "jsval option"
  stop_chunk_ms :: "jsval option"
  duration_request_to_headers_ms :: "jsval option"
  duration_request_to_first_stream_chunk_ms :: "jsval option"
  duration_headers_to_first_stream_chunk_ms :: "jsval option"
  duration_first_stream_chunk_to_stop_ms :: "jsval option"
  duration_headers_to_stop_ms :: "jsval option"
  duration_request_to_stop_ms :: "jsval option"

record guardrails =
  stop_reason_category :: "string option"
  output_tokens_estimate :: "jsval option"
  output_chars_estimate :: "jsval option"

text \<open>
  \<^verbatim>\<open>resp\<close>: \<open>resp_finish_reason\<close> is \<open>None\<close> for \<^verbatim>\<open>null\<close>; \<open>resp_phase_boundary\<close>
  is \<open>None\<close> for \<^verbatim>\<open>null\<close>. \<^verbatim>\<open>guardrails.output_length_estimate\<close> is flattened into
  \<open>guardrails\<close>. \<open>resp_id\<close>, \<open>resp_created\<close>, \<open>resp_model\<close> and \<open>resp_fingerprint\<close> are
  read at the types of the llama.cpp wire format.
\<close>

record resp =
  resp_id :: "string option"
  resp_created :: "jsnum option"
  resp_model :: "string option"
  resp_fingerprint :: "string option"
  resp_finish_reason :: "jsval option"
  resp_timings :: timings
  resp_phase_boundary :: "phase_boundary option"
  resp_derived :: derived
  resp_client_timing :: client_timing
  resp_guardrails :: guardrails

record role_counts =
  rc_user :: "jsnum option"
  rc_assistant :: "jsnum option"
  rc_tool :: "jsnum option"

record scenario_labels =
  input_mode :: "string option"
  current_user_text_size_bucket :: "string option"
  file_size_bucket :: "string option"
  image_size_bucket :: "string option"
  file_kind_set :: "string option"
  runtime_bucket :: "string option"

text \<open>
  \<^verbatim>\<open>req\<close>, the request metadata: the fields that the correlator and the aggregation read.
  \<open>messages_by_role_count\<close> and \<open>image_count\<close> live in \<^verbatim>\<open>req.input_composition\<close>,
  \<open>prompt_hash\<close> in \<^verbatim>\<open>req.prompt_identity\<close>, \<open>ps_*\<close> in \<^verbatim>\<open>req.payload_signals\<close>.
\<close>

record req =
  req_model :: "string option"
  req_promptText :: "string option"
  messages_count :: "jsnum option"
  has_document :: "bool option"
  has_images :: "bool option"
  messages_by_role_count :: "role_counts option"
  image_count :: "jsnum option"
  prompt_hash :: "string option"
  ps_current_user_text_bytes :: "jsnum option"
  ps_file_bytes_total :: "jsnum option"
  req_scenario_labels :: scenario_labels

record completion =
  trace_id :: "string option"
  promptText :: "string option"
  responseText :: string
  ReasoningText :: "string option"
  captured_at_ms :: "jsnum option"
  ui_origin :: "string option"
  endpoint :: "string option"
  rec_req :: "req option"
  rec_resp :: "resp option"
  session_id :: "string option"
  chain_id :: "string option"
  turn_number :: "jsnum option"

section \<open>Conversation correlator (background.js)\<close>

definition CHAIN_STATE_IDLE_RESET_MS :: jsnum where
  "CHAIN_STATE_IDLE_RESET_MS = 30 * 60 * 1000"

definition CHAIN_DUPLICATE_PROMPT_WINDOW_MS :: jsnum where
  "CHAIN_DUPLICATE_PROMPT_WINDOW_MS = 2 * 60 * 1000"

text \<open>\<^verbatim>\<open>makeChainId\<close>: \<open>stamp\<close> is the decimal text of \<^verbatim>\<open>Date.now()\<close>, \<open>suffix\<close> the
  result of \<^verbatim>\<open>randomSuffix(8)\<close>.\<close>

definition makeChainId :: "string \<Rightarrow> string \<Rightarrow> string" where
  "makeChainId stamp suffix = ''c-'' @ stamp @ ''-'' @ suffix"

definition toPositiveInt :: "jsnum option \<Rightarrow> jsnum option" where
  "toPositiveInt x =
     (case x of
        None \<Rightarrow> None
      | Some v \<Rightarrow> (let n = of_int \<lfloor>v\<rfloor> in if n > 0 then Some n else None))"

definition getCountsFromRecord :: "completion \<Rightarrow> role_counts" where
  "getCountsFromRecord r =
     (case rec_req r of
        None \<Rightarrow> \<lparr>rc_user = None, rc_assistant = None, rc_tool = None\<rparr>
      | Some q \<Rightarrow>
          (case messages_by_role_count q of
             None \<Rightarrow> \<lparr>rc_user = None, rc_assistant = None, rc_tool = None\<rparr>
           | Some c \<Rightarrow> c))"

record signals =
  userCount :: "jsnum option"
  assistantCount :: jsnum
  toolCount :: jsnum
  messagesCount :: "jsnum option"
  promptHash :: "string option"
  uiOrigin :: "string option"
  sig_endpoint :: "string option"

definition getConversationSignals :: "completion \<Rightarrow> signals" where
  "getConversationSignals r =
     (let counts = getCountsFromRecord r in
      \<lparr> userCount = toPositiveInt (rc_user counts),
        assistantCount = (case toPositiveInt (rc_assistant counts) of None \<Rightarrow> 0 | Some n \<Rightarrow> n),
        toolCount = (case toPositiveInt (rc_tool counts) of None \<Rightarrow> 0 | Some n \<Rightarrow> n),
        messagesCount = toPositiveInt (case rec_req r of None \<Rightarrow> None | Some q \<Rightarrow> messages_count q),
        promptHash = (case rec_req r of None \<Rightarrow> None | Some q \<Rightarrow> prompt_hash q),
        uiOrigin = ui_origin r,
        sig_endpoint = endpoint r \<rparr>)"

definition looksLikeFirstTurn :: "signals \<Rightarrow> bool" where
  "looksLikeFirstTurn sg =
     (if userCount sg \<noteq> Some 1 then False
      else if assistantCount sg > 0 \<or> toolCount sg > 0 then False
      else (case messagesCount sg of None \<Rightarrow> True | Some m \<Rightarrow> m \<le> 4))"

text \<open>
  The per-tab chain state as \<^verbatim>\<open>setTabChainState\<close> stores it. The code re-checks the
  type of each field when it reads the state back, so each field is optional here.
\<close>

record chain_state =
  st_chain_id :: "string option"
  st_turn_number :: "jsnum option"
  st_last_seen_ms :: "jsnum option"
  st_last_user_count :: "jsnum option"
  st_last_messages_count :: "jsnum option"
  st_last_prompt_hash :: "string option"
  st_ui_origin :: "string option"
  st_endpoint :: "string option"

text \<open>
  The message sender: \<open>tab_id\<close> is \<^verbatim>\<open>sender.tab.id\<close> when it is an integer,
  \<open>tab_origin\<close> is \<^verbatim>\<open>new URL(sender.tab.url).origin\<close>, \<open>None\<close> when the URL is
  missing or does not parse.
\<close>

record sender =
  tab_id :: "int option"
  tab_origin :: "string option"

definition shouldRotateChain :: "chain_state option \<Rightarrow> signals \<Rightarrow> jsnum \<Rightarrow> sender \<Rightarrow> bool" where
  "shouldRotateChain state sg ts sndr =
     (case state of
        None \<Rightarrow> True
      | Some st \<Rightarrow>
          (let lastSeenMs = st_last_seen_ms st in
           if (case lastSeenMs of None \<Rightarrow> False | Some l \<Rightarrow> ts - l > CHAIN_STATE_IDLE_RESET_MS)
           then True
           else
             (let senderOrigin = tab_origin sndr;
                  prevOrigin = st_ui_origin st;
                  currOrigin = (if truthy_str (uiOrigin sg) then uiOrigin sg else senderOrigin)
              in
              if truthy_str prevOrigin \<and> truthy_str currOrigin \<and> prevOrigin \<noteq> currOrigin
              then True
              else
                (let prevUserCount = toPositiveInt (st_last_user_count st) in
                 if (case (userCount sg, prevUserCount) of
                       (Some u, Some p) \<Rightarrow> u < p
                     | _ \<Rightarrow> False)
                 then True
                 else if looksLikeFirstTurn sg then
                   (let samePrompt =
                          (truthy_str (promptHash sg) \<and> st_last_prompt_hash st \<noteq> None \<and>
                           promptHash sg = st_last_prompt_hash st);
                        nearDuplicate =
                          (samePrompt \<and>
                           (case lastSeenMs of
                              None \<Rightarrow> False
                            | Some l \<Rightarrow> ts - l \<le> CHAIN_DUPLICATE_PROMPT_WINDOW_MS))
                    in \<not> nearDuplicate)
                 else False))))"

text \<open>
  The environment of one correlation call: the clock reading used when the record has
  no \<^verbatim>\<open>captured_at_ms\<close>, and the two ingredients of a fresh chain id.
\<close>

record call_env =
  now_ms :: jsnum
  id_stamp :: string
  id_suffix :: string

type_synonym chain_store = "int \<rightharpoonup> chain_state"

definition getTabChainState :: "chain_store \<Rightarrow> int option \<Rightarrow> chain_state option" where
  "getTabChainState store tabId = (case tabId of None \<Rightarrow> None | Some t \<Rightarrow> store t)"

definition setTabChainState :: "chain_store \<Rightarrow> int option \<Rightarrow> chain_state \<Rightarrow> chain_store" where
  "setTabChainState store tabId st = (case tabId of None \<Rightarrow> store | Some t \<Rightarrow> store(t \<mapsto> st))"


text \<open>
  \<^verbatim>\<open>assignChainMetadata\<close> mutates the record and the store; here it returns both.
\<close>

definition assignChainMetadata ::
  "call_env \<Rightarrow> chain_store \<Rightarrow> completion \<Rightarrow> sender \<Rightarrow> chain_store \<times> completion" where
  "assignChainMetadata env store r sndr =
     (let ts = (case captured_at_ms r of Some t \<Rightarrow> t | None \<Rightarrow> now_ms env);
          sg = getConversationSignals r;
          tabId = tab_id sndr;
          state = getTabChainState store tabId;
          rotate = shouldRotateChain state sg ts sndr;
          chainId0 = (if \<not> rotate then (case state of None \<Rightarrow> None | Some st \<Rightarrow> st_chain_id st)
                      else None);
          turnNumber0 =
            (if \<not> rotate
             then max 1 ((case toPositiveInt (case state of None \<Rightarrow> None | Some st \<Rightarrow> st_turn_number st) of
                            None \<Rightarrow> 0 | Some n \<Rightarrow> n) + 1)
             else 1);
          fresh = \<not> truthy_str chainId0;
          chainId = (case chainId0 of
                       None \<Rightarrow> makeChainId (id_stamp env) (id_suffix env)
                     | Some c \<Rightarrow> if fresh then makeChainId (id_stamp env) (id_suffix env) else c);
          turnNumber = (if fresh then 1 else turnNumber0);
          r' = r\<lparr>chain_id := Some chainId, turn_number := Some turnNumber\<rparr>;
          store' = setTabChainState store tabId
            \<lparr> st_chain_id = Some chainId,
              st_turn_number = Some turnNumber,
              st_last_seen_ms = Some ts,
              st_last_user_count = userCount sg,
              st_last_messages_count = messagesCount sg,
              st_last_prompt_hash = promptHash sg,
              st_ui_origin = (if truthy_str (uiOrigin sg) then uiOrigin sg else None),
              st_endpoint = (if truthy_str (sig_endpoint sg) then sig_endpoint sg else None) \<rparr>
      in (store', r'))"

section \<open>Stream parser (injected.js)\<close>

subsection \<open>Helpers\<close>

definition MAX_CAPTURED_TEXT_CHARS :: nat where
  "MAX_CAPTURED_TEXT_CHARS = 200000"

text \<open>\<^verbatim>\<open>Math.round\<close> rounds to the nearest integer, a half towards plus infinity.\<close>

definition math_round :: "jsnum \<Rightarrow> jsnum" where
  "math_round x = of_int \<lfloor>x + 1 / 2\<rfloor>"

text \<open>\<^verbatim>\<open>Math.round\<close> on a number: the nearest integer of a finite number is a binary64
  number, the other numbers are returned as they are.\<close>

fun num_round :: "number \<Rightarrow> number" where
  "num_round (Finite x) = Finite (math_round x)"
| "num_round a = a"

text \<open>
  \<^verbatim>\<open>roundMs\<close>: \<^verbatim>\<open>null\<close> for what is not a finite number, \<^verbatim>\<open>Math.round(x * 1000) / 1000\<close>
  otherwise.
\<close>

definition roundMs :: "platform \<Rightarrow> jsval option \<Rightarrow> jsval option" where
  "roundMs pf x =
     (case x of
        Some (JNumber (Finite v)) \<Rightarrow>
          Some (JNumber (num_over pf (num_round (num_times pf (Finite v) 1000)) 1000))
      | _ \<Rightarrow> None)"

definition clipCapturedText :: "string option \<Rightarrow> string option" where
  "clipCapturedText s =
     (case s of
        None \<Rightarrow> None
      | Some t \<Rightarrow> if length t \<le> MAX_CAPTURED_TEXT_CHARS then Some t
                  else Some (take MAX_CAPTURED_TEXT_CHARS t))"

definition categorizeFinishReason :: "jsval option \<Rightarrow> string" where
  "categorizeFinishReason finishReason =
     (if finishReason = Some (JString ''stop'') then ''completed''
      else if finishReason = Some (JString ''length'') then ''truncated_length''
      else if finishReason = Some (JString ''content_filter'') then ''filtered''
      else if finishReason = Some (JString ''tool_calls'') then ''tool_calls''
      else if finishReason = None then ''unknown''
      else ''other'')"

text \<open>
  Text is a list of 8-bit characters. The white space that \<^verbatim>\<open>trim\<close> and \<^verbatim>\<open>trimEnd\<close>
  strip: tab, line feed, vertical tab, form feed, carriage return, space and the
  no-break space (the white space and line terminators of ECMAScript below 256).
\<close>

definition is_js_space :: "char \<Rightarrow> bool" where
  "is_js_space c =
     (c = CHR 0x09 \<or> c = CHR 0x0A \<or> c = CHR 0x0B \<or> c = CHR 0x0C \<or> c = CHR 0x0D \<or>
      c = CHR 0x20 \<or> c = CHR 0xA0)"

definition trimStart :: "string \<Rightarrow> string" where
  "trimStart s = dropWhile is_js_space s"

definition trimEnd :: "string \<Rightarrow> string" where
  "trimEnd s = rev (dropWhile is_js_space (rev s))"

definition trim :: "string \<Rightarrow> string" where
  "trim s = trimEnd (trimStart s)"

definition startsWith :: "string \<Rightarrow> string \<Rightarrow> bool" where
  "startsWith s p = (take (length p) s = p)"

subsection \<open>Stream chunks\<close>

text \<open>
  What \<^verbatim>\<open>JSON.parse\<close> yields for one \<^verbatim>\<open>data:\<close> payload.
  \<^item> \<open>ch_object\<close> is compared with a string; \<open>ch_id\<close>, \<open>ch_created\<close>, \<open>ch_model\<close> and
    \<open>ch_system_fingerprint\<close> are read at the types of the llama.cpp wire format.
  \<^item> \<open>ch_delta_content\<close> and \<open>ch_delta_reasoning_content\<close> are the leaves of
    \<^verbatim>\<open>choices[0].delta\<close>, \<open>None\<close> when \<^verbatim>\<open>choices\<close> is not an array or the leaf is not a
    string (the code tests \<^verbatim>\<open>typeof\<close>).
  \<^item> \<open>ch_finish_reason\<close> is \<^verbatim>\<open>choices[0]?.finish_reason\<close>, a value of any type, \<open>None\<close>
    when \<^verbatim>\<open>choices\<close> is not an array or the leaf is \<^verbatim>\<open>null\<close> or \<^verbatim>\<open>undefined\<close>.
  \<^item> \<open>ch_timings\<close> is \<open>None\<close> when \<^verbatim>\<open>chunk.timings\<close> is falsy. Its leaves are values of
    any type, \<open>None\<close> when \<^verbatim>\<open>null\<close> or \<^verbatim>\<open>undefined\<close>; a truthy \<^verbatim>\<open>timings\<close> without any
    of them (an empty object, a string) is the record of \<open>None\<close>s.
\<close>

record chunk_timings =
  t_cache_n :: "jsval option"
  t_prompt_n :: "jsval option"
  t_prompt_ms :: "jsval option"
  t_predicted_n :: "jsval option"
  t_predicted_ms :: "jsval option"
  t_prompt_per_second :: "jsval option"
  t_predicted_per_second :: "jsval option"

record chunk =
  ch_object :: "string option"
  ch_id :: "string option"
  ch_created :: "jsnum option"
  ch_model :: "string option"
  ch_system_fingerprint :: "string option"
  ch_delta_content :: "string option"
  ch_delta_reasoning_content :: "string option"
  ch_finish_reason :: "jsval option"
  ch_timings :: "chunk_timings option"

record reasoning_boundary =
  rb_predicted_n :: "jsval option"
  rb_predicted_ms :: "jsval option"

text \<open>The local variables of \<^verbatim>\<open>parseSseCloneAndEmitRecord\<close>, the buffer apart.\<close>

record pstate =
  completionId :: "string option"
  completionCreated :: "jsnum option"
  completionModel :: "string option"
  systemFingerprint :: "string option"
  reasoningBoundary :: "reasoning_boundary option"
  stopChunk :: "chunk option"
  lastTimingsAtStop :: "chunk_timings option"
  stopFinishReason :: "jsval option"
  lastTimedChunk :: "chunk option"
  sawDoneMarker :: bool
  firstStreamChunkAtMs :: "jsnum option"
  stopChunkAtMs :: "jsnum option"
  st_responseText :: string
  st_reasoningText :: string

definition init_pstate :: pstate where
  "init_pstate =
     \<lparr> completionId = None, completionCreated = None, completionModel = None,
       systemFingerprint = None, reasoningBoundary = None, stopChunk = None,
       lastTimingsAtStop = None, stopFinishReason = None, lastTimedChunk = None,
       sawDoneMarker = False, firstStreamChunkAtMs = None, stopChunkAtMs = None,
       st_responseText = [], st_reasoningText = [] \<rparr>"

text \<open>
  The readings of \<^verbatim>\<open>Date.now()\<close>, one for each place that calls it: after the first
  read, at the stop chunk inside the loop, at the promotion after the loop, at the
  default of \<^verbatim>\<open>stopMs\<close>, and at \<^verbatim>\<open>captured_at_ms\<close>.
\<close>

record clock =
  now_first_chunk :: jsnum
  now_stop_in_loop :: jsnum
  now_stop_after_loop :: jsnum
  now_stop_default :: jsnum
  now_captured :: jsnum

text \<open>\<^verbatim>\<open>a || b || null\<close> on strings and on numbers.\<close>

definition or_str :: "string option \<Rightarrow> string option \<Rightarrow> string option" where
  "or_str a b = (if truthy_str a then a else if truthy_str b then b else None)"

definition truthy_num :: "jsnum option \<Rightarrow> bool" where
  "truthy_num x = (case x of None \<Rightarrow> False | Some n \<Rightarrow> n \<noteq> 0)"

definition or_num :: "jsnum option \<Rightarrow> jsnum option \<Rightarrow> jsnum option" where
  "or_num a b = (if truthy_num a then a else if truthy_num b then b else None)"

definition append_capped :: "string \<Rightarrow> string option \<Rightarrow> string" where
  "append_capped acc piece =
     (case piece of
        None \<Rightarrow> acc
      | Some t \<Rightarrow>
          if length acc < MAX_CAPTURED_TEXT_CHARS
          then (let remaining = MAX_CAPTURED_TEXT_CHARS - length acc
                in if remaining > 0 then acc @ take remaining t else acc)
          else acc)"

subsection \<open>The loop body\<close>

text \<open>
  Each step of the inner loop returns the new state and whether it left the loop with
  \<^verbatim>\<open>break\<close> (\<open>True\<close>) or went on (\<open>False\<close>).
\<close>

text \<open>
  The promotion of the last timed chunk to stop chunk, at \<^verbatim>\<open>[DONE]\<close> and after the loop.
  The finish reason is \<^verbatim>\<open>choices[0]?.finish_reason ?? "done"\<close>: the leaf of the chunk
  whatever its type, \<^verbatim>\<open>done\<close> when it is \<^verbatim>\<open>null\<close> or \<^verbatim>\<open>undefined\<close>.
\<close>

definition promote :: "jsnum \<Rightarrow> chunk \<Rightarrow> pstate \<Rightarrow> pstate" where
  "promote now c s =
     s\<lparr> stopChunk := Some c,
        lastTimingsAtStop := ch_timings c,
        stopFinishReason := Some (nullish_or (ch_finish_reason c) (JString ''done'')),
        stopChunkAtMs := Some now \<rparr>"

definition process_done :: "clock \<Rightarrow> pstate \<Rightarrow> bool \<times> pstate" where
  "process_done clk s =
     (let s1 = s\<lparr>sawDoneMarker := True\<rparr> in
      case (stopChunk s1, lastTimedChunk s1) of
        (None, Some c) \<Rightarrow> (True, promote (now_stop_in_loop clk) c s1)
      | _ \<Rightarrow> (False, s1))"

text \<open>
  The loop body for a chunk, up to the test of the finish reason: the identifiers, the
  captured texts, the last timed chunk and the reasoning boundary.
\<close>

definition absorb :: "pstate \<Rightarrow> chunk \<Rightarrow> pstate" where
  "absorb s c =
     (let s1 = s\<lparr> completionId := or_str (completionId s) (ch_id c),
                  completionCreated := or_num (completionCreated s) (ch_created c),
                  completionModel := or_str (completionModel s) (ch_model c),
                  systemFingerprint := or_str (systemFingerprint s) (ch_system_fingerprint c) \<rparr>;
          s2 = s1\<lparr> st_responseText := append_capped (st_responseText s1) (ch_delta_content c) \<rparr>;
          s3 = s2\<lparr> st_reasoningText :=
                       append_capped (st_reasoningText s2) (ch_delta_reasoning_content c) \<rparr>;
          s4 = (if ch_timings c \<noteq> None then s3\<lparr>lastTimedChunk := Some c\<rparr> else s3)
      in case (ch_delta_reasoning_content c, ch_timings c) of
           (Some _, Some t) \<Rightarrow>
             s4\<lparr>reasoningBoundary :=
                  Some \<lparr>rb_predicted_n = t_predicted_n t, rb_predicted_ms = t_predicted_ms t\<rparr>\<rparr>
         | _ \<Rightarrow> s4)"

text \<open>
  The whole loop body for a chunk: the loop ends when the finish reason is a
  non-empty string (\<^verbatim>\<open>typeof finishReason === "string" && finishReason.length > 0\<close>).
\<close>

definition process_chunk :: "clock \<Rightarrow> pstate \<Rightarrow> chunk \<Rightarrow> bool \<times> pstate" where
  "process_chunk clk s c =
     (let finishReason = ch_finish_reason c;
          s5 = absorb s c
      in case finishReason of
           Some (JString f) \<Rightarrow>
             if length f > 0
             then (True, s5\<lparr> stopChunk := Some c,
                              lastTimingsAtStop := ch_timings c,
                              stopFinishReason := finishReason,
                              stopChunkAtMs := Some (now_stop_in_loop clk) \<rparr>)
             else (False, s5)
         | _ \<Rightarrow> (False, s5))"

text \<open>
  \<open>decode\<close> is \<^verbatim>\<open>safeJsonParse\<close> followed by the reading of the fields: \<open>None\<close>
  when \<^verbatim>\<open>JSON.parse\<close> throws or yields a value that is not an object.
\<close>

definition process_data :: "(string \<Rightarrow> chunk option) \<Rightarrow> clock \<Rightarrow> pstate \<Rightarrow> string \<Rightarrow> bool \<times> pstate" where
  "process_data decode clk s data =
     (if data = ''[DONE]'' then process_done clk s
      else
        (case decode data of
           None \<Rightarrow> (False, s)
         | Some c \<Rightarrow>
             if ch_object c \<noteq> Some ''chat.completion.chunk'' then (False, s)
             else process_chunk clk s c))"

definition process_line :: "(string \<Rightarrow> chunk option) \<Rightarrow> clock \<Rightarrow> pstate \<Rightarrow> string \<Rightarrow> bool \<times> pstate" where
  "process_line decode clk s line =
     (if \<not> startsWith line ''data:'' then (False, s)
      else
        (let data = trim (drop 5 line) in
         if data = [] then (False, s)
         else process_data decode clk s data))"

subsection \<open>The loops\<close>

lemma length_after_newline:
  assumes "CHR 0x0A \<in> set buf"
  shows "length (dropWhile (\<lambda>c. c \<noteq> CHR 0x0A) buf) - Suc 0 < length buf"
proof -
  have "dropWhile (\<lambda>c. c \<noteq> CHR 0x0A) buf \<noteq> []"
    using assms by simp
  then have "length (dropWhile (\<lambda>c. c \<noteq> CHR 0x0A) buf) - Suc 0
      < length (dropWhile (\<lambda>c. c \<noteq> CHR 0x0A) buf)"
    by simp
  also have "\<dots> \<le> length buf"
    by (rule length_dropWhile_le)
  finally show ?thesis .
qed

text \<open>
  The inner loop: while the buffer holds a line feed, cut the first line off, trim its
  end and process it. The result tells whether the loop was left with \<^verbatim>\<open>break\<close>, and
  holds the rest of the buffer.
\<close>

function drain ::
  "(string \<Rightarrow> chunk option) \<Rightarrow> clock \<Rightarrow> string \<Rightarrow> pstate \<Rightarrow> bool \<times> string \<times> pstate" where
  "drain decode clk buf s =
     (if CHR 0x0A \<notin> set buf then (False, buf, s)
      else
        (let line = trimEnd (takeWhile (\<lambda>c. c \<noteq> CHR 0x0A) buf);
             rest = tl (dropWhile (\<lambda>c. c \<noteq> CHR 0x0A) buf)
         in case process_line decode clk s line of
              (True, s') \<Rightarrow> (True, rest, s')
            | (False, s') \<Rightarrow> drain decode clk rest s'))"
  by pat_completeness auto
termination
  by (relation "measure (\<lambda>(decode, clk, buf, s). length buf)")
     (auto simp: length_after_newline)

text \<open>How the stream ends when no stop chunk ends the reading first: \<^verbatim>\<open>read()\<close>
  reports \<^verbatim>\<open>done\<close>, or it throws.\<close>

datatype stream_end = Eof | Failed

text \<open>
  The outer loop over the decoded texts of the successive reads. \<open>None\<close> is the
  \<^verbatim>\<open>return\<close> of the \<^verbatim>\<open>catch\<close> block.
\<close>

fun read_loop ::
  "(string \<Rightarrow> chunk option) \<Rightarrow> clock \<Rightarrow> stream_end \<Rightarrow> string \<Rightarrow> pstate \<Rightarrow> string list \<Rightarrow> pstate option" where
  "read_loop decode clk ending buf s [] = (case ending of Eof \<Rightarrow> Some s | Failed \<Rightarrow> None)"
| "read_loop decode clk ending buf s (v # vs) =
     (let s1 = (if firstStreamChunkAtMs s = None
                then s\<lparr>firstStreamChunkAtMs := Some (now_first_chunk clk)\<rparr> else s)
      in case drain decode clk (buf @ v) s1 of
           (brk, buf', s2) \<Rightarrow>
             if stopChunk s2 \<noteq> None then Some s2
             else read_loop decode clk ending buf' s2 vs)"

subsection \<open>After the loop\<close>

definition promote_after_loop :: "clock \<Rightarrow> pstate \<Rightarrow> pstate" where
  "promote_after_loop clk s =
     (case lastTimedChunk s of
        None \<Rightarrow> s
      | Some c \<Rightarrow>
          if (stopChunk s = None \<or> lastTimingsAtStop s = None) \<and> sawDoneMarker s
          then promote (now_stop_after_loop clk) c s
          else s)"

text \<open>
  The timing context that the fetch hook passes: each mark is a reading of
  \<^verbatim>\<open>Date.now()\<close>, or \<^verbatim>\<open>null\<close>.
\<close>

record timing_context =
  tc_request_start_ms :: "jsnum option"
  tc_response_headers_ms :: "jsnum option"

text \<open>One client-side delta: \<^verbatim>\<open>(a !== null && b !== null) ? Math.max(0, b - a) : null\<close>.\<close>

definition duration :: "platform \<Rightarrow> jsnum option \<Rightarrow> jsnum option \<Rightarrow> jsval option" where
  "duration pf earlier later =
     (case (earlier, later) of
        (Some a, Some b) \<Rightarrow> Some (JNumber (math_max0 (num_sub pf (Finite b) (Finite a))))
      | _ \<Rightarrow> None)"

definition build_client_timing ::
  "platform \<Rightarrow> jsnum option \<Rightarrow> jsnum option \<Rightarrow> jsnum option \<Rightarrow> jsnum option \<Rightarrow> client_timing" where
  "build_client_timing pf requestStartMs responseHeadersMs firstChunkMs stopMs =
     \<lparr> request_start_ms = num_leaf requestStartMs,
       response_headers_ms = num_leaf responseHeadersMs,
       first_stream_chunk_ms = num_leaf firstChunkMs,
       stop_chunk_ms = num_leaf stopMs,
       duration_request_to_headers_ms = duration pf requestStartMs responseHeadersMs,
       duration_request_to_first_stream_chunk_ms = duration pf requestStartMs firstChunkMs,
       duration_headers_to_first_stream_chunk_ms = duration pf responseHeadersMs firstChunkMs,
       duration_first_stream_chunk_to_stop_ms = duration pf firstChunkMs stopMs,
       duration_headers_to_stop_ms = duration pf responseHeadersMs stopMs,
       duration_request_to_stop_ms = duration pf requestStartMs stopMs \<rparr>"

text \<open>
  The \<^verbatim>\<open>derived\<close> block. \<open>rPredN\<close> and \<open>rPredMs\<close> are
  \<^verbatim>\<open>reasoningBoundary?.predicted_n ?? 0\<close> and its companion: values of any type.
  \<open>cPredN\<close> is \<^verbatim>\<open>(typeof totalPredN === "number") ? Math.max(0, totalPredN - rPredN) : null\<close>.
\<close>

definition build_derived :: "platform \<Rightarrow> reasoning_boundary option \<Rightarrow> chunk_timings \<Rightarrow> derived" where
  "build_derived pf rb lt =
     (let totalPredN = t_predicted_n lt;
          totalPredMs = t_predicted_ms lt;
          rPredN = (case rb of None \<Rightarrow> JNumber (Finite 0)
                    | Some b \<Rightarrow> nullish_or (rb_predicted_n b) (JNumber (Finite 0)));
          rPredMs = (case rb of None \<Rightarrow> JNumber (Finite 0)
                     | Some b \<Rightarrow> nullish_or (rb_predicted_ms b) (JNumber (Finite 0)));
          cPredN = (case totalPredN of
                      Some (JNumber t) \<Rightarrow> Some (JNumber (math_max0 (num_sub pf t (ToNumber pf rPredN))))
                    | _ \<Rightarrow> None);
          cPredMs = (case totalPredMs of
                       Some (JNumber t) \<Rightarrow> Some (JNumber (math_max0 (num_sub pf t (ToNumber pf rPredMs))))
                     | _ \<Rightarrow> None)
      in \<lparr> reasoning_n = (if rb \<noteq> None then Some rPredN else Some (JNumber (Finite 0))),
           reasoning_ms = (if rb \<noteq> None then roundMs pf (Some rPredMs) else Some (JNumber (Finite 0))),
           content_n = (if rb \<noteq> None then cPredN
                        else if is_number totalPredN then totalPredN else None),
           content_ms = (if rb \<noteq> None then roundMs pf cPredMs
                         else if is_number totalPredMs then roundMs pf totalPredMs else None) \<rparr>)"

text \<open>The \<^verbatim>\<open>timings\<close> block of the record, from the timings of the stop chunk.\<close>

definition build_timings :: "platform \<Rightarrow> chunk_timings \<Rightarrow> timings" where
  "build_timings pf lt =
     \<lparr> cache_n = t_cache_n lt,
       prompt_n = t_prompt_n lt,
       prompt_ms = roundMs pf (t_prompt_ms lt),
       predicted_n = t_predicted_n lt,
       predicted_ms = roundMs pf (t_predicted_ms lt),
       prompt_tps = t_prompt_per_second lt,
       predicted_tps = t_predicted_per_second lt \<rparr>"

text \<open>
  The parameters of one parse beside the stream: the trace id, \<^verbatim>\<open>location.origin\<close>,
  the request metadata and the timing context of the fetch hook.
\<close>

record parse_ctx =
  px_trace_id :: string
  px_origin :: string
  px_request_meta :: "req option"
  px_timing :: timing_context

text \<open>
  The record. \<open>outputTokensEstimate\<close> is \<open>totalPredN\<close> when that is a finite number,
  \<open>outputCharsEstimate\<close> is \<^verbatim>\<open>Math.round(outputTokensEstimate * 4)\<close>.
\<close>

definition build_record :: "platform \<Rightarrow> clock \<Rightarrow> parse_ctx \<Rightarrow> pstate \<Rightarrow> chunk_timings \<Rightarrow> completion" where
  "build_record pf clk ctx s lt =
     (let totalPredN = t_predicted_n lt;
          finishReasonFinal = Some (nullish_or (stopFinishReason s) (JString ''stop''));
          outputTokensEstimate =
            (case totalPredN of Some (JNumber (Finite n)) \<Rightarrow> totalPredN | _ \<Rightarrow> None);
          outputCharsEstimate =
            (case outputTokensEstimate of
               Some (JNumber (Finite n)) \<Rightarrow> Some (JNumber (num_round (num_times pf (Finite n) 4)))
             | _ \<Rightarrow> None);
          requestStartMs = tc_request_start_ms (px_timing ctx);
          responseHeadersMs = tc_response_headers_ms (px_timing ctx);
          stopMs = (case stopChunkAtMs s of Some t \<Rightarrow> Some t | None \<Rightarrow> Some (now_stop_default clk))
      in \<lparr> trace_id = Some (px_trace_id ctx),
           promptText = clipCapturedText
             (case px_request_meta ctx of None \<Rightarrow> None | Some q \<Rightarrow> req_promptText q),
           responseText = st_responseText s,
           ReasoningText = (if length (st_reasoningText s) > 0 then Some (st_reasoningText s) else None),
           captured_at_ms = Some (now_captured clk),
           ui_origin = Some (px_origin ctx),
           endpoint = Some ''/v1/chat/completions'',
           rec_req = px_request_meta ctx,
           rec_resp = Some
             \<lparr> resp_id = completionId s,
               resp_created = completionCreated s,
               resp_model = completionModel s,
               resp_fingerprint = systemFingerprint s,
               resp_finish_reason = finishReasonFinal,
               resp_timings = build_timings pf lt,
               resp_phase_boundary =
                 (case reasoningBoundary s of
                    None \<Rightarrow> None
                  | Some b \<Rightarrow>
                      Some \<lparr> reasoning_final_predicted_n = rb_predicted_n b,
                             reasoning_final_predicted_ms = roundMs pf (rb_predicted_ms b) \<rparr>),
               resp_derived = build_derived pf (reasoningBoundary s) lt,
               resp_client_timing =
                 build_client_timing pf requestStartMs responseHeadersMs (firstStreamChunkAtMs s) stopMs,
               resp_guardrails =
                 \<lparr> stop_reason_category = Some (categorizeFinishReason finishReasonFinal),
                   output_tokens_estimate = outputTokensEstimate,
                   output_chars_estimate = outputCharsEstimate \<rparr> \<rparr>,
           session_id = None,
           chain_id = None,
           turn_number = None \<rparr>)"

text \<open>The part of the function after the loop: promotion, the silent drop, the record.\<close>

definition emit :: "platform \<Rightarrow> clock \<Rightarrow> parse_ctx \<Rightarrow> pstate \<Rightarrow> completion option" where
  "emit pf clk ctx s0 =
     (let s = promote_after_loop clk s0 in
      case (stopChunk s, lastTimingsAtStop s) of
        (Some c, Some lt) \<Rightarrow> Some (build_record pf clk ctx s lt)
      | _ \<Rightarrow> None)"

text \<open>
  The whole function: \<open>isSse\<close> is the test of the content type and of the body,
  \<open>reads\<close> the decoded text of each successful \<^verbatim>\<open>reader.read()\<close>. The result is the
  record posted to the page, \<open>None\<close> when the function returns without posting.
\<close>

definition parseSseCloneAndEmitRecord ::
  "platform \<Rightarrow> (string \<Rightarrow> chunk option) \<Rightarrow> clock \<Rightarrow> parse_ctx \<Rightarrow> bool \<Rightarrow> string list \<Rightarrow> stream_end
     \<Rightarrow> completion option" where
  "parseSseCloneAndEmitRecord pf decode clk ctx isSse reads ending =
     (if \<not> isSse then None
      else
        (case read_loop decode clk ending [] init_pstate reads of
           None \<Rightarrow> None
         | Some s \<Rightarrow> emit pf clk ctx s))"

text \<open>A number that is neither negative nor \<^verbatim>\<open>NaN\<close>.\<close>

fun not_negative :: "number \<Rightarrow> bool" where
  "not_negative (Finite x) = (0 \<le> x)"
| "not_negative PosInf = True"
| "not_negative NegInf = False"
| "not_negative NaN = False"

text \<open>
  What claim C7 says of one delta \<open>d\<close> between the marks \<open>earlier\<close> and \<open>later\<close>: it is
  \<^verbatim>\<open>Math.max(0, later - earlier)\<close> when both marks are known, which is
  \<open>max 0 (later - earlier)\<close> when the platform subtracts the two marks exactly; it is
  \<^verbatim>\<open>null\<close> exactly when one of its marks is unknown; and it is never negative.
\<close>

abbreviation delta_as_claimed ::
  "platform \<Rightarrow> jsnum option \<Rightarrow> jsnum option \<Rightarrow> jsval option \<Rightarrow> bool" where
  "delta_as_claimed pf earlier later d \<equiv>
     (\<forall>x y. earlier = Some x \<and> later = Some y \<longrightarrow>
        d = Some (JNumber (math_max0 (num_sub pf (Finite y) (Finite x))))) \<and>
     (\<forall>x y. earlier = Some x \<and> later = Some y \<and> rounded pf (y - x) = Finite (y - x) \<longrightarrow>
        d = Some (JNumber (Finite (max 0 (y - x))))) \<and>
     ((d = None) = (earlier = None \<or> later = None)) \<and>
     (\<forall>v. d = Some v \<longrightarrow> (\<exists>n. v = JNumber n \<and> not_negative n))"

text \<open>
  What the code makes of the split \<open>d\<close> of the record, given the reasoning boundary
  \<open>rb\<close> and the timings \<open>lt\<close> of the stop chunk.
  \<^item> Without a boundary the reasoning values are zero and the content values are the
    totals: \<open>content_n\<close> is \<^verbatim>\<open>predicted_n\<close> when that is a number, and \<open>content_ms\<close> is
    \<^verbatim>\<open>roundMs(predicted_ms)\<close>, which is also the \<^verbatim>\<open>timings.predicted_ms\<close> of the record.
  \<^item> With a boundary the reasoning values are those of the boundary: \<open>reasoning_n\<close> as
    the chunk carried it, a value of any type, zero when it carried none, and
    \<open>reasoning_ms\<close> rounded by \<^verbatim>\<open>roundMs\<close>, which yields \<^verbatim>\<open>null\<close> for what is not a finite
    number. The content values are \<^verbatim>\<open>null\<close> when the total is not a number. When total
    and boundary are finite numbers, \<open>content_n\<close> is \<open>max 0 (total - boundary)\<close> provided
    the platform subtracts the two exactly, and \<open>content_ms\<close> is the \<^verbatim>\<open>roundMs\<close> of
    \<^verbatim>\<open>Math.max(0, total - boundary)\<close>. \<open>content_n\<close> is never negative (it can be
    \<^verbatim>\<open>NaN\<close>), and \<open>content_ms\<close> is never negative on a platform whose rounding keeps a
    result that is not negative from becoming negative.
\<close>

abbreviation split_as_code ::
  "platform \<Rightarrow> reasoning_boundary option \<Rightarrow> chunk_timings \<Rightarrow> derived \<Rightarrow> bool" where
  "split_as_code pf rb lt d \<equiv>
     (rb = None \<longrightarrow>
        reasoning_n d = Some (JNumber (Finite 0)) \<and>
        reasoning_ms d = Some (JNumber (Finite 0)) \<and>
        content_n d = (if is_number (t_predicted_n lt) then t_predicted_n lt else None) \<and>
        content_ms d = roundMs pf (t_predicted_ms lt)) \<and>
     (\<forall>b. rb = Some b \<longrightarrow>
        reasoning_n d = Some (nullish_or (rb_predicted_n b) (JNumber (Finite 0))) \<and>
        reasoning_ms d = roundMs pf (Some (nullish_or (rb_predicted_ms b) (JNumber (Finite 0)))) \<and>
        (\<not> is_number (t_predicted_n lt) \<longrightarrow> content_n d = None) \<and>
        (\<not> is_number (t_predicted_ms lt) \<longrightarrow> content_ms d = None) \<and>
        (\<forall>t r. t_predicted_n lt = Some (JNumber (Finite t)) \<and>
               reasoning_n d = Some (JNumber (Finite r)) \<and>
               rounded pf (t - r) = Finite (t - r) \<longrightarrow>
               content_n d = Some (JNumber (Finite (max 0 (t - r))))) \<and>
        (\<forall>t r. t_predicted_ms lt = Some (JNumber (Finite t)) \<and>
               nullish_or (rb_predicted_ms b) (JNumber (Finite 0)) = JNumber (Finite r) \<longrightarrow>
               content_ms d = roundMs pf (Some (JNumber (math_max0 (rounded pf (t - r)))))) \<and>
        (\<forall>v. content_n d = Some v \<longrightarrow> (\<exists>n. v = JNumber n \<and> (n = NaN \<or> not_negative n))) \<and>
        ((\<forall>x. 0 \<le> x \<longrightarrow> 0 \<le> fl pf x) \<longrightarrow>
           (\<forall>v. content_ms d = Some v \<longrightarrow> (\<exists>n. v = JNumber n \<and> not_negative n))))"

subsection \<open>The stream as a sequence of events\<close>

text \<open>
  A view of the stream for stating what the parser does with it: the complete lines
  of the whole text (an unfinished last line is never processed), the event that each
  line stands for, and the loop over the events. The lemmas \<open>drain_events\<close> and
  \<open>read_loop_events\<close> below show that the loops of the code compute this.
\<close>

fun lines_from :: "string \<Rightarrow> string \<Rightarrow> string list" where
  "lines_from cur [] = []"
| "lines_from cur (c # cs) =
     (if c = CHR 0x0A then rev cur # lines_from [] cs else lines_from (c # cur) cs)"

definition complete_lines :: "string \<Rightarrow> string list" where
  "complete_lines text = lines_from [] text"

datatype sse_event = Done | Data chunk

definition event_of_line :: "(string \<Rightarrow> chunk option) \<Rightarrow> string \<Rightarrow> sse_event option" where
  "event_of_line decode raw =
     (let line = trimEnd raw in
      if \<not> startsWith line ''data:'' then None
      else
        (let data = trim (drop 5 line) in
         if data = [] then None
         else if data = ''[DONE]'' then Some Done
         else
           (case decode data of
              None \<Rightarrow> None
            | Some c \<Rightarrow> if ch_object c \<noteq> Some ''chat.completion.chunk'' then None else Some (Data c))))"

definition stream_events :: "(string \<Rightarrow> chunk option) \<Rightarrow> string list \<Rightarrow> sse_event list" where
  "stream_events decode reads = List.map_filter (event_of_line decode) (complete_lines (concat reads))"

fun step_event :: "clock \<Rightarrow> pstate \<Rightarrow> sse_event \<Rightarrow> bool \<times> pstate" where
  "step_event clk s Done = process_done clk s"
| "step_event clk s (Data c) = process_chunk clk s c"

fun run_events :: "clock \<Rightarrow> pstate \<Rightarrow> sse_event list \<Rightarrow> bool \<times> pstate" where
  "run_events clk s [] = (False, s)"
| "run_events clk s (e # es) =
     (case step_event clk s e of
        (True, s') \<Rightarrow> (True, s')
      | (False, s') \<Rightarrow> run_events clk s' es)"

text \<open>A chunk whose \<^verbatim>\<open>finish_reason\<close> is a non-empty string: the loop ends at it.\<close>

definition is_finish :: "chunk \<Rightarrow> bool" where
  "is_finish c = (case ch_finish_reason c of Some (JString f) \<Rightarrow> f \<noteq> [] | _ \<Rightarrow> False)"

text \<open>
  The events that the loop passes without ending: no chunk whose finish reason is a
  non-empty string, and no \<^verbatim>\<open>[DONE]\<close> after a chunk with timings. \<open>timed\<close> tells whether
  a chunk with timings came before the events.
\<close>

fun passes :: "bool \<Rightarrow> sse_event list \<Rightarrow> bool" where
  "passes timed [] = True"
| "passes timed (Done # es) = (\<not> timed \<and> passes timed es)"
| "passes timed (Data c # es) = (\<not> is_finish c \<and> passes (timed \<or> ch_timings c \<noteq> None) es)"

text \<open>The last chunk among the events that carries timings.\<close>

fun last_timed :: "sse_event list \<Rightarrow> chunk option" where
  "last_timed [] = None"
| "last_timed (Done # es) = last_timed es"
| "last_timed (Data c # es) =
     (case last_timed es of
        Some c' \<Rightarrow> Some c'
      | None \<Rightarrow> if ch_timings c \<noteq> None then Some c else None)"

text \<open>The chunks among the events.\<close>

fun chunks_of :: "sse_event list \<Rightarrow> chunk list" where
  "chunks_of [] = []"
| "chunks_of (Done # es) = chunks_of es"
| "chunks_of (Data c # es) = c # chunks_of es"

text \<open>No chunk among the events carries \<^verbatim>\<open>delta.reasoning_content\<close>.\<close>

definition no_reasoning :: "sse_event list \<Rightarrow> bool" where
  "no_reasoning evs = list_all (\<lambda>c. ch_delta_reasoning_content c = None) (chunks_of evs)"


text \<open>
  Invariants of the loop over the events of a stream: the last timed chunk is a chunk
  of the stream with timings; the reasoning boundary is that of a chunk of the stream
  with reasoning content and timings; and when the state holds the timings of a stop
  chunk, they are those of its stop chunk, a chunk of the stream, the stop finish reason
  is the finish reason of that chunk, \<^verbatim>\<open>done\<close> when it has none, and the stop mark is
  one of the two clock readings for it.
\<close>

definition timed_ok :: "sse_event list \<Rightarrow> pstate \<Rightarrow> bool" where
  "timed_ok evs s =
     (case lastTimedChunk s of
        None \<Rightarrow> True
      | Some c \<Rightarrow> c \<in> set (chunks_of evs) \<and> ch_timings c \<noteq> None)"

definition boundary_ok :: "sse_event list \<Rightarrow> pstate \<Rightarrow> bool" where
  "boundary_ok evs s =
     (case reasoningBoundary s of
        None \<Rightarrow> True
      | Some b \<Rightarrow>
          list_ex (\<lambda>c. ch_delta_reasoning_content c \<noteq> None \<and>
                        (case ch_timings c of
                           None \<Rightarrow> False
                         | Some t \<Rightarrow> b = \<lparr>rb_predicted_n = t_predicted_n t,
                                           rb_predicted_ms = t_predicted_ms t\<rparr>))
            (chunks_of evs))"

definition stop_ok :: "clock \<Rightarrow> sse_event list \<Rightarrow> pstate \<Rightarrow> bool" where
  "stop_ok clk evs s =
     (case lastTimingsAtStop s of
        None \<Rightarrow> True
      | Some lt \<Rightarrow>
          (case stopChunk s of
             None \<Rightarrow> False
           | Some c \<Rightarrow>
               c \<in> set (chunks_of evs) \<and> ch_timings c = Some lt \<and>
               stopFinishReason s = Some (nullish_or (ch_finish_reason c) (JString ''done'')) \<and>
               (stopChunkAtMs s = Some (now_stop_in_loop clk) \<or>
                stopChunkAtMs s = Some (now_stop_after_loop clk))))"

section \<open>Storing a record (background.js)\<close>

text \<open>
  \<^verbatim>\<open>assignChainMetadata\<close> awaits \<^verbatim>\<open>chrome.storage.local\<close> twice when the sender has a
  tab: to read the chain state of the tab, and to write it back after it has set the
  two chain fields of the record. Either call can reject; \<^verbatim>\<open>addRecord\<close> catches that
  and goes on with the record as it is then.
\<close>

datatype storage_fault = No_fault | Get_rejects | Set_rejects

text \<open>
  \<^verbatim>\<open>addRecord\<close>: \<open>sid\<close> is the active session id, \<open>now\<close> the reading of
  \<^verbatim>\<open>Date.now()\<close>, \<open>fault\<close> what \<^verbatim>\<open>chrome.storage.local\<close> does during the call of
  \<^verbatim>\<open>assignChainMetadata\<close>. The result is the new chain store and the record as it is
  put into the database.
\<close>

definition addRecord ::
  "string \<Rightarrow> jsnum \<Rightarrow> storage_fault \<Rightarrow> call_env \<Rightarrow> chain_store \<Rightarrow> completion \<Rightarrow> sender
     \<Rightarrow> chain_store \<times> completion" where
  "addRecord sid now fault env store r sndr =
     (let r1 = r\<lparr>session_id := Some sid\<rparr>;
          ts = (if truthy_num (captured_at_ms r1) then captured_at_ms r1 else Some now);
          r2 = r1\<lparr>captured_at_ms := ts\<rparr>;
          assigned = assignChainMetadata env store r2 sndr
      in if tab_id sndr = None then assigned
         else (case fault of
                 No_fault \<Rightarrow> assigned
               | Get_rejects \<Rightarrow> (store, r2)
               | Set_rejects \<Rightarrow> (store, snd assigned)))"

section \<open>Aggregation engine (background.js)\<close>

subsection \<open>Numeric helpers\<close>

text \<open>\<^verbatim>\<open>toFiniteNumber\<close>: the value when it is a finite number, \<^verbatim>\<open>null\<close> otherwise.\<close>

definition toFiniteNumber :: "jsval option \<Rightarrow> jsnum option" where
  "toFiniteNumber x = (case x of Some (JNumber (Finite v)) \<Rightarrow> Some v | _ \<Rightarrow> None)"

definition safePct :: "nat \<Rightarrow> nat \<Rightarrow> jsnum" where
  "safePct numerator denominator =
     (if denominator \<le> 0 then 0
      else (let raw = (of_nat numerator / of_nat denominator) * 100
            in max 0 (min 100 raw)))"

definition round2 :: "jsnum option \<Rightarrow> jsnum option" where
  "round2 x =
     (case toFiniteNumber (num_leaf x) of
        None \<Rightarrow> None
      | Some n \<Rightarrow> Some (math_round (n * 100) / 100))"

definition average :: "jsnum \<Rightarrow> nat \<Rightarrow> jsnum option" where
  "average sm cnt = (if cnt = 0 then None else Some (sm / of_nat cnt))"

text \<open>
  A running sum with its count, and the statement
  \<^verbatim>\<open>if (v !== null) { acc.xSum += v; acc.xCount += 1; }\<close>.
\<close>

type_synonym tally = "jsnum \<times> nat"

definition tally_add :: "jsval option \<Rightarrow> tally \<Rightarrow> tally" where
  "tally_add v t = (case toFiniteNumber v of None \<Rightarrow> t | Some x \<Rightarrow> (fst t + x, snd t + 1))"

definition tally_avg :: "tally \<Rightarrow> jsnum option" where
  "tally_avg t = round2 (average (fst t) (snd t))"

text \<open>\<^verbatim>\<open>if (at !== null) { if (last === null || at > last) last = at; }\<close>\<close>

definition later_of :: "jsnum option \<Rightarrow> jsnum option \<Rightarrow> jsnum option" where
  "later_of seen prev =
     (case seen of
        None \<Rightarrow> prev
      | Some a \<Rightarrow> (case prev of None \<Rightarrow> Some a | Some l \<Rightarrow> if a > l then Some a else Some l))"

definition bump_if :: "bool \<Rightarrow> nat \<Rightarrow> nat" where
  "bump_if b n = (if b then n + 1 else n)"

subsection \<open>Platform containers\<close>

text \<open>
  A \<^verbatim>\<open>Map\<close> keeps its keys in the order of their first insertion: an association list
  with distinct keys. \<open>upsert k init f\<close> is the idiom
  \<^verbatim>\<open>if (!m.has(k)) m.set(k, init); f(m.get(k))\<close>.
\<close>

fun upsert :: "'k \<Rightarrow> 'v \<Rightarrow> ('v \<Rightarrow> 'v) \<Rightarrow> ('k \<times> 'v) list \<Rightarrow> ('k \<times> 'v) list" where
  "upsert k init f [] = [(k, f init)]"
| "upsert k init f (e # al) =
     (if fst e = k then (fst e, f (snd e)) # al else e # upsert k init f al)"

text \<open>A \<^verbatim>\<open>Set\<close> keeps its members in the order of their first insertion.\<close>

definition set_add :: "'a \<Rightarrow> 'a list \<Rightarrow> 'a list" where
  "set_add x xs = (if x \<in> set xs then xs else xs @ [x])"

text \<open>
  \<^verbatim>\<open>Array.prototype.sort\<close> with a comparator is stable, and a comparator that orders
  the elements consistently leaves one result: that of the stable insertion sort.
  \<open>cmp a b \<le> 0\<close> keeps \<open>a\<close> before \<open>b\<close>.
\<close>

fun insort_cmp :: "('a \<Rightarrow> 'a \<Rightarrow> jsnum) \<Rightarrow> 'a \<Rightarrow> 'a list \<Rightarrow> 'a list" where
  "insort_cmp cmp x [] = [x]"
| "insort_cmp cmp x (y # ys) = (if cmp x y \<le> 0 then x # y # ys else y # insort_cmp cmp x ys)"

definition js_sort :: "('a \<Rightarrow> 'a \<Rightarrow> jsnum) \<Rightarrow> 'a list \<Rightarrow> 'a list" where
  "js_sort cmp xs = foldr (insort_cmp cmp) xs []"

text \<open>\<^verbatim>\<open>a - b\<close> on counters, as a comparator result.\<close>

definition nat_diff :: "nat \<Rightarrow> nat \<Rightarrow> jsnum" where
  "nat_diff a b = of_nat a - of_nat b"

text \<open>\<^verbatim>\<open>x || 0\<close> on a number.\<close>

definition num_or_zero :: "jsnum option \<Rightarrow> jsnum" where
  "num_or_zero x = (case x of None \<Rightarrow> 0 | Some n \<Rightarrow> n)"

text \<open>\<^verbatim>\<open>x || dflt\<close> on a string.\<close>

definition str_or :: "string option \<Rightarrow> string \<Rightarrow> string" where
  "str_or x dflt = (case x of None \<Rightarrow> dflt | Some s \<Rightarrow> if s = [] then dflt else s)"

text \<open>\<^verbatim>\<open>xs.join(sep)\<close>\<close>

fun join :: "string \<Rightarrow> string list \<Rightarrow> string" where
  "join sep [] = []"
| "join sep [x] = x"
| "join sep (x # y # ys) = x @ sep @ join sep (y # ys)"

subsection \<open>Reading a stored record\<close>

definition req_field :: "(req \<Rightarrow> 'a option) \<Rightarrow> completion \<Rightarrow> 'a option" where
  "req_field f r = (case rec_req r of None \<Rightarrow> None | Some q \<Rightarrow> f q)"

definition resp_field :: "(resp \<Rightarrow> 'a option) \<Rightarrow> completion \<Rightarrow> 'a option" where
  "resp_field f r = (case rec_resp r of None \<Rightarrow> None | Some p \<Rightarrow> f p)"

text \<open>\<^verbatim>\<open>r && r.resp && r.req\<close>; a \<^verbatim>\<open>null\<close> entry of the array is a record without
  \<^verbatim>\<open>req\<close> and \<^verbatim>\<open>resp\<close>.\<close>

definition is_clean :: "completion \<Rightarrow> bool" where
  "is_clean r = (rec_resp r \<noteq> None \<and> rec_req r \<noteq> None)"

text \<open>\<^verbatim>\<open>r?.req?.model || r?.resp?.model || "unknown"\<close>\<close>

definition model_of :: "completion \<Rightarrow> string" where
  "model_of r = str_or (or_str (req_field req_model r) (resp_field resp_model r)) ''unknown''"

definition label_of :: "(scenario_labels \<Rightarrow> string option) \<Rightarrow> completion \<Rightarrow> string option" where
  "label_of f r = req_field (\<lambda>q. f (req_scenario_labels q)) r"

definition timing_of :: "(timings \<Rightarrow> jsval option) \<Rightarrow> completion \<Rightarrow> jsval option" where
  "timing_of f r = resp_field (\<lambda>p. f (resp_timings p)) r"

definition derived_of :: "(derived \<Rightarrow> jsval option) \<Rightarrow> completion \<Rightarrow> jsval option" where
  "derived_of f r = resp_field (\<lambda>p. f (resp_derived p)) r"

definition client_timing_of :: "(client_timing \<Rightarrow> jsval option) \<Rightarrow> completion \<Rightarrow> jsval option" where
  "client_timing_of f r = resp_field (\<lambda>p. f (resp_client_timing p)) r"

definition guard_of :: "(guardrails \<Rightarrow> 'a option) \<Rightarrow> completion \<Rightarrow> 'a option" where
  "guard_of f r = resp_field (\<lambda>p. f (resp_guardrails p)) r"

subsection \<open>Summary aggregation\<close>

record summary_acc =
  sa_predictedTps :: tally
  sa_ttftMs :: tally
  sa_cacheN :: tally
  sa_docCount :: nat
  sa_imageCount :: nat
  sa_lastCompletionAtMs :: "jsnum option"

record model_acc =
  ma_model :: string
  ma_completions :: nat
  ma_promptN :: tally
  ma_predictedN :: tally
  ma_promptMs :: tally
  ma_predictedMs :: tally
  ma_promptTps :: tally
  ma_predictedTps :: tally
  ma_reasoningMs :: tally
  ma_contentMs :: tally
  ma_cacheN :: tally
  ma_docCount :: nat
  ma_imageCount :: nat
  ma_lastSeenAtMs :: "jsnum option"

definition init_summary_acc :: summary_acc where
  "init_summary_acc =
     \<lparr> sa_predictedTps = (0, 0), sa_ttftMs = (0, 0), sa_cacheN = (0, 0),
       sa_docCount = 0, sa_imageCount = 0, sa_lastCompletionAtMs = None \<rparr>"

definition init_model_acc :: "string \<Rightarrow> model_acc" where
  "init_model_acc model =
     \<lparr> ma_model = model, ma_completions = 0,
       ma_promptN = (0, 0), ma_predictedN = (0, 0), ma_promptMs = (0, 0),
       ma_predictedMs = (0, 0), ma_promptTps = (0, 0), ma_predictedTps = (0, 0),
       ma_reasoningMs = (0, 0), ma_contentMs = (0, 0), ma_cacheN = (0, 0),
       ma_docCount = 0, ma_imageCount = 0, ma_lastSeenAtMs = None \<rparr>"

text \<open>The statements of the loop body that update \<^verbatim>\<open>summaryAcc\<close>.\<close>

definition add_summary :: "completion \<Rightarrow> summary_acc \<Rightarrow> summary_acc" where
  "add_summary r a =
     a\<lparr> sa_lastCompletionAtMs := later_of (toFiniteNumber (num_leaf (captured_at_ms r))) (sa_lastCompletionAtMs a),
        sa_predictedTps := tally_add (timing_of predicted_tps r) (sa_predictedTps a),
        sa_ttftMs := tally_add (timing_of prompt_ms r) (sa_ttftMs a),
        sa_cacheN := tally_add (timing_of cache_n r) (sa_cacheN a),
        sa_docCount := bump_if (req_field has_document r = Some True) (sa_docCount a),
        sa_imageCount := bump_if (req_field has_images r = Some True) (sa_imageCount a) \<rparr>"

text \<open>The statements of the loop body that update the entry \<^verbatim>\<open>m\<close> of the record's model.\<close>

definition add_model :: "completion \<Rightarrow> model_acc \<Rightarrow> model_acc" where
  "add_model r m =
     m\<lparr> ma_completions := ma_completions m + 1,
        ma_promptN := tally_add (timing_of prompt_n r) (ma_promptN m),
        ma_predictedN := tally_add (timing_of predicted_n r) (ma_predictedN m),
        ma_promptMs := tally_add (timing_of prompt_ms r) (ma_promptMs m),
        ma_predictedMs := tally_add (timing_of predicted_ms r) (ma_predictedMs m),
        ma_promptTps := tally_add (timing_of prompt_tps r) (ma_promptTps m),
        ma_predictedTps := tally_add (timing_of predicted_tps r) (ma_predictedTps m),
        ma_reasoningMs := tally_add (derived_of reasoning_ms r) (ma_reasoningMs m),
        ma_contentMs := tally_add (derived_of content_ms r) (ma_contentMs m),
        ma_cacheN := tally_add (timing_of cache_n r) (ma_cacheN m),
        ma_docCount := bump_if (req_field has_document r = Some True) (ma_docCount m),
        ma_imageCount := bump_if (req_field has_images r = Some True) (ma_imageCount m),
        ma_lastSeenAtMs := later_of (toFiniteNumber (num_leaf (captured_at_ms r))) (ma_lastSeenAtMs m) \<rparr>"

definition dashboard_step ::
  "completion \<Rightarrow> summary_acc \<times> (string \<times> model_acc) list \<Rightarrow> summary_acc \<times> (string \<times> model_acc) list" where
  "dashboard_step r st =
     (add_summary r (fst st),
      upsert (model_of r) (init_model_acc (model_of r)) (add_model r) (snd st))"

record model_row =
  mr_model :: string
  mr_completions :: nat
  mr_avg_prompt_n :: "jsnum option"
  mr_avg_predicted_n :: "jsnum option"
  mr_avg_ttft_ms :: "jsnum option"
  mr_avg_predicted_ms :: "jsnum option"
  mr_avg_prompt_tps :: "jsnum option"
  mr_avg_predicted_tps :: "jsnum option"
  mr_avg_reasoning_ms :: "jsnum option"
  mr_avg_content_ms :: "jsnum option"
  mr_avg_cache_n :: "jsnum option"
  mr_doc_request_pct :: "jsnum option"
  mr_image_request_pct :: "jsnum option"
  mr_last_seen_at_ms :: "jsnum option"

definition model_row_of :: "model_acc \<Rightarrow> model_row" where
  "model_row_of m =
     \<lparr> mr_model = ma_model m,
       mr_completions = ma_completions m,
       mr_avg_prompt_n = tally_avg (ma_promptN m),
       mr_avg_predicted_n = tally_avg (ma_predictedN m),
       mr_avg_ttft_ms = tally_avg (ma_promptMs m),
       mr_avg_predicted_ms = tally_avg (ma_predictedMs m),
       mr_avg_prompt_tps = tally_avg (ma_promptTps m),
       mr_avg_predicted_tps = tally_avg (ma_predictedTps m),
       mr_avg_reasoning_ms = tally_avg (ma_reasoningMs m),
       mr_avg_content_ms = tally_avg (ma_contentMs m),
       mr_avg_cache_n = tally_avg (ma_cacheN m),
       mr_doc_request_pct = round2 (Some (safePct (ma_docCount m) (ma_completions m))),
       mr_image_request_pct = round2 (Some (safePct (ma_imageCount m) (ma_completions m))),
       mr_last_seen_at_ms = ma_lastSeenAtMs m \<rparr>"

text \<open>\<^verbatim>\<open>b.completions - a.completions || (b.avg_predicted_tps || 0) - (a.avg_predicted_tps || 0)\<close>\<close>

definition model_row_cmp :: "model_row \<Rightarrow> model_row \<Rightarrow> jsnum" where
  "model_row_cmp a b =
     (if nat_diff (mr_completions b) (mr_completions a) \<noteq> 0
      then nat_diff (mr_completions b) (mr_completions a)
      else num_or_zero (mr_avg_predicted_tps b) - num_or_zero (mr_avg_predicted_tps a))"

record summary =
  total_completions :: nat
  distinct_models :: nat
  sm_avg_predicted_tps :: "jsnum option"
  sm_avg_ttft_ms :: "jsnum option"
  sm_avg_cache_n :: "jsnum option"
  last_completion_at_ms :: "jsnum option"
  document_attached_requests_pct :: "jsnum option"
  image_attached_requests_pct :: "jsnum option"

record dashboard_stats =
  ds_summary :: summary
  ds_models :: "model_row list"

definition buildDashboardStats :: "completion list \<Rightarrow> dashboard_stats" where
  "buildDashboardStats records =
     (let cleanRecords = filter is_clean records;
          totalCompletions = length cleanRecords;
          acc = fold dashboard_step cleanRecords (init_summary_acc, []);
          summaryAcc = fst acc;
          perModel = snd acc;
          models = js_sort model_row_cmp (map (\<lambda>e. model_row_of (snd e)) perModel)
      in \<lparr> ds_summary =
             \<lparr> total_completions = totalCompletions,
               distinct_models = length models,
               sm_avg_predicted_tps = tally_avg (sa_predictedTps summaryAcc),
               sm_avg_ttft_ms = tally_avg (sa_ttftMs summaryAcc),
               sm_avg_cache_n = tally_avg (sa_cacheN summaryAcc),
               last_completion_at_ms = sa_lastCompletionAtMs summaryAcc,
               document_attached_requests_pct =
                 round2 (Some (safePct (sa_docCount summaryAcc) totalCompletions)),
               image_attached_requests_pct =
                 round2 (Some (safePct (sa_imageCount summaryAcc) totalCompletions)) \<rparr>,
           ds_models = models \<rparr>)"

subsection \<open>Scenario aggregation\<close>

record bucket_acc =
  ba_label :: string
  ba_count :: nat
  ba_predictedTps :: tally
  ba_ttftMs :: tally
  ba_predictedMs :: tally
  ba_requestToStopMs :: tally
  ba_reasoningMs :: tally
  ba_contentMs :: tally
  ba_outputTokens :: tally
  ba_outputChars :: tally
  ba_fileBytes :: tally
  ba_userTextBytes :: tally

definition initScenarioBucket :: "string \<Rightarrow> bucket_acc" where
  "initScenarioBucket label =
     \<lparr> ba_label = label, ba_count = 0,
       ba_predictedTps = (0, 0), ba_ttftMs = (0, 0), ba_predictedMs = (0, 0),
       ba_requestToStopMs = (0, 0), ba_reasoningMs = (0, 0), ba_contentMs = (0, 0),
       ba_outputTokens = (0, 0), ba_outputChars = (0, 0), ba_fileBytes = (0, 0),
       ba_userTextBytes = (0, 0) \<rparr>"

definition addScenarioRecord :: "completion \<Rightarrow> bucket_acc \<Rightarrow> bucket_acc" where
  "addScenarioRecord r acc =
     acc\<lparr> ba_count := ba_count acc + 1,
          ba_predictedTps := tally_add (timing_of predicted_tps r) (ba_predictedTps acc),
          ba_ttftMs := tally_add (timing_of prompt_ms r) (ba_ttftMs acc),
          ba_predictedMs := tally_add (timing_of predicted_ms r) (ba_predictedMs acc),
          ba_requestToStopMs :=
            tally_add (client_timing_of duration_request_to_stop_ms r) (ba_requestToStopMs acc),
          ba_reasoningMs := tally_add (derived_of reasoning_ms r) (ba_reasoningMs acc),
          ba_contentMs := tally_add (derived_of content_ms r) (ba_contentMs acc),
          ba_outputTokens := tally_add (guard_of output_tokens_estimate r) (ba_outputTokens acc),
          ba_outputChars := tally_add (guard_of output_chars_estimate r) (ba_outputChars acc),
          ba_fileBytes := tally_add (num_leaf (req_field ps_file_bytes_total r)) (ba_fileBytes acc),
          ba_userTextBytes := tally_add (num_leaf (req_field ps_current_user_text_bytes r)) (ba_userTextBytes acc) \<rparr>"

record scenario_row =
  sr_label :: string
  sr_count :: nat
  sr_avg_predicted_tps :: "jsnum option"
  sr_avg_ttft_ms :: "jsnum option"
  sr_avg_predicted_ms :: "jsnum option"
  sr_avg_request_to_stop_ms :: "jsnum option"
  sr_avg_reasoning_ms :: "jsnum option"
  sr_avg_content_ms :: "jsnum option"
  sr_avg_output_tokens :: "jsnum option"
  sr_avg_output_chars :: "jsnum option"
  sr_avg_file_bytes :: "jsnum option"
  sr_avg_user_text_bytes :: "jsnum option"

definition scenario_row_of :: "bucket_acc \<Rightarrow> scenario_row" where
  "scenario_row_of x =
     \<lparr> sr_label = ba_label x,
       sr_count = ba_count x,
       sr_avg_predicted_tps = tally_avg (ba_predictedTps x),
       sr_avg_ttft_ms = tally_avg (ba_ttftMs x),
       sr_avg_predicted_ms = tally_avg (ba_predictedMs x),
       sr_avg_request_to_stop_ms = tally_avg (ba_requestToStopMs x),
       sr_avg_reasoning_ms = tally_avg (ba_reasoningMs x),
       sr_avg_content_ms = tally_avg (ba_contentMs x),
       sr_avg_output_tokens = tally_avg (ba_outputTokens x),
       sr_avg_output_chars = tally_avg (ba_outputChars x),
       sr_avg_file_bytes = tally_avg (ba_fileBytes x),
       sr_avg_user_text_bytes = tally_avg (ba_userTextBytes x) \<rparr>"

text \<open>
  The comparator of \<^verbatim>\<open>finalizeScenarioBuckets\<close>; \<open>localeCompare\<close> is the platform's
  \<^verbatim>\<open>String.prototype.localeCompare\<close>.
\<close>

definition scenario_row_cmp ::
  "(string \<Rightarrow> string \<Rightarrow> jsnum) \<Rightarrow> bool \<Rightarrow> scenario_row \<Rightarrow> scenario_row \<Rightarrow> jsnum" where
  "scenario_row_cmp localeCompare sortByCount a b =
     (if sortByCount
      then (if nat_diff (sr_count b) (sr_count a) \<noteq> 0
            then nat_diff (sr_count b) (sr_count a)
            else num_or_zero (sr_avg_predicted_tps b) - num_or_zero (sr_avg_predicted_tps a))
      else localeCompare (str_or (Some (sr_label a)) []) (str_or (Some (sr_label b)) []))"

definition finalizeScenarioBuckets ::
  "(string \<Rightarrow> string \<Rightarrow> jsnum) \<Rightarrow> (string \<times> bucket_acc) list \<Rightarrow> bool \<Rightarrow> scenario_row list" where
  "finalizeScenarioBuckets localeCompare m sortByCount =
     js_sort (scenario_row_cmp localeCompare sortByCount) (map (\<lambda>e. scenario_row_of (snd e)) m)"

definition scenario_key :: "(completion \<Rightarrow> string) \<Rightarrow> completion \<Rightarrow> string" where
  "scenario_key keyFn r = str_or (Some (keyFn r)) ''unknown''"

definition groupScenario ::
  "(string \<Rightarrow> string \<Rightarrow> jsnum) \<Rightarrow> completion list \<Rightarrow> (completion \<Rightarrow> string) \<Rightarrow> bool \<Rightarrow> scenario_row list" where
  "groupScenario localeCompare records keyFn sortByCount =
     (let m = fold (\<lambda>r. upsert (scenario_key keyFn r) (initScenarioBucket (scenario_key keyFn r))
                           (addScenarioRecord r)) records []
      in finalizeScenarioBuckets localeCompare m sortByCount)"

text \<open>The nine key functions.\<close>

definition key_input_mode :: "completion \<Rightarrow> string" where
  "key_input_mode r = str_or (label_of input_mode r) ''unknown''"

definition key_file_size :: "completion \<Rightarrow> string" where
  "key_file_size r = str_or (label_of file_size_bucket r) ''unknown''"

definition key_file_kind :: "completion \<Rightarrow> string" where
  "key_file_kind r = str_or (label_of file_kind_set r) ''none''"

definition key_image_size :: "completion \<Rightarrow> string" where
  "key_image_size r = str_or (label_of image_size_bucket r) ''unknown''"

definition key_image_count :: "completion \<Rightarrow> string" where
  "key_image_count r =
     (case toFiniteNumber (num_leaf (req_field image_count r)) of
        None \<Rightarrow> ''unknown''
      | Some n \<Rightarrow>
          if n \<le> 0 then ''0''
          else if n = 1 then ''1''
          else if n = 2 then ''2''
          else if n \<le> 4 then ''3-4''
          else ''5+'')"

definition key_user_text_size :: "completion \<Rightarrow> string" where
  "key_user_text_size r = str_or (label_of current_user_text_size_bucket r) ''unknown''"

definition key_runtime_bucket :: "completion \<Rightarrow> string" where
  "key_runtime_bucket r = str_or (label_of runtime_bucket r) ''default_or_unknown''"

definition key_stop_reason :: "completion \<Rightarrow> string" where
  "key_stop_reason r = str_or (guard_of stop_reason_category r) ''unknown''"

definition key_output_length :: "completion \<Rightarrow> string" where
  "key_output_length r =
     (case toFiniteNumber (guard_of output_tokens_estimate r) of
        None \<Rightarrow> ''unknown''
      | Some n \<Rightarrow>
          if n \<le> 128 then ''0-128''
          else if n \<le> 512 then ''129-512''
          else if n \<le> 1024 then ''513-1024''
          else ''1025+'')"

record output_row = scenario_row +
  sr_avg_ms_per_1k_output_tokens :: "jsnum option"

definition with_ms_per_1k :: "scenario_row \<Rightarrow> output_row" where
  "with_ms_per_1k x =
     (let msPer1k =
            (case (sr_avg_predicted_ms x, sr_avg_output_tokens x) of
               (Some ms, Some tok) \<Rightarrow> if tok > 0 then Some ((ms / tok) * 1000) else None
             | _ \<Rightarrow> None)
      in scenario_row.extend x \<lparr>sr_avg_ms_per_1k_output_tokens = round2 msPer1k\<rparr>)"

record fv_row =
  fv_captured_at_ms :: "jsnum option"
  fv_input_mode :: string
  fv_file_kind_set :: string
  fv_file_bytes_total :: "jsnum option"
  fv_current_user_text_bytes :: "jsnum option"
  fv_predicted_tps :: "jsnum option"
  fv_predicted_ms :: "jsnum option"
  fv_request_to_stop_ms :: "jsnum option"

definition fv_row_of :: "completion \<Rightarrow> fv_row" where
  "fv_row_of r =
     \<lparr> fv_captured_at_ms = or_num (captured_at_ms r) None,
       fv_input_mode = str_or (label_of input_mode r) ''unknown'',
       fv_file_kind_set = str_or (label_of file_kind_set r) ''none'',
       fv_file_bytes_total = toFiniteNumber (num_leaf (req_field ps_file_bytes_total r)),
       fv_current_user_text_bytes = toFiniteNumber (num_leaf (req_field ps_current_user_text_bytes r)),
       fv_predicted_tps = toFiniteNumber (timing_of predicted_tps r),
       fv_predicted_ms = toFiniteNumber (timing_of predicted_ms r),
       fv_request_to_stop_ms = toFiniteNumber (client_timing_of duration_request_to_stop_ms r) \<rparr>"

definition fv_cmp :: "fv_row \<Rightarrow> fv_row \<Rightarrow> jsnum" where
  "fv_cmp a b = num_or_zero (fv_file_bytes_total b) - num_or_zero (fv_file_bytes_total a)"

text \<open>The table before \<^verbatim>\<open>.slice(0, 50)\<close>.\<close>

definition file_vs_text_sorted :: "completion list \<Rightarrow> fv_row list" where
  "file_vs_text_sorted modelRecords =
     js_sort fv_cmp
       (filter (\<lambda>x. fv_file_bytes_total x \<noteq> None \<or> fv_current_user_text_bytes x \<noteq> None)
          (map fv_row_of modelRecords))"

record hash_acc =
  ha_hash :: string
  ha_count :: nat
  ha_inputModes :: "string list"
  ha_predTps :: tally

definition init_hash_acc :: "string \<Rightarrow> hash_acc" where
  "init_hash_acc h = \<lparr> ha_hash = h, ha_count = 0, ha_inputModes = [], ha_predTps = (0, 0) \<rparr>"

definition add_hash :: "completion \<Rightarrow> hash_acc \<Rightarrow> hash_acc" where
  "add_hash r h =
     h\<lparr> ha_count := ha_count h + 1,
        ha_inputModes := set_add (str_or (label_of input_mode r) ''unknown'') (ha_inputModes h),
        ha_predTps := tally_add (timing_of predicted_tps r) (ha_predTps h) \<rparr>"

definition hash_step :: "completion \<Rightarrow> (string \<times> hash_acc) list \<Rightarrow> (string \<times> hash_acc) list" where
  "hash_step r m =
     (let hash = or_str (req_field prompt_hash r) None in
      case hash of
        None \<Rightarrow> m
      | Some h \<Rightarrow> upsert h (init_hash_acc h) (add_hash r) m)"

record hash_row =
  prompt_hash_prefix :: string
  requests :: nat
  scenario_count :: nat
  scenarios :: string
  hr_avg_predicted_tps :: "jsnum option"

definition hash_row_of :: "hash_acc \<Rightarrow> hash_row" where
  "hash_row_of x =
     \<lparr> prompt_hash_prefix = take 12 (ha_hash x),
       requests = ha_count x,
       scenario_count = length (ha_inputModes x),
       scenarios = join '', '' (sort (ha_inputModes x)),
       hr_avg_predicted_tps = tally_avg (ha_predTps x) \<rparr>"

definition hash_row_cmp :: "hash_row \<Rightarrow> hash_row \<Rightarrow> jsnum" where
  "hash_row_cmp a b = nat_diff (requests b) (requests a)"

text \<open>The groups of the prompt-hash map that span more than one input mode.\<close>

definition prompt_hash_groups :: "completion list \<Rightarrow> hash_acc list" where
  "prompt_hash_groups modelRecords =
     filter (\<lambda>x. length (ha_inputModes x) > 1) (map snd (fold hash_step modelRecords []))"

text \<open>The table before \<^verbatim>\<open>.slice(0, 30)\<close>.\<close>

definition prompt_hash_sorted :: "completion list \<Rightarrow> hash_row list" where
  "prompt_hash_sorted modelRecords =
     js_sort hash_row_cmp (map hash_row_of (prompt_hash_groups modelRecords))"

record model_option =
  mo_model :: string
  mo_count :: nat

definition model_option_cmp :: "(string \<Rightarrow> string \<Rightarrow> jsnum) \<Rightarrow> model_option \<Rightarrow> model_option \<Rightarrow> jsnum" where
  "model_option_cmp localeCompare a b =
     (if nat_diff (mo_count b) (mo_count a) \<noteq> 0 then nat_diff (mo_count b) (mo_count a)
      else localeCompare (mo_model a) (mo_model b))"

definition count_models :: "completion list \<Rightarrow> (string \<times> nat) list" where
  "count_models clean = fold (\<lambda>r. upsert (model_of r) 0 (\<lambda>c. c + 1)) clean []"

definition model_options_of :: "(string \<Rightarrow> string \<Rightarrow> jsnum) \<Rightarrow> (string \<times> nat) list \<Rightarrow> model_option list" where
  "model_options_of localeCompare modelCounts =
     js_sort (model_option_cmp localeCompare)
       (map (\<lambda>e. \<lparr>mo_model = fst e, mo_count = snd e\<rparr>) modelCounts)"

definition effective_model ::
  "string option \<Rightarrow> (string \<times> nat) list \<Rightarrow> model_option list \<Rightarrow> string option" where
  "effective_model selectedModel modelCounts modelOptions =
     (if truthy_str selectedModel \<and> selectedModel \<in> Some ` fst ` set modelCounts
      then selectedModel
      else (case modelOptions of
              [] \<Rightarrow> None
            | opt # _ \<Rightarrow> or_str (Some (mo_model opt)) None))"

record breakdowns =
  bd_input_mode :: "scenario_row list"
  bd_file_size_bucket :: "scenario_row list"
  bd_file_kind_set :: "scenario_row list"
  bd_image_size_bucket :: "scenario_row list"
  bd_image_count_bucket :: "scenario_row list"
  bd_current_user_text_size_bucket :: "scenario_row list"
  bd_runtime_bucket :: "scenario_row list"
  bd_stop_reason_category :: "scenario_row list"
  bd_output_length_bucket :: "output_row list"

record scenario_comparison =
  selected_model :: "string option"
  model_options :: "model_option list"
  selected_model_record_count :: nat
  sc_breakdowns :: breakdowns
  file_vs_text :: "fv_row list"
  prompt_hash_controls :: "hash_row list"

definition model_records :: "string option \<Rightarrow> completion list \<Rightarrow> completion list" where
  "model_records effectiveModel clean =
     (if truthy_str effectiveModel
      then filter (\<lambda>r. Some (model_of r) = effectiveModel) clean
      else [])"

definition buildScenarioComparisons ::
  "(string \<Rightarrow> string \<Rightarrow> jsnum) \<Rightarrow> completion list \<Rightarrow> string option \<Rightarrow> scenario_comparison" where
  "buildScenarioComparisons localeCompare records selectedModel =
     (let clean = filter is_clean records;
          modelCounts = count_models clean;
          modelOptions = model_options_of localeCompare modelCounts;
          effectiveModel = effective_model selectedModel modelCounts modelOptions;
          modelRecords = model_records effectiveModel clean
      in \<lparr> selected_model = effectiveModel,
           model_options = modelOptions,
           selected_model_record_count = length modelRecords,
           sc_breakdowns =
             \<lparr> bd_input_mode = groupScenario localeCompare modelRecords key_input_mode True,
               bd_file_size_bucket = groupScenario localeCompare modelRecords key_file_size False,
               bd_file_kind_set = groupScenario localeCompare modelRecords key_file_kind True,
               bd_image_size_bucket = groupScenario localeCompare modelRecords key_image_size False,
               bd_image_count_bucket = groupScenario localeCompare modelRecords key_image_count False,
               bd_current_user_text_size_bucket =
                 groupScenario localeCompare modelRecords key_user_text_size False,
               bd_runtime_bucket = groupScenario localeCompare modelRecords key_runtime_bucket True,
               bd_stop_reason_category = groupScenario localeCompare modelRecords key_stop_reason True,
               bd_output_length_bucket =
                 map with_ms_per_1k (groupScenario localeCompare modelRecords key_output_length False) \<rparr>,
           file_vs_text = take 50 (file_vs_text_sorted modelRecords),
           prompt_hash_controls = take 30 (prompt_hash_sorted modelRecords) \<rparr>)"


section \<open>Example inputs\<close>

definition no_labels :: scenario_labels where
  "no_labels =
     \<lparr> input_mode = None, current_user_text_size_bucket = None, file_size_bucket = None,
       image_size_bucket = None, file_kind_set = None, runtime_bucket = None \<rparr>"

text \<open>A request of \<open>u\<close> user and \<open>a\<close> assistant messages with prompt hash \<open>h\<close>.\<close>

definition example_req :: "string \<Rightarrow> jsnum \<Rightarrow> jsnum \<Rightarrow> string option \<Rightarrow> req" where
  "example_req m u a h =
     \<lparr> req_model = Some m, req_promptText = Some ''hello'', messages_count = Some (u + a),
       has_document = Some False, has_images = Some False,
       messages_by_role_count = Some \<lparr>rc_user = Some u, rc_assistant = Some a, rc_tool = None\<rparr>,
       image_count = Some 0, prompt_hash = h,
       ps_current_user_text_bytes = Some 5, ps_file_bytes_total = Some 0,
       req_scenario_labels = no_labels \<rparr>"

text \<open>A record as the page posts it, before the correlator has seen it.\<close>

definition example_record :: "jsnum \<Rightarrow> req \<Rightarrow> completion" where
  "example_record ts q =
     \<lparr> trace_id = Some ''t-1'', promptText = Some ''hello'', responseText = ''hi'',
       ReasoningText = None, captured_at_ms = Some ts,
       ui_origin = Some ''https://ui.example.com'', endpoint = Some ''/v1/chat/completions'',
       rec_req = Some q, rec_resp = None,
       session_id = None, chain_id = None, turn_number = None \<rparr>"

definition first_turn_record :: completion where
  "first_turn_record = example_record 1000000 (example_req ''model-a'' 1 0 (Some ''hash-a''))"

definition followup_record :: completion where
  "followup_record = example_record 1000000 (example_req ''model-a'' 2 1 (Some ''hash-b''))"

definition unhashed_record :: completion where
  "unhashed_record = example_record 1000000 (example_req ''model-a'' 1 0 None)"

definition tab_sender :: sender where
  "tab_sender = \<lparr> tab_id = Some 7, tab_origin = Some ''https://ui.example.com'' \<rparr>"

definition env_a :: call_env where
  "env_a = \<lparr> now_ms = 1000000, id_stamp = ''1000000'', id_suffix = ''aaaaaaaa'' \<rparr>"

definition env_b :: call_env where
  "env_b = \<lparr> now_ms = 1130000, id_stamp = ''1130000'', id_suffix = ''bbbbbbbb'' \<rparr>"

text \<open>The store after the first call, for each of the example records.\<close>

definition store_first :: chain_store where
  "store_first = fst (assignChainMetadata env_a Map.empty first_turn_record tab_sender)"

definition store_followup :: chain_store where
  "store_followup = fst (assignChainMetadata env_a Map.empty followup_record tab_sender)"

definition store_unhashed :: chain_store where
  "store_unhashed = fst (assignChainMetadata env_a Map.empty unhashed_record tab_sender)"


text \<open>
  An example platform: its arithmetic is exact on the numbers of the examples, and it
  converts no string to a number.
\<close>

definition example_platform :: platform where
  "example_platform = \<lparr> fl = (\<lambda>x. x), str_num = (\<lambda>s. NaN) \<rparr>"

text \<open>
  Example chunks: two with timings and reasoning content, one with timings and
  content, three with timings whose finish reason is the empty string, \<^verbatim>\<open>false\<close> and
  zero, two with timings and the finish reason \<^verbatim>\<open>stop\<close>, one with the finish reason
  \<^verbatim>\<open>stop\<close> and no timings. \<open>example_decode\<close> stands for \<^verbatim>\<open>JSON.parse\<close> on their
  payloads, which are abridged to a name in braces.
\<close>

definition example_timings :: "jsnum \<Rightarrow> jsnum \<Rightarrow> chunk_timings" where
  "example_timings n ms =
     \<lparr> t_cache_n = num_leaf (Some 0), t_prompt_n = num_leaf (Some 10),
       t_prompt_ms = num_leaf (Some 50),
       t_predicted_n = num_leaf (Some n), t_predicted_ms = num_leaf (Some ms),
       t_prompt_per_second = num_leaf (Some 200), t_predicted_per_second = num_leaf (Some 100) \<rparr>"

definition example_chunk ::
  "string option \<Rightarrow> string option \<Rightarrow> jsval option \<Rightarrow> chunk_timings option \<Rightarrow> chunk" where
  "example_chunk content reasoning finish tm =
     \<lparr> ch_object = Some ''chat.completion.chunk'', ch_id = Some ''cmpl-1'', ch_created = Some 1700000000,
       ch_model = Some ''model-a'', ch_system_fingerprint = None,
       ch_delta_content = content, ch_delta_reasoning_content = reasoning,
       ch_finish_reason = finish, ch_timings = tm \<rparr>"

definition chunk_think30 :: chunk where
  "chunk_think30 = example_chunk None (Some ''hm'') None (Some (example_timings 30 300))"

definition chunk_think50 :: chunk where
  "chunk_think50 = example_chunk None (Some ''hm'') None (Some (example_timings 50 500))"

definition chunk_text70 :: chunk where
  "chunk_text70 = example_chunk (Some ''hi'') None None (Some (example_timings 70 700))"

definition chunk_empty70 :: chunk where
  "chunk_empty70 = example_chunk (Some ''hi'') None (Some (JString [])) (Some (example_timings 70 700))"

definition chunk_false70 :: chunk where
  "chunk_false70 =
     example_chunk (Some ''hi'') None (Some (JBoolean False)) (Some (example_timings 70 700))"

definition chunk_zero70 :: chunk where
  "chunk_zero70 =
     example_chunk (Some ''hi'') None (Some (JNumber (Finite 0))) (Some (example_timings 70 700))"

definition chunk_stop100 :: chunk where
  "chunk_stop100 =
     example_chunk None None (Some (JString ''stop'')) (Some (example_timings 100 1000))"

definition chunk_stop30 :: chunk where
  "chunk_stop30 = example_chunk None None (Some (JString ''stop'')) (Some (example_timings 30 300))"

definition chunk_stop_untimed :: chunk where
  "chunk_stop_untimed = example_chunk None None (Some (JString ''stop'')) None"

definition example_decode :: "string \<Rightarrow> chunk option" where
  "example_decode payload =
     (if payload = ''{think30}'' then Some chunk_think30
      else if payload = ''{think50}'' then Some chunk_think50
      else if payload = ''{text70}'' then Some chunk_text70
      else if payload = ''{empty70}'' then Some chunk_empty70
      else if payload = ''{false70}'' then Some chunk_false70
      else if payload = ''{zero70}'' then Some chunk_zero70
      else if payload = ''{stop}'' then Some chunk_stop_untimed
      else if payload = ''{stop100}'' then Some chunk_stop100
      else if payload = ''{stop30}'' then Some chunk_stop30
      else None)"

text \<open>
  Example streams, each a list of reads. \<open>stop_reads\<close>: a reasoning chunk, the stop
  chunk (its line split over two reads) and \<^verbatim>\<open>[DONE]\<close>; \<open>cut_reads\<close>: the same stream
  cut right after the stop chunk. \<open>done_reads\<close>: a timed chunk, then \<^verbatim>\<open>[DONE]\<close>.
  \<open>eof_reads\<close>: a timed chunk, then the end of the stream. \<open>empty_finish_reads\<close>: a
  timed chunk whose finish reason is the empty string, then \<^verbatim>\<open>[DONE]\<close>;
  \<open>false_finish_reads\<close> and \<open>zero_finish_reads\<close>: the same with the finish reasons
  \<^verbatim>\<open>false\<close> and zero. \<open>regress_reads\<close>: a reasoning chunk at 50 predicted tokens, then
  a stop chunk at 30. \<open>untimed_stop_reads\<close>: a timed chunk, a chunk with the finish
  reason \<^verbatim>\<open>stop\<close> and no timings, then \<^verbatim>\<open>[DONE]\<close>. \<open>early_done_reads\<close>: \<^verbatim>\<open>[DONE]\<close> first,
  then the stop chunk. \<open>late_timed_reads\<close>: \<^verbatim>\<open>[DONE]\<close> first, then a timed chunk, then
  the end of the stream; \<open>late_stop_reads\<close>: the same with the untimed stop chunk
  before the end.
\<close>

definition stop_reads :: "string list" where
  "stop_reads = [''data: {think30}\<newline>\<newline>da'', ''ta: {stop100}\<newline>\<newline>data: [DONE]\<newline>'']"

definition cut_reads :: "string list" where
  "cut_reads = [''data: {think30}\<newline>\<newline>data: {stop100}\<newline>'']"

definition done_reads :: "string list" where
  "done_reads = [''data: {text70}\<newline>\<newline>'', ''data: [DONE]\<newline>\<newline>'']"

definition eof_reads :: "string list" where
  "eof_reads = [''data: {text70}\<newline>\<newline>'']"

definition empty_finish_reads :: "string list" where
  "empty_finish_reads = [''data: {empty70}\<newline>\<newline>data: [DONE]\<newline>'']"

definition false_finish_reads :: "string list" where
  "false_finish_reads = [''data: {false70}\<newline>\<newline>data: [DONE]\<newline>'']"

definition zero_finish_reads :: "string list" where
  "zero_finish_reads = [''data: {zero70}\<newline>\<newline>data: [DONE]\<newline>'']"

definition regress_reads :: "string list" where
  "regress_reads = [''data: {think50}\<newline>\<newline>data: {stop30}\<newline>\<newline>'']"

definition untimed_stop_reads :: "string list" where
  "untimed_stop_reads = [''data: {text70}\<newline>\<newline>data: {stop}\<newline>\<newline>data: [DONE]\<newline>'']"

definition early_done_reads :: "string list" where
  "early_done_reads = [''data: [DONE]\<newline>\<newline>data: {stop100}\<newline>'']"

definition late_timed_reads :: "string list" where
  "late_timed_reads = [''data: [DONE]\<newline>\<newline>data: {text70}\<newline>'']"

definition late_stop_reads :: "string list" where
  "late_stop_reads = [''data: [DONE]\<newline>\<newline>data: {text70}\<newline>\<newline>data: {stop}\<newline>'']"

definition example_clock :: clock where
  "example_clock =
     \<lparr> now_first_chunk = 1200, now_stop_in_loop = 2200, now_stop_after_loop = 2300,
       now_stop_default = 2400, now_captured = 2500 \<rparr>"

definition example_ctx :: parse_ctx where
  "example_ctx =
     \<lparr> px_trace_id = ''t-1'', px_origin = ''https://ui.example.com'',
       px_request_meta = Some (example_req ''model-a'' 1 0 (Some ''hash-a'')),
       px_timing = \<lparr> tc_request_start_ms = Some 1000, tc_response_headers_ms = Some 1100 \<rparr> \<rparr>"

text \<open>The same context without the mark of the request start.\<close>

definition headers_only_ctx :: parse_ctx where
  "headers_only_ctx =
     example_ctx\<lparr>px_timing := \<lparr> tc_request_start_ms = None, tc_response_headers_ms = Some 1100 \<rparr>\<rparr>"

text \<open>The token split of an emitted record, with the total it should add up to:
  \<^verbatim>\<open>derived.reasoning_n\<close>, \<^verbatim>\<open>derived.content_n\<close>, \<^verbatim>\<open>timings.predicted_n\<close>.\<close>

definition split_n :: "completion option \<Rightarrow> (jsval option \<times> jsval option \<times> jsval option) option" where
  "split_n r =
     (case r of
        None \<Rightarrow> None
      | Some rec \<Rightarrow>
          (case rec_resp rec of
             None \<Rightarrow> None
           | Some p \<Rightarrow>
               Some (reasoning_n (resp_derived p), content_n (resp_derived p),
                     predicted_n (resp_timings p))))"

text \<open>What \<^verbatim>\<open>addRecord\<close> stores for an emitted record, in a session named \<open>s-1\<close>, on
  the example tab with an empty chain store.\<close>

definition stored_of :: "storage_fault \<Rightarrow> completion option \<Rightarrow> completion option" where
  "stored_of fault r =
     (case r of
        None \<Rightarrow> None
      | Some rec \<Rightarrow> Some (snd (addRecord ''s-1'' 5000 fault env_a Map.empty rec tab_sender)))"

section \<open>Correlator\<close>

lemma toPositiveInt_idem: "toPositiveInt (toPositiveInt x) = toPositiveInt x"
  by (auto simp: toPositiveInt_def Let_def split: option.splits)

lemma signals_captured:
  "getConversationSignals (r\<lparr>captured_at_ms := t\<rparr>) = getConversationSignals r"
  by (simp add: getConversationSignals_def getCountsFromRecord_def)

lemma userCount_signals_fix:
  "toPositiveInt (userCount (getConversationSignals r)) = userCount (getConversationSignals r)"
  by (simp add: getConversationSignals_def Let_def toPositiveInt_idem)

lemma assign_store_state:
  assumes "tab_id sndr = Some t" "captured_at_ms r = Some t1"
  shows "\<exists>c n. fst (assignChainMetadata env store r sndr) t =
           Some \<lparr> st_chain_id = Some c, st_turn_number = Some n, st_last_seen_ms = Some t1,
                  st_last_user_count = userCount (getConversationSignals r),
                  st_last_messages_count = messagesCount (getConversationSignals r),
                  st_last_prompt_hash = promptHash (getConversationSignals r),
                  st_ui_origin = (if truthy_str (uiOrigin (getConversationSignals r))
                                  then uiOrigin (getConversationSignals r) else None),
                  st_endpoint = (if truthy_str (sig_endpoint (getConversationSignals r))
                                 then sig_endpoint (getConversationSignals r) else None) \<rparr>"
  using assms
  by (simp add: assignChainMetadata_def Let_def setTabChainState_def)

lemma rotate_after_replay:
  assumes "st_last_seen_ms st = Some t1"
      and "st_last_user_count st = userCount (getConversationSignals r)"
      and "st_last_prompt_hash st = promptHash (getConversationSignals r)"
      and "st_ui_origin st = (if truthy_str (uiOrigin (getConversationSignals r))
                               then uiOrigin (getConversationSignals r) else None)"
  shows "shouldRotateChain (Some st) (getConversationSignals r) t2 sndr =
     (t2 - t1 > CHAIN_STATE_IDLE_RESET_MS \<or>
      (looksLikeFirstTurn (getConversationSignals r) \<and>
        \<not> (truthy_str (promptHash (getConversationSignals r)) \<and> t2 - t1 \<le> CHAIN_DUPLICATE_PROMPT_WINDOW_MS)))"
  using userCount_signals_fix[of r] assms
  by (auto simp: shouldRotateChain_def Let_def truthy_str_def split: option.splits)

text \<open>
  Claim C3, as the code has it. A record is replayed on the same tab: the second call
  sees the state that the first call stored and the same signals, \<open>t2 - t1\<close> later.
  A first-turn record replayed more than the duplicate window after the first call
  rotates; a first-turn record with a non-empty prompt hash replayed within the window
  does not rotate; a record that is not a first turn rotates exactly when the replay
  comes more than the idle threshold after the first call.
\<close>

theorem replay_rotation:
  assumes "tab_id sndr = Some t" and "captured_at_ms r = Some t1"
  shows "(looksLikeFirstTurn (getConversationSignals r) \<and> CHAIN_DUPLICATE_PROMPT_WINDOW_MS < t2 - t1
            \<longrightarrow> shouldRotateChain (fst (assignChainMetadata env store r sndr) t)
                  (getConversationSignals (r\<lparr>captured_at_ms := Some t2\<rparr>)) t2 sndr) \<and>
         (looksLikeFirstTurn (getConversationSignals r) \<and> truthy_str (promptHash (getConversationSignals r))
            \<and> t2 - t1 \<le> CHAIN_DUPLICATE_PROMPT_WINDOW_MS
            \<longrightarrow> \<not> shouldRotateChain (fst (assignChainMetadata env store r sndr) t)
                  (getConversationSignals (r\<lparr>captured_at_ms := Some t2\<rparr>)) t2 sndr) \<and>
         (\<not> looksLikeFirstTurn (getConversationSignals r)
            \<longrightarrow> shouldRotateChain (fst (assignChainMetadata env store r sndr) t)
                  (getConversationSignals (r\<lparr>captured_at_ms := Some t2\<rparr>)) t2 sndr
                = (CHAIN_STATE_IDLE_RESET_MS < t2 - t1))"
proof -
  obtain c n where st:
    "fst (assignChainMetadata env store r sndr) t =
           Some \<lparr> st_chain_id = Some c, st_turn_number = Some n, st_last_seen_ms = Some t1,
                  st_last_user_count = userCount (getConversationSignals r),
                  st_last_messages_count = messagesCount (getConversationSignals r),
                  st_last_prompt_hash = promptHash (getConversationSignals r),
                  st_ui_origin = (if truthy_str (uiOrigin (getConversationSignals r))
                                  then uiOrigin (getConversationSignals r) else None),
                  st_endpoint = (if truthy_str (sig_endpoint (getConversationSignals r))
                                 then sig_endpoint (getConversationSignals r) else None) \<rparr>"
    using assign_store_state[OF assms] by blast
  have w: "CHAIN_DUPLICATE_PROMPT_WINDOW_MS < CHAIN_STATE_IDLE_RESET_MS"
    by (simp add: CHAIN_DUPLICATE_PROMPT_WINDOW_MS_def CHAIN_STATE_IDLE_RESET_MS_def)
  show ?thesis
    unfolding st signals_captured
    by (subst rotate_after_replay[where ?t1.0 = t1], simp, simp, simp, simp)+
       (use w in auto)
qed

lemma ex_signals_first:
  "getConversationSignals first_turn_record =
     \<lparr> userCount = Some 1, assistantCount = 0, toolCount = 0, messagesCount = Some 1,
       promptHash = Some ''hash-a'', uiOrigin = Some ''https://ui.example.com'',
       sig_endpoint = Some ''/v1/chat/completions'' \<rparr>"
  by (simp add: first_turn_record_def example_record_def example_req_def getConversationSignals_def
      getCountsFromRecord_def toPositiveInt_def Let_def)

theorem replay_rotation_witness:
  "shouldRotateChain (store_first 7)
      (getConversationSignals (first_turn_record\<lparr>captured_at_ms := Some 1130000\<rparr>)) 1130000 tab_sender \<and>
   \<not> shouldRotateChain (store_first 7)
      (getConversationSignals (first_turn_record\<lparr>captured_at_ms := Some 1030000\<rparr>)) 1030000 tab_sender \<and>
   \<not> shouldRotateChain (store_followup 7)
      (getConversationSignals (followup_record\<lparr>captured_at_ms := Some 1130000\<rparr>)) 1130000 tab_sender"
proof -
  have t: "tab_id tab_sender = Some 7" by (simp add: tab_sender_def)
  have c1: "captured_at_ms first_turn_record = Some 1000000"
    by (simp add: first_turn_record_def example_record_def)
  have c2: "captured_at_ms followup_record = Some 1000000"
    by (simp add: followup_record_def example_record_def)
  have f1: "looksLikeFirstTurn (getConversationSignals first_turn_record)"
    by (simp add: ex_signals_first looksLikeFirstTurn_def)
  have h1: "truthy_str (promptHash (getConversationSignals first_turn_record))"
    by (simp add: ex_signals_first truthy_str_def)
  have f2: "\<not> looksLikeFirstTurn (getConversationSignals followup_record)"
    by (simp add: followup_record_def example_record_def example_req_def getConversationSignals_def
      getCountsFromRecord_def toPositiveInt_def Let_def looksLikeFirstTurn_def)
  show ?thesis
    using replay_rotation[OF t c1, of 1130000 env_a Map.empty]
          replay_rotation[OF t c1, of 1030000 env_a Map.empty]
          replay_rotation[OF t c2, of 1130000 env_a Map.empty] f1 h1 f2
    by (simp add: store_first_def store_followup_def
        CHAIN_DUPLICATE_PROMPT_WINDOW_MS_def CHAIN_STATE_IDLE_RESET_MS_def)
qed

text \<open>
  Claim C3 as stated fails for a record that is not a first turn (two user messages, one
  assistant message): replayed 130 seconds later, beyond the duplicate window of 120
  seconds, it continues the chain as turn 2.
\<close>

theorem replay_after_window_counterexample:
  "\<not> shouldRotateChain (store_followup 7)
      (getConversationSignals (followup_record\<lparr>captured_at_ms := Some 1130000\<rparr>)) 1130000 tab_sender \<and>
   turn_number (snd (assignChainMetadata env_b store_followup
      (followup_record\<lparr>captured_at_ms := Some 1130000\<rparr>) tab_sender)) = Some 2"
  by (simp add: store_followup_def followup_record_def example_record_def example_req_def
      no_labels_def tab_sender_def env_a_def env_b_def assignChainMetadata_def Let_def
      getConversationSignals_def getCountsFromRecord_def toPositiveInt_def
      getTabChainState_def setTabChainState_def shouldRotateChain_def looksLikeFirstTurn_def
      truthy_str_def makeChainId_def CHAIN_DUPLICATE_PROMPT_WINDOW_MS_def CHAIN_STATE_IDLE_RESET_MS_def)


lemma assign_turn_cases:
  "\<exists>c. chain_id (snd (assignChainMetadata env S r sndr)) = Some c \<and> c \<noteq> []"
  by (auto simp: assignChainMetadata_def Let_def makeChainId_def truthy_str_def split: option.splits)





section \<open>Stream parser: the loop body\<close>

lemma absorb_frame:
  "stopChunk (absorb s c) = stopChunk s"
  "lastTimingsAtStop (absorb s c) = lastTimingsAtStop s"
  "stopFinishReason (absorb s c) = stopFinishReason s"
  "sawDoneMarker (absorb s c) = sawDoneMarker s"
  "stopChunkAtMs (absorb s c) = stopChunkAtMs s"
  "firstStreamChunkAtMs (absorb s c) = firstStreamChunkAtMs s"
  by (cases "ch_delta_reasoning_content c"; cases "ch_timings c"; simp add: absorb_def Let_def)+

lemma absorb_lastTimedChunk:
  "lastTimedChunk (absorb s c) = (if ch_timings c \<noteq> None then Some c else lastTimedChunk s)"
  by (cases "ch_delta_reasoning_content c"; cases "ch_timings c"; simp add: absorb_def Let_def)

lemma absorb_reasoningBoundary:
  "reasoningBoundary (absorb s c) =
     (case (ch_delta_reasoning_content c, ch_timings c) of
        (Some x, Some t) \<Rightarrow> Some \<lparr>rb_predicted_n = t_predicted_n t, rb_predicted_ms = t_predicted_ms t\<rparr>
      | _ \<Rightarrow> reasoningBoundary s)"
  by (cases "ch_delta_reasoning_content c"; cases "ch_timings c"; simp add: absorb_def Let_def)

lemma is_finish_cases:
  "is_finish c \<Longrightarrow> \<exists>f. ch_finish_reason c = Some (JString f) \<and> f \<noteq> []"
  by (auto simp: is_finish_def split: option.splits jsval.splits)

lemma process_chunk_finish:
  assumes "is_finish c"
  shows "process_chunk clk s c =
     (True, (absorb s c)\<lparr> stopChunk := Some c, lastTimingsAtStop := ch_timings c,
                          stopFinishReason := ch_finish_reason c,
                          stopChunkAtMs := Some (now_stop_in_loop clk) \<rparr>)"
proof -
  from is_finish_cases[OF assms] obtain f where "ch_finish_reason c = Some (JString f)" "f \<noteq> []"
    by blast
  then show ?thesis
    by (simp add: process_chunk_def Let_def)
qed

lemma process_chunk_pass:
  assumes "\<not> is_finish c"
  shows "process_chunk clk s c = (False, absorb s c)"
proof (cases "ch_finish_reason c")
  case None
  then show ?thesis by (simp add: process_chunk_def Let_def)
next
  case (Some v)
  with assms show ?thesis
    by (cases v) (simp_all add: process_chunk_def Let_def is_finish_def)
qed

lemma process_done_cases:
  "process_done clk s =
     (case lastTimedChunk s of
        Some c \<Rightarrow> if stopChunk s = None
                   then (True, promote (now_stop_in_loop clk) c (s\<lparr>sawDoneMarker := True\<rparr>))
                   else (False, s\<lparr>sawDoneMarker := True\<rparr>)
      | None \<Rightarrow> (False, s\<lparr>sawDoneMarker := True\<rparr>))"
  by (cases "lastTimedChunk s"; cases "stopChunk s") (simp_all add: process_done_def Let_def)

lemma promote_fields:
  "stopChunk (promote now c s) = Some c"
  "lastTimingsAtStop (promote now c s) = ch_timings c"
  "stopFinishReason (promote now c s) = Some (nullish_or (ch_finish_reason c) (JString ''done''))"
  "stopChunkAtMs (promote now c s) = Some now"
  "firstStreamChunkAtMs (promote now c s) = firstStreamChunkAtMs s"
  "reasoningBoundary (promote now c s) = reasoningBoundary s"
  "lastTimedChunk (promote now c s) = lastTimedChunk s"
  "sawDoneMarker (promote now c s) = sawDoneMarker s"
  by (simp_all add: promote_def)

section \<open>Stream parser: the loops compute the event view\<close>

lemma lines_from_no_newline: "CHR 0x0A \<notin> set buf \<Longrightarrow> lines_from cur buf = []"
  by (induction buf arbitrary: cur) auto

lemma lines_from_append_no_newline:
  "CHR 0x0A \<notin> set a \<Longrightarrow> lines_from cur (a @ b) = lines_from (rev a @ cur) b"
  by (induction a arbitrary: cur) auto

lemma lines_from_first_line:
  "CHR 0x0A \<notin> set l \<Longrightarrow> lines_from cur (l @ CHR 0x0A # rest) = (rev cur @ l) # lines_from [] rest"
  by (induction l arbitrary: cur) auto

lemma split_at_newline:
  assumes "CHR 0x0A \<in> set buf"
  shows "buf = takeWhile (\<lambda>c. c \<noteq> CHR 0x0A) buf @ CHR 0x0A # tl (dropWhile (\<lambda>c. c \<noteq> CHR 0x0A) buf)"
proof -
  have ne: "dropWhile (\<lambda>c. c \<noteq> CHR 0x0A) buf \<noteq> []"
    using assms by simp
  then have "hd (dropWhile (\<lambda>c. c \<noteq> CHR 0x0A) buf) = CHR 0x0A"
    using hd_dropWhile[of "\<lambda>c. c \<noteq> CHR 0x0A" buf] by simp
  with ne have "dropWhile (\<lambda>c. c \<noteq> CHR 0x0A) buf = CHR 0x0A # tl (dropWhile (\<lambda>c. c \<noteq> CHR 0x0A) buf)"
    by (cases "dropWhile (\<lambda>c. c \<noteq> CHR 0x0A) buf") simp_all
  then show ?thesis
    using takeWhile_dropWhile_id[of "\<lambda>c. c \<noteq> CHR 0x0A" buf] by simp
qed

lemma takeWhile_no_newline: "CHR 0x0A \<notin> set (takeWhile (\<lambda>c. c \<noteq> CHR 0x0A) buf)"
  using set_takeWhileD[of "CHR 0x0A" "\<lambda>c. c \<noteq> CHR 0x0A" buf] by blast

lemma complete_lines_step:
  assumes "CHR 0x0A \<in> set buf"
  shows "lines_from [] (buf @ tail) =
           takeWhile (\<lambda>c. c \<noteq> CHR 0x0A) buf #
           lines_from [] (tl (dropWhile (\<lambda>c. c \<noteq> CHR 0x0A) buf) @ tail)"
proof -
  let ?l = "takeWhile (\<lambda>c. c \<noteq> CHR 0x0A) buf"
  let ?r = "tl (dropWhile (\<lambda>c. c \<noteq> CHR 0x0A) buf)"
  have "buf @ tail = ?l @ CHR 0x0A # (?r @ tail)"
    using split_at_newline[OF assms] by (metis append_Cons append_assoc)
  then have "lines_from [] (buf @ tail) = lines_from [] (?l @ CHR 0x0A # (?r @ tail))"
    by (rule arg_cong)
  also have "\<dots> = (rev [] @ ?l) # lines_from [] (?r @ tail)"
    by (rule lines_from_first_line[OF takeWhile_no_newline])
  finally show ?thesis by simp
qed

lemma process_line_event:
  "process_line decode clk s (trimEnd raw) =
     (case event_of_line decode raw of None \<Rightarrow> (False, s) | Some e \<Rightarrow> step_event clk s e)"
  by (simp add: process_line_def event_of_line_def process_data_def Let_def split: option.splits)

lemma run_events_append:
  "run_events clk s (xs @ ys) =
     (case run_events clk s xs of (True, s') \<Rightarrow> (True, s') | (False, s') \<Rightarrow> run_events clk s' ys)"
  by (induction xs arbitrary: s) (auto split: prod.splits bool.splits)

lemma drain_events:
  "drain decode clk buf s = (brk, rest, s') \<Longrightarrow>
     run_events clk s (List.map_filter (event_of_line decode) (lines_from [] buf)) = (brk, s') \<and>
     (\<not> brk \<longrightarrow> CHR 0x0A \<notin> set rest \<and>
        (\<forall>tail. lines_from [] (buf @ tail) = lines_from [] buf @ lines_from (rev rest) tail))"
proof (induction decode clk buf s arbitrary: brk rest s' rule: drain.induct)
  case (1 decode clk buf s)
  show ?case
  proof (cases "CHR 0x0A \<in> set buf")
    case False
    with "1.prems" have r: "brk = False" "rest = buf" "s' = s"
      by (simp_all add: drain.simps[of decode clk buf s])
    from False show ?thesis
      by (simp add: r lines_from_no_newline lines_from_append_no_newline List.map_filter_simps)
  next
    case True
    let ?raw = "takeWhile (\<lambda>c. c \<noteq> CHR 0x0A) buf"
    let ?rest = "tl (dropWhile (\<lambda>c. c \<noteq> CHR 0x0A) buf)"
    have ls: "\<And>tail. lines_from [] (buf @ tail) = ?raw # lines_from [] (?rest @ tail)"
      by (rule complete_lines_step[OF True])
    have ls0: "lines_from [] buf = ?raw # lines_from [] ?rest"
      using ls[of "[]"] by simp
    obtain b1 s1 where p: "process_line decode clk s (trimEnd ?raw) = (b1, s1)"
      by (cases "process_line decode clk s (trimEnd ?raw)")
    show ?thesis
    proof (cases b1)
      case True
      with p "1.prems" \<open>CHR 0x0A \<in> set buf\<close> have r: "brk = True" "rest = ?rest" "s' = s1"
        by (simp_all add: drain.simps[of decode clk buf s] Let_def)
      from p True show ?thesis
        unfolding r ls0 process_line_event
        by (auto simp: List.map_filter_simps split: option.splits)
    next
      case False
      with p "1.prems" \<open>CHR 0x0A \<in> set buf\<close> have d: "drain decode clk ?rest s1 = (brk, rest, s')"
        by (simp add: drain.simps[of decode clk buf s] Let_def)
      have ih: "run_events clk s1 (List.map_filter (event_of_line decode) (lines_from [] ?rest)) = (brk, s') \<and>
         (\<not> brk \<longrightarrow> CHR 0x0A \<notin> set rest \<and>
            (\<forall>tail. lines_from [] (?rest @ tail) = lines_from [] ?rest @ lines_from (rev rest) tail))"
        using "1.IH"[OF _ refl refl p[symmetric] _ d] False \<open>CHR 0x0A \<in> set buf\<close> by simp
      from p False ih show ?thesis
        unfolding ls ls0 process_line_event
        by (auto simp: List.map_filter_simps split: option.splits)
    qed
  qed
qed


lemma lines_from_append_ex:
  "\<exists>cur'. \<forall>b. lines_from cur (a @ b) = lines_from cur a @ lines_from cur' b"
proof (induction a arbitrary: cur)
  case Nil
  show ?case by (rule exI[of _ cur]) simp
next
  case (Cons c a)
  show ?case
  proof (cases "c = CHR 0x0A")
    case True
    from Cons[of "[]"] obtain cur' where "\<forall>b. lines_from [] (a @ b) = lines_from [] a @ lines_from cur' b"
      by blast
    with True show ?thesis by (intro exI[of _ cur']) simp
  next
    case False
    from Cons[of "c # cur"] obtain cur' where
      "\<forall>b. lines_from (c # cur) (a @ b) = lines_from (c # cur) a @ lines_from cur' b"
      by blast
    with False show ?thesis by (intro exI[of _ cur']) simp
  qed
qed

lemma map_filter_append_events:
  "List.map_filter f (xs @ ys) = List.map_filter f xs @ List.map_filter f ys"
  by (simp add: List.map_filter_def)

lemma step_event_frame:
  "firstStreamChunkAtMs (snd (step_event clk s e)) = firstStreamChunkAtMs s \<and>
   (fst (step_event clk s e) \<longrightarrow> stopChunk (snd (step_event clk s e)) \<noteq> None) \<and>
   (\<not> fst (step_event clk s e) \<longrightarrow> stopChunk (snd (step_event clk s e)) = stopChunk s)"
proof (cases e)
  case Done
  then show ?thesis
    by (cases "lastTimedChunk s"; cases "stopChunk s")
       (simp_all add: process_done_cases promote_fields)
next
  case (Data c)
  then show ?thesis
    by (cases "is_finish c") (simp_all add: process_chunk_finish process_chunk_pass absorb_frame)
qed

lemma run_events_frame:
  "run_events clk s evs = (b, s') \<Longrightarrow>
     firstStreamChunkAtMs s' = firstStreamChunkAtMs s \<and>
     (b \<longrightarrow> stopChunk s' \<noteq> None) \<and> (\<not> b \<longrightarrow> stopChunk s' = stopChunk s)"
proof (induction evs arbitrary: s)
  case Nil
  then show ?case by simp
next
  case (Cons e evs)
  obtain b1 s1 where st: "step_event clk s e = (b1, s1)"
    by (cases "step_event clk s e")
  from step_event_frame[of clk s e] st have
    f: "firstStreamChunkAtMs s1 = firstStreamChunkAtMs s"
       "b1 \<longrightarrow> stopChunk s1 \<noteq> None" "\<not> b1 \<longrightarrow> stopChunk s1 = stopChunk s"
    by simp_all
  show ?case
  proof (cases b1)
    case True
    with Cons.prems st have "b = True" "s' = s1" by simp_all
    with f True show ?thesis by simp
  next
    case False
    with Cons.prems st have "run_events clk s1 evs = (b, s')" by simp
    from Cons.IH[OF this] f False show ?thesis by simp
  qed
qed

text \<open>How the stream ends for a state that the loop has left without a stop chunk.\<close>

lemma read_loop_events:
  assumes "CHR 0x0A \<notin> set buf" and "stopChunk s = None"
  shows "read_loop decode clk ending buf s reads =
     (if reads = [] then (case ending of Eof \<Rightarrow> Some s | Failed \<Rightarrow> None)
      else
        (case run_events clk
                (if firstStreamChunkAtMs s = None
                 then s\<lparr>firstStreamChunkAtMs := Some (now_first_chunk clk)\<rparr> else s)
                (List.map_filter (event_of_line decode) (lines_from (rev buf) (concat reads))) of
           (True, s') \<Rightarrow> Some s'
         | (False, s') \<Rightarrow> (case ending of Eof \<Rightarrow> Some s' | Failed \<Rightarrow> None)))"
  using assms
proof (induction reads arbitrary: buf s)
  case Nil
  show ?case by simp
next
  case (Cons v vs)
  define s1 where "s1 = (if firstStreamChunkAtMs s = None
             then s\<lparr>firstStreamChunkAtMs := Some (now_first_chunk clk)\<rparr> else s)"
  let ?ev = "List.map_filter (event_of_line decode)"
  let ?fin = "\<lambda>s'. case ending of Eof \<Rightarrow> Some s' | Failed \<Rightarrow> None"
  have s1: "stopChunk s1 = None" "firstStreamChunkAtMs s1 \<noteq> None"
    using Cons.prems by (auto simp: s1_def)
  obtain brk buf' s2 where d: "drain decode clk (buf @ v) s1 = (brk, buf', s2)"
    by (cases "drain decode clk (buf @ v) s1")
  from drain_events[OF d] have
    e1: "run_events clk s1 (?ev (lines_from [] (buf @ v))) = (brk, s2)" and
    e2: "\<not> brk \<Longrightarrow> CHR 0x0A \<notin> set buf'" and
    e3: "\<not> brk \<Longrightarrow> lines_from [] ((buf @ v) @ tail) = lines_from [] (buf @ v) @ lines_from (rev buf') tail"
    for tail
    by blast+
  from run_events_frame[OF e1] s1 have
    f: "firstStreamChunkAtMs s2 \<noteq> None" "brk \<longrightarrow> stopChunk s2 \<noteq> None" "\<not> brk \<longrightarrow> stopChunk s2 = None"
    by simp_all
  have whole: "lines_from (rev buf) (concat (v # vs)) = lines_from [] ((buf @ v) @ concat vs)"
    using lines_from_append_no_newline[OF Cons.prems(1), of "[]" "v @ concat vs"] by simp
  have rl: "read_loop decode clk ending buf s (v # vs) =
      (if stopChunk s2 \<noteq> None then Some s2 else read_loop decode clk ending buf' s2 vs)"
    using d by (simp add: Let_def s1_def)
  have goal: "read_loop decode clk ending buf s (v # vs) =
      (case run_events clk s1 (?ev (lines_from (rev buf) (concat (v # vs)))) of
           (True, s') \<Rightarrow> Some s'
         | (False, s') \<Rightarrow> ?fin s')"
  proof (cases brk)
    case True
    obtain cur' where "\<forall>b. lines_from [] ((buf @ v) @ b) = lines_from [] (buf @ v) @ lines_from cur' b"
      using lines_from_append_ex[of "[]" "buf @ v"] by blast
    then have l: "lines_from (rev buf) (concat (v # vs)) = lines_from [] (buf @ v) @ lines_from cur' (concat vs)"
      unfolding whole by blast
    have "run_events clk s1 (?ev (lines_from (rev buf) (concat (v # vs)))) = (True, s2)"
      unfolding l map_filter_append_events run_events_append e1 using True by simp
    with rl f True show ?thesis by simp
  next
    case False
    have l: "lines_from (rev buf) (concat (v # vs)) = lines_from [] (buf @ v) @ lines_from (rev buf') (concat vs)"
      unfolding whole by (rule e3[OF False])
    have r: "run_events clk s1 (?ev (lines_from (rev buf) (concat (v # vs))))
         = run_events clk s2 (?ev (lines_from (rev buf') (concat vs)))"
      unfolding l map_filter_append_events run_events_append e1 using False by simp
    have ih: "read_loop decode clk ending buf' s2 vs =
       (if vs = [] then ?fin s2
        else (case run_events clk s2 (?ev (lines_from (rev buf') (concat vs))) of
           (True, s') \<Rightarrow> Some s'
         | (False, s') \<Rightarrow> ?fin s'))"
    proof -
      from f(1) obtain y where y: "firstStreamChunkAtMs s2 = Some y" by auto
      from f False have n: "stopChunk s2 = None" by simp
      show ?thesis
        using Cons.IH[OF e2[OF False] n] by (simp add: y)
    qed
    show ?thesis
    proof (cases "vs = []")
      case True
      have "run_events clk s2 (?ev (lines_from (rev buf') (concat vs))) = (False, s2)"
        using True by (simp add: List.map_filter_simps)
      with rl f False ih r True show ?thesis by simp
    next
      case vs: False
      with rl f False ih r show ?thesis by simp
    qed
  qed
  show ?case
    unfolding goal by (simp add: s1_def)
qed

text \<open>The function in terms of the events of the stream.\<close>

lemma parse_events:
  "parseSseCloneAndEmitRecord pf decode clk ctx True reads ending =
     (if reads = [] then (case ending of Eof \<Rightarrow> emit pf clk ctx init_pstate | Failed \<Rightarrow> None)
      else
        (case run_events clk (init_pstate\<lparr>firstStreamChunkAtMs := Some (now_first_chunk clk)\<rparr>)
                (stream_events decode reads) of
           (True, s) \<Rightarrow> emit pf clk ctx s
         | (False, s) \<Rightarrow> (case ending of Eof \<Rightarrow> emit pf clk ctx s | Failed \<Rightarrow> None)))"
proof -
  have i: "stopChunk init_pstate = None" "firstStreamChunkAtMs init_pstate = None"
    by (simp_all add: init_pstate_def)
  show ?thesis
    unfolding parseSseCloneAndEmitRecord_def stream_events_def complete_lines_def
    using read_loop_events[of "[]" init_pstate decode clk ending reads] i
    by (auto split: prod.splits bool.splits stream_end.splits)
qed

section \<open>Stream parser: where the loop ends\<close>

lemma last_timed_has_timings: "last_timed evs = Some c \<Longrightarrow> ch_timings c \<noteq> None"
  by (induction evs rule: last_timed.induct) (auto split: option.splits if_splits)

lemma last_timed_in_stream: "last_timed evs = Some c \<Longrightarrow> Data c \<in> set evs"
  by (induction evs rule: last_timed.induct) (auto split: option.splits if_splits)

lemma last_timed_Cons:
  "(case last_timed evs of Some c' \<Rightarrow> Some c'
    | None \<Rightarrow> (if ch_timings c \<noteq> None then Some c else prev)) =
   (case last_timed (Data c # evs) of Some c' \<Rightarrow> Some c' | None \<Rightarrow> prev)"
  by (cases "last_timed evs") simp_all

text \<open>The state after events that the loop passes.\<close>

lemma run_passes:
  assumes "passes (lastTimedChunk s \<noteq> None) evs" and "stopChunk s = None"
  shows "fst (run_events clk s evs) = False \<and>
         stopChunk (snd (run_events clk s evs)) = None \<and>
         lastTimingsAtStop (snd (run_events clk s evs)) = lastTimingsAtStop s \<and>
         stopFinishReason (snd (run_events clk s evs)) = stopFinishReason s \<and>
         stopChunkAtMs (snd (run_events clk s evs)) = stopChunkAtMs s \<and>
         sawDoneMarker (snd (run_events clk s evs)) = (sawDoneMarker s \<or> Done \<in> set evs) \<and>
         lastTimedChunk (snd (run_events clk s evs)) =
           (case last_timed evs of Some c \<Rightarrow> Some c | None \<Rightarrow> lastTimedChunk s)"
  using assms
proof (induction evs arbitrary: s)
  case Nil
  show ?case using Nil.prems by simp
next
  case (Cons e evs)
  show ?case
  proof (cases e)
    case Done
    from Cons.prems Done have n: "lastTimedChunk s = None"
      by simp
    with Cons.prems Done have rest: "passes False evs"
      by simp
    define s1 where "s1 = s\<lparr>sawDoneMarker := True\<rparr>"
    have st: "step_event clk s Done = (False, s1)"
      using n by (simp add: process_done_cases s1_def)
    have p1: "passes (lastTimedChunk s1 \<noteq> None) evs" "stopChunk s1 = None"
      using rest n Cons.prems(2) by (simp_all add: s1_def)
    note ih = Cons.IH[OF p1]
    have r: "run_events clk s (e # evs) = run_events clk s1 evs"
      using st Done by simp
    have f: "lastTimingsAtStop s1 = lastTimingsAtStop s" "stopFinishReason s1 = stopFinishReason s"
      "stopChunkAtMs s1 = stopChunkAtMs s" "sawDoneMarker s1 = True"
      "lastTimedChunk s1 = lastTimedChunk s"
      by (simp_all add: s1_def)
    show ?thesis
      unfolding r using ih unfolding f Done by simp
  next
    case (Data c)
    from Cons.prems Data have nf: "\<not> is_finish c"
      and rest: "passes (lastTimedChunk s \<noteq> None \<or> ch_timings c \<noteq> None) evs"
      by simp_all
    define s1 where "s1 = absorb s c"
    have st: "step_event clk s (Data c) = (False, s1)"
      using nf by (simp add: process_chunk_pass s1_def)
    have lt1: "lastTimedChunk s1 = (if ch_timings c \<noteq> None then Some c else lastTimedChunk s)"
      by (simp add: s1_def absorb_lastTimedChunk)
    have b: "(lastTimedChunk s1 \<noteq> None) = (lastTimedChunk s \<noteq> None \<or> ch_timings c \<noteq> None)"
      unfolding lt1 by (cases "ch_timings c") simp_all
    have p1: "passes (lastTimedChunk s1 \<noteq> None) evs" "stopChunk s1 = None"
      unfolding b using rest Cons.prems(2) by (simp_all add: s1_def absorb_frame)
    note ih = Cons.IH[OF p1]
    have r: "run_events clk s (Data c # evs) = run_events clk s1 evs"
      using st by simp
    have f: "lastTimingsAtStop s1 = lastTimingsAtStop s" "stopFinishReason s1 = stopFinishReason s"
      "stopChunkAtMs s1 = stopChunkAtMs s" "sawDoneMarker s1 = sawDoneMarker s"
      by (simp_all add: s1_def absorb_frame)
    have l: "(case last_timed evs of Some c' \<Rightarrow> Some c' | None \<Rightarrow> lastTimedChunk s1) =
             (case last_timed (Data c # evs) of Some c' \<Rightarrow> Some c' | None \<Rightarrow> lastTimedChunk s)"
      unfolding lt1 by (rule last_timed_Cons)
    have d: "(Done \<in> set (Data c # evs)) = (Done \<in> set evs)"
      by simp
    show ?thesis
      unfolding Data r d using ih unfolding f l .
  qed
qed

text \<open>Every stream either passes, or has a first event at which the loop ends: a chunk
  whose finish reason is a non-empty string, or a \<^verbatim>\<open>[DONE]\<close> after a chunk with timings.\<close>

lemma passes_last_timed:
  "passes timed evs \<Longrightarrow> Done \<in> set evs \<Longrightarrow> \<not> timed"
  by (induction timed evs rule: passes.induct) auto

lemma passes_split:
  "passes timed evs \<or>
   (\<exists>pre e post. evs = pre @ e # post \<and> passes timed pre \<and>
      ((e = Done \<and> (timed \<or> last_timed pre \<noteq> None)) \<or> (\<exists>c. e = Data c \<and> is_finish c)))"
proof (induction timed evs rule: passes.induct)
  case (1 timed)
  show ?case by simp
next
  case (2 timed es)
  show ?case
  proof (cases timed)
    case True
    have "Done # es = [] @ Done # es \<and> passes timed [] \<and> (Done = Done \<and> (timed \<or> last_timed [] \<noteq> None))"
      using True by simp
    then show ?thesis by blast
  next
    case False
    from 2 show ?thesis
    proof
      assume "passes timed es"
      with False show ?thesis by simp
    next
      assume "\<exists>pre e post. es = pre @ e # post \<and> passes timed pre \<and>
        ((e = Done \<and> (timed \<or> last_timed pre \<noteq> None)) \<or> (\<exists>c. e = Data c \<and> is_finish c))"
      then obtain pre e post where
        s: "es = pre @ e # post" "passes timed pre"
           "(e = Done \<and> (timed \<or> last_timed pre \<noteq> None)) \<or> (\<exists>c. e = Data c \<and> is_finish c)"
        by blast
      have "Done # es = (Done # pre) @ e # post \<and> passes timed (Done # pre) \<and>
            ((e = Done \<and> (timed \<or> last_timed (Done # pre) \<noteq> None)) \<or> (\<exists>c. e = Data c \<and> is_finish c))"
        using s False by simp
      then show ?thesis by blast
    qed
  qed
next
  case (3 timed c es)
  show ?case
  proof (cases "is_finish c")
    case True
    have "Data c # es = [] @ Data c # es \<and> passes timed [] \<and> (\<exists>c'. Data c = Data c' \<and> is_finish c')"
      using True by simp
    then show ?thesis by blast
  next
    case False
    from 3 show ?thesis
    proof
      assume "passes (timed \<or> ch_timings c \<noteq> None) es"
      with False show ?thesis by simp
    next
      assume "\<exists>pre e post. es = pre @ e # post \<and> passes (timed \<or> ch_timings c \<noteq> None) pre \<and>
        ((e = Done \<and> ((timed \<or> ch_timings c \<noteq> None) \<or> last_timed pre \<noteq> None)) \<or>
         (\<exists>c. e = Data c \<and> is_finish c))"
      then obtain pre e post where
        s: "es = pre @ e # post" "passes (timed \<or> ch_timings c \<noteq> None) pre"
           "(e = Done \<and> ((timed \<or> ch_timings c \<noteq> None) \<or> last_timed pre \<noteq> None)) \<or>
            (\<exists>c. e = Data c \<and> is_finish c)"
        by blast
      have lt: "(timed \<or> ch_timings c \<noteq> None) \<or> last_timed pre \<noteq> None \<Longrightarrow>
                timed \<or> last_timed (Data c # pre) \<noteq> None"
        by (cases "last_timed pre") auto
      have a: "Data c # es = (Data c # pre) @ e # post"
        using s(1) by simp
      have b: "passes timed (Data c # pre)"
        using s(2) False by simp
      have d: "(e = Done \<and> (timed \<or> last_timed (Data c # pre) \<noteq> None)) \<or>
               (\<exists>c. e = Data c \<and> is_finish c)"
        using s(3) lt by blast
      show ?thesis
        using a b d by blast
    qed
  qed
qed

section \<open>Stream parser: what is emitted\<close>

text \<open>The three ways the part after the loop can go.\<close>

lemma emit_stopped:
  assumes "stopChunk s = Some c" and "lastTimingsAtStop s = Some lt"
  shows "emit pf clk ctx s = Some (build_record pf clk ctx s lt)"
proof -
  have "promote_after_loop clk s = s"
    using assms by (cases "lastTimedChunk s") (simp_all add: promote_after_loop_def)
  then show ?thesis
    using assms by (simp add: emit_def)
qed

lemma emit_promoted:
  assumes "stopChunk s = None \<or> lastTimingsAtStop s = None"
      and "lastTimedChunk s = Some c" and "sawDoneMarker s" and "ch_timings c = Some lt"
  shows "emit pf clk ctx s =
           Some (build_record pf clk ctx (promote (now_stop_after_loop clk) c s) lt)"
proof -
  have "promote_after_loop clk s = promote (now_stop_after_loop clk) c s"
    using assms by (simp add: promote_after_loop_def)
  then show ?thesis
    using assms(4) by (simp add: emit_def promote_fields)
qed

lemma emit_dropped:
  assumes "stopChunk s = None \<or> lastTimingsAtStop s = None"
      and "lastTimedChunk s = None \<or> \<not> sawDoneMarker s"
  shows "emit pf clk ctx s = None"
proof -
  have p: "promote_after_loop clk s = s"
    using assms(2) by (cases "lastTimedChunk s") (auto simp: promote_after_loop_def)
  show ?thesis
    unfolding emit_def Let_def p
    using assms(1) by (cases "stopChunk s"; cases "lastTimingsAtStop s") simp_all
qed

text \<open>The \<^verbatim>\<open>resp\<close> block of the record.\<close>

lemma build_record_resp:
  "\<exists>p. rec_resp (build_record pf clk ctx s lt) = Some p \<and>
       resp_finish_reason p = Some (nullish_or (stopFinishReason s) (JString ''stop'')) \<and>
       resp_timings p = build_timings pf lt \<and>
       resp_derived p = build_derived pf (reasoningBoundary s) lt \<and>
       resp_phase_boundary p =
         (case reasoningBoundary s of
            None \<Rightarrow> None
          | Some b \<Rightarrow> Some \<lparr> reasoning_final_predicted_n = rb_predicted_n b,
                            reasoning_final_predicted_ms = roundMs pf (rb_predicted_ms b) \<rparr>) \<and>
       resp_client_timing p =
         build_client_timing pf (tc_request_start_ms (px_timing ctx))
           (tc_response_headers_ms (px_timing ctx)) (firstStreamChunkAtMs s)
           (case stopChunkAtMs s of Some t \<Rightarrow> Some t | None \<Rightarrow> Some (now_stop_default clk)) \<and>
       stop_reason_category (resp_guardrails p) =
         Some (categorizeFinishReason (Some (nullish_or (stopFinishReason s) (JString ''stop''))))"
  by (simp add: build_record_def Let_def)

lemma record_of_stopped:
  assumes "stopFinishReason s = Some f"
  shows "\<exists>p. rec_resp (build_record pf clk ctx s lt) = Some p \<and>
             resp_finish_reason p = Some f \<and> resp_timings p = build_timings pf lt"
  using assms by (simp add: build_record_def Let_def nullish_or_def)

text \<open>The function, for a stream whose loop ends at an event, and for one that the
  loop passes to its end.\<close>

lemma stream_events_Nil: "stream_events decode [] = []"
  by (simp add: stream_events_def complete_lines_def List.map_filter_simps)

lemma emit_init: "emit pf clk ctx init_pstate = None"
  by (rule emit_dropped) (simp_all add: init_pstate_def)

lemma parse_stops_at:
  assumes "stream_events decode reads = pre @ e # post"
      and "run_events clk (init_pstate\<lparr>firstStreamChunkAtMs := Some (now_first_chunk clk)\<rparr>) pre = (False, s1)"
      and "step_event clk s1 e = (True, s2)"
  shows "parseSseCloneAndEmitRecord pf decode clk ctx True reads ending = emit pf clk ctx s2"
proof -
  have ne: "reads \<noteq> []"
    using assms(1) stream_events_Nil[of decode] by auto
  have "run_events clk (init_pstate\<lparr>firstStreamChunkAtMs := Some (now_first_chunk clk)\<rparr>)
          (pre @ e # post) = (True, s2)"
    unfolding run_events_append assms(2) using assms(3) by simp
  then show ?thesis
    unfolding parse_events assms(1) using ne by simp
qed

lemma run_passes_init:
  assumes "passes False evs"
  shows "run_events clk (init_pstate\<lparr>firstStreamChunkAtMs := Some (now_first_chunk clk)\<rparr>) evs =
           (False, snd (run_events clk (init_pstate\<lparr>firstStreamChunkAtMs := Some (now_first_chunk clk)\<rparr>) evs))"
    and "stopChunk (snd (run_events clk (init_pstate\<lparr>firstStreamChunkAtMs := Some (now_first_chunk clk)\<rparr>) evs)) = None"
    and "sawDoneMarker (snd (run_events clk (init_pstate\<lparr>firstStreamChunkAtMs := Some (now_first_chunk clk)\<rparr>) evs))
           = (Done \<in> set evs)"
    and "lastTimedChunk (snd (run_events clk (init_pstate\<lparr>firstStreamChunkAtMs := Some (now_first_chunk clk)\<rparr>) evs))
           = last_timed evs"
proof -
  define s0 where "s0 = init_pstate\<lparr>firstStreamChunkAtMs := Some (now_first_chunk clk)\<rparr>"
  have i: "lastTimedChunk s0 = None" "stopChunk s0 = None" "sawDoneMarker s0 = False"
    by (simp_all add: s0_def init_pstate_def)
  have p: "passes (lastTimedChunk s0 \<noteq> None) evs"
    using assms i by simp
  note r = run_passes[OF p i(2), of clk]
  show "run_events clk (init_pstate\<lparr>firstStreamChunkAtMs := Some (now_first_chunk clk)\<rparr>) evs =
           (False, snd (run_events clk (init_pstate\<lparr>firstStreamChunkAtMs := Some (now_first_chunk clk)\<rparr>) evs))"
    using r unfolding s0_def by (simp add: prod_eq_iff)
  show "stopChunk (snd (run_events clk (init_pstate\<lparr>firstStreamChunkAtMs := Some (now_first_chunk clk)\<rparr>) evs)) = None"
    using r unfolding s0_def by simp
  show "sawDoneMarker (snd (run_events clk (init_pstate\<lparr>firstStreamChunkAtMs := Some (now_first_chunk clk)\<rparr>) evs))
           = (Done \<in> set evs)"
    using r i(3) unfolding s0_def by simp
  show "lastTimedChunk (snd (run_events clk (init_pstate\<lparr>firstStreamChunkAtMs := Some (now_first_chunk clk)\<rparr>) evs))
           = last_timed evs"
    using r i(1) unfolding s0_def by (cases "last_timed evs") simp_all
qed

lemma parse_passes:
  assumes "passes False (stream_events decode reads)"
  shows "parseSseCloneAndEmitRecord pf decode clk ctx True reads ending =
     (case ending of
        Failed \<Rightarrow> None
      | Eof \<Rightarrow> emit pf clk ctx
          (snd (run_events clk (init_pstate\<lparr>firstStreamChunkAtMs := Some (now_first_chunk clk)\<rparr>)
                  (stream_events decode reads))))"
proof (cases "reads = []")
  case True
  have "emit pf clk ctx (init_pstate\<lparr>firstStreamChunkAtMs := Some (now_first_chunk clk)\<rparr>) = None"
    by (rule emit_dropped) (simp_all add: init_pstate_def)
  then show ?thesis
    unfolding parse_events using True
    by (cases ending) (simp_all add: stream_events_Nil emit_init)
next
  case False
  note r = run_passes_init(1)[OF assms, of clk]
  show ?thesis
    unfolding parse_events using False
    by (subst r) (cases ending; simp)
qed

section \<open>Stream parser: the terminal chunk\<close>

text \<open>The loop ends at a chunk with a non-empty finish reason and timings.\<close>

lemma parse_terminal_chunk:
  assumes "passes False pre" and "is_finish c" and "ch_timings c = Some lt"
  shows "\<exists>rec p.
           (\<forall>reads ending post. stream_events decode reads = pre @ Data c # post \<longrightarrow>
              parseSseCloneAndEmitRecord pf decode clk ctx True reads ending = Some rec) \<and>
           rec_resp rec = Some p \<and> resp_finish_reason p = ch_finish_reason c \<and>
           resp_timings p = build_timings pf lt"
proof -
  define s0 where "s0 = init_pstate\<lparr>firstStreamChunkAtMs := Some (now_first_chunk clk)\<rparr>"
  define s1 where "s1 = snd (run_events clk s0 pre)"
  define s2 where "s2 = (absorb s1 c)\<lparr> stopChunk := Some c, lastTimingsAtStop := ch_timings c,
                          stopFinishReason := ch_finish_reason c,
                          stopChunkAtMs := Some (now_stop_in_loop clk) \<rparr>"
  have r: "run_events clk s0 pre = (False, s1)"
    using run_passes_init(1)[OF assms(1), of clk] by (simp add: s1_def s0_def)
  have p: "step_event clk s1 (Data c) = (True, s2)"
    by (simp add: process_chunk_finish[OF assms(2)] s2_def)
  from is_finish_cases[OF assms(2)] obtain f where fr: "ch_finish_reason c = Some (JString f)"
    by blast
  have st: "stopChunk s2 = Some c" "lastTimingsAtStop s2 = Some lt" "stopFinishReason s2 = Some (JString f)"
    by (simp_all add: s2_def assms(3) fr)
  have e: "emit pf clk ctx s2 = Some (build_record pf clk ctx s2 lt)"
    by (rule emit_stopped[OF st(1,2)])
  from record_of_stopped[OF st(3), of pf clk ctx lt] obtain q where
    q: "rec_resp (build_record pf clk ctx s2 lt) = Some q" "resp_finish_reason q = Some (JString f)"
       "resp_timings q = build_timings pf lt"
    by blast
  have a: "\<forall>reads ending post. stream_events decode reads = pre @ Data c # post \<longrightarrow>
          parseSseCloneAndEmitRecord pf decode clk ctx True reads ending = Some (build_record pf clk ctx s2 lt)"
  proof (intro allI impI)
    fix reads ending post
    assume ev: "stream_events decode reads = pre @ Data c # post"
    show "parseSseCloneAndEmitRecord pf decode clk ctx True reads ending = Some (build_record pf clk ctx s2 lt)"
      using parse_stops_at[OF ev r[unfolded s0_def] p, of pf ctx ending] e by simp
  qed
  show ?thesis
    by (rule exI[of _ "build_record pf clk ctx s2 lt"], rule exI[of _ q]) (simp add: a q fr)
qed

text \<open>The loop ends at a \<^verbatim>\<open>[DONE]\<close> that follows a chunk with timings.\<close>

lemma parse_done_fallback:
  assumes "passes False pre" and "last_timed pre = Some c"
  shows "\<exists>rec p lt. ch_timings c = Some lt \<and>
           (\<forall>reads ending post. stream_events decode reads = pre @ Done # post \<longrightarrow>
              parseSseCloneAndEmitRecord pf decode clk ctx True reads ending = Some rec) \<and>
           rec_resp rec = Some p \<and>
           resp_finish_reason p = Some (nullish_or (ch_finish_reason c) (JString ''done'')) \<and>
           resp_timings p = build_timings pf lt"
proof -
  define s0 where "s0 = init_pstate\<lparr>firstStreamChunkAtMs := Some (now_first_chunk clk)\<rparr>"
  define s1 where "s1 = snd (run_events clk s0 pre)"
  define s2 where "s2 = promote (now_stop_in_loop clk) c (s1\<lparr>sawDoneMarker := True\<rparr>)"
  from last_timed_has_timings[OF assms(2)] obtain lt where lt: "ch_timings c = Some lt"
    by auto
  have r: "run_events clk s0 pre = (False, s1)"
    using run_passes_init(1)[OF assms(1), of clk] by (simp add: s1_def s0_def)
  have g: "stopChunk s1 = None" "lastTimedChunk s1 = Some c"
    using run_passes_init(2,4)[OF assms(1), of clk] assms(2) by (simp_all add: s1_def s0_def)
  have p: "step_event clk s1 Done = (True, s2)"
    using g by (simp add: process_done_cases s2_def)
  have st: "stopChunk s2 = Some c" "lastTimingsAtStop s2 = Some lt"
    "stopFinishReason s2 = Some (nullish_or (ch_finish_reason c) (JString ''done''))"
    by (simp_all add: s2_def promote_fields lt)
  have e: "emit pf clk ctx s2 = Some (build_record pf clk ctx s2 lt)"
    by (rule emit_stopped[OF st(1,2)])
  from record_of_stopped[OF st(3), of pf clk ctx lt] obtain q where
    q: "rec_resp (build_record pf clk ctx s2 lt) = Some q"
       "resp_finish_reason q = Some (nullish_or (ch_finish_reason c) (JString ''done''))"
       "resp_timings q = build_timings pf lt"
    by blast
  have a: "\<forall>reads ending post. stream_events decode reads = pre @ Done # post \<longrightarrow>
          parseSseCloneAndEmitRecord pf decode clk ctx True reads ending = Some (build_record pf clk ctx s2 lt)"
  proof (intro allI impI)
    fix reads ending post
    assume ev: "stream_events decode reads = pre @ Done # post"
    show "parseSseCloneAndEmitRecord pf decode clk ctx True reads ending = Some (build_record pf clk ctx s2 lt)"
      using parse_stops_at[OF ev r[unfolded s0_def] p, of pf ctx ending] e by simp
  qed
  show ?thesis
    by (rule exI[of _ "build_record pf clk ctx s2 lt"], rule exI[of _ q], rule exI[of _ lt])
       (simp add: a q lt)
qed

text \<open>The loop ends at a chunk with a non-empty finish reason and no timings.\<close>

lemma untimed_stop_state:
  fixes clk :: clock and pre :: "sse_event list" and c :: chunk
  assumes "passes False pre" and "is_finish c" and "ch_timings c = None"
  defines "s2 \<equiv> (absorb (snd (run_events clk
                      (init_pstate\<lparr>firstStreamChunkAtMs := Some (now_first_chunk clk)\<rparr>) pre)) c)
                   \<lparr> stopChunk := Some c, lastTimingsAtStop := ch_timings c,
                     stopFinishReason := ch_finish_reason c,
                     stopChunkAtMs := Some (now_stop_in_loop clk) \<rparr>"
  shows "\<forall>reads ending post. stream_events decode reads = pre @ Data c # post \<longrightarrow>
           parseSseCloneAndEmitRecord pf decode clk ctx True reads ending = emit pf clk ctx s2"
    and "lastTimingsAtStop s2 = None" and "lastTimedChunk s2 = last_timed pre"
    and "sawDoneMarker s2 = (Done \<in> set pre)"
proof -
  define s0 where "s0 = init_pstate\<lparr>firstStreamChunkAtMs := Some (now_first_chunk clk)\<rparr>"
  define s1 where "s1 = snd (run_events clk s0 pre)"
  have s2: "s2 = (absorb s1 c)\<lparr> stopChunk := Some c, lastTimingsAtStop := ch_timings c,
                     stopFinishReason := ch_finish_reason c,
                     stopChunkAtMs := Some (now_stop_in_loop clk) \<rparr>"
    by (simp add: s2_def s1_def s0_def)
  have r: "run_events clk s0 pre = (False, s1)"
    using run_passes_init(1)[OF assms(1), of clk] by (simp add: s1_def s0_def)
  have g: "sawDoneMarker s1 = (Done \<in> set pre)" "lastTimedChunk s1 = last_timed pre"
    using run_passes_init(3,4)[OF assms(1), of clk] by (simp_all add: s1_def s0_def)
  have p: "step_event clk s1 (Data c) = (True, s2)"
    by (simp add: process_chunk_finish[OF assms(2)] s2)
  show "\<forall>reads ending post. stream_events decode reads = pre @ Data c # post \<longrightarrow>
           parseSseCloneAndEmitRecord pf decode clk ctx True reads ending = emit pf clk ctx s2"
  proof (intro allI impI)
    fix reads ending post
    assume ev: "stream_events decode reads = pre @ Data c # post"
    show "parseSseCloneAndEmitRecord pf decode clk ctx True reads ending = emit pf clk ctx s2"
      by (rule parse_stops_at[OF ev r[unfolded s0_def] p])
  qed
  show "lastTimingsAtStop s2 = None"
    by (simp add: s2 assms(3))
  show "lastTimedChunk s2 = last_timed pre"
    by (simp add: s2 absorb_lastTimedChunk assms(3) g)
  show "sawDoneMarker s2 = (Done \<in> set pre)"
    by (simp add: s2 absorb_frame g)
qed

lemma parse_untimed_stop_promoted:
  assumes "passes False pre" and "is_finish c" and "ch_timings c = None"
      and "Done \<in> set pre" and "last_timed pre = Some c'"
  shows "\<exists>rec p lt. ch_timings c' = Some lt \<and>
           (\<forall>reads ending post. stream_events decode reads = pre @ Data c # post \<longrightarrow>
              parseSseCloneAndEmitRecord pf decode clk ctx True reads ending = Some rec) \<and>
           rec_resp rec = Some p \<and>
           resp_finish_reason p = Some (nullish_or (ch_finish_reason c') (JString ''done'')) \<and>
           resp_timings p = build_timings pf lt"
proof -
  define s2 where "s2 = (absorb (snd (run_events clk
                      (init_pstate\<lparr>firstStreamChunkAtMs := Some (now_first_chunk clk)\<rparr>) pre)) c)
                   \<lparr> stopChunk := Some c, lastTimingsAtStop := ch_timings c,
                     stopFinishReason := ch_finish_reason c,
                     stopChunkAtMs := Some (now_stop_in_loop clk) \<rparr>"
  note u1 = untimed_stop_state(1)[OF assms(1,2,3), where clk=clk and decode=decode and pf=pf and ctx=ctx,
    folded s2_def]
  note u = untimed_stop_state(2,3,4)[OF assms(1,2,3), where clk=clk, folded s2_def]
  from last_timed_has_timings[OF assms(5)] obtain lt where lt: "ch_timings c' = Some lt"
    by auto
  define s3 where "s3 = promote (now_stop_after_loop clk) c' s2"
  have e: "emit pf clk ctx s2 = Some (build_record pf clk ctx s3 lt)"
    unfolding s3_def
    by (rule emit_promoted) (simp_all add: u assms(4,5) lt)
  have f: "stopFinishReason s3 = Some (nullish_or (ch_finish_reason c') (JString ''done''))"
    by (simp add: s3_def promote_fields)
  from record_of_stopped[OF f, of pf clk ctx lt] obtain q where
    q: "rec_resp (build_record pf clk ctx s3 lt) = Some q"
       "resp_finish_reason q = Some (nullish_or (ch_finish_reason c') (JString ''done''))"
       "resp_timings q = build_timings pf lt"
    by blast
  have a: "\<forall>reads ending post. stream_events decode reads = pre @ Data c # post \<longrightarrow>
      parseSseCloneAndEmitRecord pf decode clk ctx True reads ending = Some (build_record pf clk ctx s3 lt)"
    using u1 e by simp
  show ?thesis
    by (rule exI[of _ "build_record pf clk ctx s3 lt"], rule exI[of _ q], rule exI[of _ lt])
       (simp add: a q lt)
qed

lemma parse_untimed_stop_dropped:
  assumes "passes False pre" and "is_finish c" and "ch_timings c = None"
      and "Done \<notin> set pre \<or> last_timed pre = None"
  shows "\<forall>reads ending post. stream_events decode reads = pre @ Data c # post \<longrightarrow>
           parseSseCloneAndEmitRecord pf decode clk ctx True reads ending = None"
proof -
  define s2 where "s2 = (absorb (snd (run_events clk
                      (init_pstate\<lparr>firstStreamChunkAtMs := Some (now_first_chunk clk)\<rparr>) pre)) c)
                   \<lparr> stopChunk := Some c, lastTimingsAtStop := ch_timings c,
                     stopFinishReason := ch_finish_reason c,
                     stopChunkAtMs := Some (now_stop_in_loop clk) \<rparr>"
  note u1 = untimed_stop_state(1)[OF assms(1,2,3), where clk=clk and decode=decode and pf=pf and ctx=ctx,
    folded s2_def]
  note u = untimed_stop_state(2,3,4)[OF assms(1,2,3), where clk=clk, folded s2_def]
  have e: "emit pf clk ctx s2 = None"
    by (rule emit_dropped) (use u assms(4) in auto)
  show ?thesis
    using u1 e by simp
qed

text \<open>The loop passes the whole stream.\<close>

lemma parse_eof_promoted:
  assumes "passes False (stream_events decode reads)"
      and "Done \<in> set (stream_events decode reads)"
      and "last_timed (stream_events decode reads) = Some c"
  shows "\<exists>rec p lt. ch_timings c = Some lt \<and>
           parseSseCloneAndEmitRecord pf decode clk ctx True reads Eof = Some rec \<and>
           rec_resp rec = Some p \<and>
           resp_finish_reason p = Some (nullish_or (ch_finish_reason c) (JString ''done'')) \<and>
           resp_timings p = build_timings pf lt"
proof -
  define s1 where "s1 = snd (run_events clk
      (init_pstate\<lparr>firstStreamChunkAtMs := Some (now_first_chunk clk)\<rparr>) (stream_events decode reads))"
  note g = run_passes_init(2,3,4)[OF assms(1), of clk, folded s1_def]
  from last_timed_has_timings[OF assms(3)] obtain lt where lt: "ch_timings c = Some lt"
    by auto
  define s3 where "s3 = promote (now_stop_after_loop clk) c s1"
  have e: "emit pf clk ctx s1 = Some (build_record pf clk ctx s3 lt)"
    unfolding s3_def
    by (rule emit_promoted) (simp_all add: g assms(2,3) lt)
  have f: "stopFinishReason s3 = Some (nullish_or (ch_finish_reason c) (JString ''done''))"
    by (simp add: s3_def promote_fields)
  from record_of_stopped[OF f, of pf clk ctx lt] obtain q where
    q: "rec_resp (build_record pf clk ctx s3 lt) = Some q"
       "resp_finish_reason q = Some (nullish_or (ch_finish_reason c) (JString ''done''))"
       "resp_timings q = build_timings pf lt"
    by blast
  have a: "parseSseCloneAndEmitRecord pf decode clk ctx True reads Eof = Some (build_record pf clk ctx s3 lt)"
    unfolding parse_passes[OF assms(1)] using e by (simp add: s1_def)
  show ?thesis
    by (rule exI[of _ "build_record pf clk ctx s3 lt"], rule exI[of _ q], rule exI[of _ lt])
       (simp add: a q lt)
qed

lemma parse_eof_dropped:
  assumes "passes False (stream_events decode reads)"
      and "Done \<notin> set (stream_events decode reads) \<or> last_timed (stream_events decode reads) = None"
  shows "parseSseCloneAndEmitRecord pf decode clk ctx True reads Eof = None"
proof -
  define s1 where "s1 = snd (run_events clk
      (init_pstate\<lparr>firstStreamChunkAtMs := Some (now_first_chunk clk)\<rparr>) (stream_events decode reads))"
  note g = run_passes_init(2,3,4)[OF assms(1), of clk, folded s1_def]
  have e: "emit pf clk ctx s1 = None"
    by (rule emit_dropped) (use g assms(2) in auto)
  show ?thesis
    unfolding parse_passes[OF assms(1)] using e by (simp add: s1_def)
qed

lemma parse_failed:
  assumes "passes False (stream_events decode reads)"
  shows "parseSseCloneAndEmitRecord pf decode clk ctx True reads Failed = None"
  unfolding parse_passes[OF assms] by simp

subsection \<open>The example streams\<close>

lemma example_payloads:
  "event_of_line example_decode ''data: {think30}'' = Some (Data chunk_think30)"
  "event_of_line example_decode ''data: {think50}'' = Some (Data chunk_think50)"
  "event_of_line example_decode ''data: {text70}'' = Some (Data chunk_text70)"
  "event_of_line example_decode ''data: {empty70}'' = Some (Data chunk_empty70)"
  "event_of_line example_decode ''data: {false70}'' = Some (Data chunk_false70)"
  "event_of_line example_decode ''data: {zero70}'' = Some (Data chunk_zero70)"
  "event_of_line example_decode ''data: {stop100}'' = Some (Data chunk_stop100)"
  "event_of_line example_decode ''data: {stop30}'' = Some (Data chunk_stop30)"
  "event_of_line example_decode ''data: {stop}'' = Some (Data chunk_stop_untimed)"
  "event_of_line example_decode ''data: [DONE]'' = Some Done"
  "event_of_line example_decode [] = None"
  by (simp_all add: event_of_line_def trimEnd_def trimStart_def trim_def is_js_space_def startsWith_def
      example_decode_def Let_def chunk_think30_def chunk_think50_def chunk_text70_def
      chunk_empty70_def chunk_false70_def chunk_zero70_def chunk_stop100_def chunk_stop30_def
      chunk_stop_untimed_def example_chunk_def)

lemma example_events:
  "stream_events example_decode stop_reads = [Data chunk_think30, Data chunk_stop100, Done]"
  "stream_events example_decode cut_reads = [Data chunk_think30, Data chunk_stop100]"
  "stream_events example_decode done_reads = [Data chunk_text70, Done]"
  "stream_events example_decode eof_reads = [Data chunk_text70]"
  "stream_events example_decode empty_finish_reads = [Data chunk_empty70, Done]"
  "stream_events example_decode false_finish_reads = [Data chunk_false70, Done]"
  "stream_events example_decode zero_finish_reads = [Data chunk_zero70, Done]"
  "stream_events example_decode regress_reads = [Data chunk_think50, Data chunk_stop30]"
  "stream_events example_decode untimed_stop_reads = [Data chunk_text70, Data chunk_stop_untimed, Done]"
  "stream_events example_decode early_done_reads = [Done, Data chunk_stop100]"
  "stream_events example_decode late_timed_reads = [Done, Data chunk_text70]"
  "stream_events example_decode late_stop_reads = [Done, Data chunk_text70, Data chunk_stop_untimed]"
  by (simp_all add: stream_events_def complete_lines_def stop_reads_def cut_reads_def done_reads_def
      eof_reads_def empty_finish_reads_def false_finish_reads_def zero_finish_reads_def
      regress_reads_def untimed_stop_reads_def early_done_reads_def late_timed_reads_def
      late_stop_reads_def example_payloads List.map_filter_simps)

lemma example_chunk_fields:
  "ch_finish_reason chunk_think30 = None" "ch_timings chunk_think30 = Some (example_timings 30 300)"
  "ch_finish_reason chunk_think50 = None" "ch_timings chunk_think50 = Some (example_timings 50 500)"
  "ch_finish_reason chunk_text70 = None" "ch_timings chunk_text70 = Some (example_timings 70 700)"
  "ch_finish_reason chunk_empty70 = Some (JString [])"
  "ch_timings chunk_empty70 = Some (example_timings 70 700)"
  "ch_finish_reason chunk_false70 = Some (JBoolean False)"
  "ch_timings chunk_false70 = Some (example_timings 70 700)"
  "ch_finish_reason chunk_zero70 = Some (JNumber (Finite 0))"
  "ch_timings chunk_zero70 = Some (example_timings 70 700)"
  "ch_finish_reason chunk_stop100 = Some (JString ''stop'')"
  "ch_timings chunk_stop100 = Some (example_timings 100 1000)"
  "ch_finish_reason chunk_stop30 = Some (JString ''stop'')"
  "ch_timings chunk_stop30 = Some (example_timings 30 300)"
  "ch_finish_reason chunk_stop_untimed = Some (JString ''stop'')"
  "ch_timings chunk_stop_untimed = None"
  by (simp_all add: chunk_think30_def chunk_think50_def chunk_text70_def
      chunk_empty70_def chunk_false70_def chunk_zero70_def chunk_stop100_def chunk_stop30_def
      chunk_stop_untimed_def example_chunk_def)

lemma example_is_finish:
  "\<not> is_finish chunk_think30" "\<not> is_finish chunk_think50" "\<not> is_finish chunk_text70"
  "\<not> is_finish chunk_empty70" "\<not> is_finish chunk_false70" "\<not> is_finish chunk_zero70"
  "is_finish chunk_stop100" "is_finish chunk_stop30" "is_finish chunk_stop_untimed"
  by (simp_all add: is_finish_def example_chunk_fields)

lemma example_distinct:
  "chunk_text70 \<noteq> chunk_stop_untimed" "chunk_text70 \<noteq> chunk_stop100"
  by (simp_all add: chunk_text70_def chunk_stop_untimed_def chunk_stop100_def example_chunk_def)

text \<open>
  Claim C1, as the code has it. The loop ends at the first event that is a chunk whose
  finish reason is a non-empty string, or a \<^verbatim>\<open>[DONE]\<close> that follows a chunk with
  timings; \<open>pre\<close> stands for the events before it, which the loop passes. Nothing after
  that event is read: every stream that begins with \<open>pre\<close> and the event yields one and
  the same result, whatever follows and however the stream ends.
  \<^item> The event is a chunk \<open>c\<close> with a non-empty finish reason and timings: \<open>c\<close> is the
    terminal chunk, the record has the finish reason and the timings of \<open>c\<close>.
  \<^item> The event is \<^verbatim>\<open>[DONE]\<close>, and \<open>c\<close> is the last chunk with timings before it: \<open>c\<close> is
    the degraded terminal chunk, the record has the timings of \<open>c\<close> and its finish
    reason, \<^verbatim>\<open>done\<close> when it has none.
  \<^item> The event is a chunk with a non-empty finish reason and no timings: when a
    \<^verbatim>\<open>[DONE]\<close> and a chunk with timings came before it, the last chunk \<open>c'\<close> with timings
    is the degraded terminal chunk; otherwise nothing is emitted.
  \<^item> There is no such event and the stream ends: when the stream holds a \<^verbatim>\<open>[DONE]\<close> and a
    chunk with timings, the last chunk with timings is the degraded terminal chunk;
    otherwise nothing is emitted, whatever timings the chunks carried.
  \<^item> There is no such event and reading the stream fails: nothing is emitted.
  \<^item> Every sequence of events is of one of these kinds.
\<close>

theorem terminal_chunk_and_fallback:
  "(passes False pre \<and> is_finish c \<and> ch_timings c = Some lt \<longrightarrow>
      (\<exists>rec p.
         (\<forall>reads ending post. stream_events decode reads = pre @ Data c # post \<longrightarrow>
            parseSseCloneAndEmitRecord pf decode clk ctx True reads ending = Some rec) \<and>
         rec_resp rec = Some p \<and> resp_finish_reason p = ch_finish_reason c \<and>
         resp_timings p = build_timings pf lt)) \<and>
   (passes False pre \<and> last_timed pre = Some c \<longrightarrow>
      (\<exists>rec p lt'. ch_timings c = Some lt' \<and>
         (\<forall>reads ending post. stream_events decode reads = pre @ Done # post \<longrightarrow>
            parseSseCloneAndEmitRecord pf decode clk ctx True reads ending = Some rec) \<and>
         rec_resp rec = Some p \<and>
         resp_finish_reason p = Some (nullish_or (ch_finish_reason c) (JString ''done'')) \<and>
         resp_timings p = build_timings pf lt')) \<and>
   (passes False pre \<and> is_finish c \<and> ch_timings c = None \<and> Done \<in> set pre \<and>
    last_timed pre = Some c' \<longrightarrow>
      (\<exists>rec p lt'. ch_timings c' = Some lt' \<and>
         (\<forall>reads ending post. stream_events decode reads = pre @ Data c # post \<longrightarrow>
            parseSseCloneAndEmitRecord pf decode clk ctx True reads ending = Some rec) \<and>
         rec_resp rec = Some p \<and>
         resp_finish_reason p = Some (nullish_or (ch_finish_reason c') (JString ''done'')) \<and>
         resp_timings p = build_timings pf lt')) \<and>
   (passes False pre \<and> is_finish c \<and> ch_timings c = None \<and>
    (Done \<notin> set pre \<or> last_timed pre = None) \<longrightarrow>
      (\<forall>reads ending post. stream_events decode reads = pre @ Data c # post \<longrightarrow>
         parseSseCloneAndEmitRecord pf decode clk ctx True reads ending = None)) \<and>
   (passes False (stream_events decode reads) \<and> Done \<in> set (stream_events decode reads) \<and>
    last_timed (stream_events decode reads) = Some c \<longrightarrow>
      (\<exists>rec p lt'. ch_timings c = Some lt' \<and>
         parseSseCloneAndEmitRecord pf decode clk ctx True reads Eof = Some rec \<and>
         rec_resp rec = Some p \<and>
         resp_finish_reason p = Some (nullish_or (ch_finish_reason c) (JString ''done'')) \<and>
         resp_timings p = build_timings pf lt')) \<and>
   (passes False (stream_events decode reads) \<and>
    (Done \<notin> set (stream_events decode reads) \<or> last_timed (stream_events decode reads) = None) \<longrightarrow>
      parseSseCloneAndEmitRecord pf decode clk ctx True reads Eof = None) \<and>
   (passes False (stream_events decode reads) \<longrightarrow>
      parseSseCloneAndEmitRecord pf decode clk ctx True reads Failed = None) \<and>
   (passes False evs \<or>
    (\<exists>pre' e post. evs = pre' @ e # post \<and> passes False pre' \<and>
       ((e = Done \<and> last_timed pre' \<noteq> None) \<or> (\<exists>c. e = Data c \<and> is_finish c))))"
proof (intro conjI impI)
  assume "passes False pre \<and> is_finish c \<and> ch_timings c = Some lt"
  then show "\<exists>rec p.
         (\<forall>reads ending post. stream_events decode reads = pre @ Data c # post \<longrightarrow>
            parseSseCloneAndEmitRecord pf decode clk ctx True reads ending = Some rec) \<and>
         rec_resp rec = Some p \<and> resp_finish_reason p = ch_finish_reason c \<and>
         resp_timings p = build_timings pf lt"
    using parse_terminal_chunk[of pre c lt decode pf clk ctx] by simp
next
  assume "passes False pre \<and> last_timed pre = Some c"
  then show "\<exists>rec p lt'. ch_timings c = Some lt' \<and>
         (\<forall>reads ending post. stream_events decode reads = pre @ Done # post \<longrightarrow>
            parseSseCloneAndEmitRecord pf decode clk ctx True reads ending = Some rec) \<and>
         rec_resp rec = Some p \<and>
         resp_finish_reason p = Some (nullish_or (ch_finish_reason c) (JString ''done'')) \<and>
         resp_timings p = build_timings pf lt'"
    using parse_done_fallback[of pre c decode pf clk ctx] by simp
next
  assume "passes False pre \<and> is_finish c \<and> ch_timings c = None \<and> Done \<in> set pre \<and>
    last_timed pre = Some c'"
  then show "\<exists>rec p lt'. ch_timings c' = Some lt' \<and>
         (\<forall>reads ending post. stream_events decode reads = pre @ Data c # post \<longrightarrow>
            parseSseCloneAndEmitRecord pf decode clk ctx True reads ending = Some rec) \<and>
         rec_resp rec = Some p \<and>
         resp_finish_reason p = Some (nullish_or (ch_finish_reason c') (JString ''done'')) \<and>
         resp_timings p = build_timings pf lt'"
    using parse_untimed_stop_promoted[of pre c c' decode pf clk ctx] by simp
next
  assume "passes False pre \<and> is_finish c \<and> ch_timings c = None \<and>
    (Done \<notin> set pre \<or> last_timed pre = None)"
  then show "\<forall>reads ending post. stream_events decode reads = pre @ Data c # post \<longrightarrow>
         parseSseCloneAndEmitRecord pf decode clk ctx True reads ending = None"
    using parse_untimed_stop_dropped[of pre c decode pf clk ctx] by simp
next
  assume "passes False (stream_events decode reads) \<and> Done \<in> set (stream_events decode reads) \<and>
    last_timed (stream_events decode reads) = Some c"
  then show "\<exists>rec p lt'. ch_timings c = Some lt' \<and>
         parseSseCloneAndEmitRecord pf decode clk ctx True reads Eof = Some rec \<and>
         rec_resp rec = Some p \<and>
         resp_finish_reason p = Some (nullish_or (ch_finish_reason c) (JString ''done'')) \<and>
         resp_timings p = build_timings pf lt'"
    using parse_eof_promoted[of decode reads c pf clk ctx] by simp
next
  assume "passes False (stream_events decode reads) \<and>
    (Done \<notin> set (stream_events decode reads) \<or> last_timed (stream_events decode reads) = None)"
  then show "parseSseCloneAndEmitRecord pf decode clk ctx True reads Eof = None"
    using parse_eof_dropped[of decode reads pf clk ctx] by simp
next
  assume "passes False (stream_events decode reads)"
  then show "parseSseCloneAndEmitRecord pf decode clk ctx True reads Failed = None"
    by (rule parse_failed)
next
  show "passes False evs \<or>
    (\<exists>pre' e post. evs = pre' @ e # post \<and> passes False pre' \<and>
       ((e = Done \<and> last_timed pre' \<noteq> None) \<or> (\<exists>c. e = Data c \<and> is_finish c)))"
    using passes_split[of False evs] by simp
qed

theorem terminal_chunk_and_fallback_witness:
  "(\<exists>rec p.
      parseSseCloneAndEmitRecord example_platform example_decode example_clock example_ctx True stop_reads Eof = Some rec \<and>
      parseSseCloneAndEmitRecord example_platform example_decode example_clock example_ctx True cut_reads Failed = Some rec \<and>
      rec_resp rec = Some p \<and> resp_finish_reason p = Some (JString ''stop'') \<and>
      predicted_n (resp_timings p) = Some (JNumber (Finite 100))) \<and>
   (\<exists>rec p.
      parseSseCloneAndEmitRecord example_platform example_decode example_clock example_ctx True early_done_reads Eof = Some rec \<and>
      rec_resp rec = Some p \<and> resp_finish_reason p = Some (JString ''stop'') \<and>
      predicted_n (resp_timings p) = Some (JNumber (Finite 100))) \<and>
   (\<exists>rec p.
      parseSseCloneAndEmitRecord example_platform example_decode example_clock example_ctx True done_reads Eof = Some rec \<and>
      rec_resp rec = Some p \<and> resp_finish_reason p = Some (JString ''done'') \<and>
      predicted_n (resp_timings p) = Some (JNumber (Finite 70))) \<and>
   (\<exists>rec p.
      parseSseCloneAndEmitRecord example_platform example_decode example_clock example_ctx True late_stop_reads Eof = Some rec \<and>
      rec_resp rec = Some p \<and> resp_finish_reason p = Some (JString ''done'') \<and>
      predicted_n (resp_timings p) = Some (JNumber (Finite 70))) \<and>
   parseSseCloneAndEmitRecord example_platform example_decode example_clock example_ctx True untimed_stop_reads Eof = None \<and>
   (\<exists>rec p.
      parseSseCloneAndEmitRecord example_platform example_decode example_clock example_ctx True late_timed_reads Eof = Some rec \<and>
      rec_resp rec = Some p \<and> resp_finish_reason p = Some (JString ''done'') \<and>
      predicted_n (resp_timings p) = Some (JNumber (Finite 70))) \<and>
   parseSseCloneAndEmitRecord example_platform example_decode example_clock example_ctx True eof_reads Eof = None \<and>
   parseSseCloneAndEmitRecord example_platform example_decode example_clock example_ctx True eof_reads Failed = None"
proof -
  note T = terminal_chunk_and_fallback[where decode = example_decode and pf = example_platform
      and clk = example_clock and ctx = example_ctx]
  have pn: "predicted_n (build_timings example_platform (example_timings n ms)) = Some (JNumber (Finite n))"
    for n ms
    by (simp add: build_timings_def example_timings_def num_leaf_def)
  have dn: "nullish_or (ch_finish_reason chunk_text70) (JString ''done'') = JString ''done''"
    by (simp add: nullish_or_def example_chunk_fields)
  have w1: "\<exists>rec p.
      parseSseCloneAndEmitRecord example_platform example_decode example_clock example_ctx True stop_reads Eof = Some rec \<and>
      parseSseCloneAndEmitRecord example_platform example_decode example_clock example_ctx True cut_reads Failed = Some rec \<and>
      rec_resp rec = Some p \<and> resp_finish_reason p = Some (JString ''stop'') \<and>
      predicted_n (resp_timings p) = Some (JNumber (Finite 100))"
  proof -
    have h: "passes False [Data chunk_think30] \<and> is_finish chunk_stop100 \<and>
             ch_timings chunk_stop100 = Some (example_timings 100 1000)"
      by (simp add: example_is_finish example_chunk_fields)
    from T[where pre = "[Data chunk_think30]" and c = chunk_stop100 and lt = "example_timings 100 1000",
        THEN conjunct1, THEN mp, OF h]
    obtain rec p where
      a: "\<forall>reads ending post. stream_events example_decode reads = [Data chunk_think30] @ Data chunk_stop100 # post \<longrightarrow>
            parseSseCloneAndEmitRecord example_platform example_decode example_clock example_ctx True reads ending = Some rec"
        "rec_resp rec = Some p" "resp_finish_reason p = ch_finish_reason chunk_stop100"
        "resp_timings p = build_timings example_platform (example_timings 100 1000)"
      by blast
    have e1: "stream_events example_decode stop_reads = [Data chunk_think30] @ Data chunk_stop100 # [Done]"
      and e2: "stream_events example_decode cut_reads = [Data chunk_think30] @ Data chunk_stop100 # []"
      by (simp_all add: example_events)
    have a1: "parseSseCloneAndEmitRecord example_platform example_decode example_clock example_ctx True stop_reads Eof = Some rec"
      using a(1) e1 by blast
    have a2: "parseSseCloneAndEmitRecord example_platform example_decode example_clock example_ctx True cut_reads Failed = Some rec"
      using a(1) e2 by blast
    show ?thesis
      by (rule exI[of _ rec], rule exI[of _ p])
         (simp add: a1 a2 a(2) a(3) a(4) pn example_chunk_fields)
  qed
  have w2: "\<exists>rec p.
      parseSseCloneAndEmitRecord example_platform example_decode example_clock example_ctx True early_done_reads Eof = Some rec \<and>
      rec_resp rec = Some p \<and> resp_finish_reason p = Some (JString ''stop'') \<and>
      predicted_n (resp_timings p) = Some (JNumber (Finite 100))"
  proof -
    have h: "passes False [Done] \<and> is_finish chunk_stop100 \<and>
             ch_timings chunk_stop100 = Some (example_timings 100 1000)"
      by (simp add: example_is_finish example_chunk_fields)
    from T[where pre = "[Done]" and c = chunk_stop100 and lt = "example_timings 100 1000",
        THEN conjunct1, THEN mp, OF h]
    obtain rec p where
      a: "\<forall>reads ending post. stream_events example_decode reads = [Done] @ Data chunk_stop100 # post \<longrightarrow>
            parseSseCloneAndEmitRecord example_platform example_decode example_clock example_ctx True reads ending = Some rec"
        "rec_resp rec = Some p" "resp_finish_reason p = ch_finish_reason chunk_stop100"
        "resp_timings p = build_timings example_platform (example_timings 100 1000)"
      by blast
    have e1: "stream_events example_decode early_done_reads = [Done] @ Data chunk_stop100 # []"
      by (simp add: example_events)
    have a1: "parseSseCloneAndEmitRecord example_platform example_decode example_clock example_ctx True early_done_reads Eof = Some rec"
      using a(1) e1 by blast
    show ?thesis
      by (rule exI[of _ rec], rule exI[of _ p])
         (simp add: a1 a(2) a(3) a(4) pn example_chunk_fields)
  qed
  have w3: "\<exists>rec p.
      parseSseCloneAndEmitRecord example_platform example_decode example_clock example_ctx True done_reads Eof = Some rec \<and>
      rec_resp rec = Some p \<and> resp_finish_reason p = Some (JString ''done'') \<and>
      predicted_n (resp_timings p) = Some (JNumber (Finite 70))"
  proof -
    have h: "passes False [Data chunk_text70] \<and> last_timed [Data chunk_text70] = Some chunk_text70"
      by (simp add: example_is_finish example_chunk_fields)
    from T[where pre = "[Data chunk_text70]" and c = chunk_text70,
        THEN conjunct2, THEN conjunct1, THEN mp, OF h]
    obtain rec p lt' where
      a: "ch_timings chunk_text70 = Some lt'"
        "\<forall>reads ending post. stream_events example_decode reads = [Data chunk_text70] @ Done # post \<longrightarrow>
            parseSseCloneAndEmitRecord example_platform example_decode example_clock example_ctx True reads ending = Some rec"
        "rec_resp rec = Some p"
        "resp_finish_reason p = Some (nullish_or (ch_finish_reason chunk_text70) (JString ''done''))"
        "resp_timings p = build_timings example_platform lt'"
      by blast
    have lt': "lt' = example_timings 70 700"
      using a(1) by (simp add: example_chunk_fields)
    have e1: "stream_events example_decode done_reads = [Data chunk_text70] @ Done # []"
      by (simp add: example_events)
    have a1: "parseSseCloneAndEmitRecord example_platform example_decode example_clock example_ctx True done_reads Eof = Some rec"
      using a(2) e1 by blast
    show ?thesis
      by (rule exI[of _ rec], rule exI[of _ p])
         (simp add: a1 a(3) a(4) a(5) lt' pn dn)
  qed
  have w4: "\<exists>rec p.
      parseSseCloneAndEmitRecord example_platform example_decode example_clock example_ctx True late_stop_reads Eof = Some rec \<and>
      rec_resp rec = Some p \<and> resp_finish_reason p = Some (JString ''done'') \<and>
      predicted_n (resp_timings p) = Some (JNumber (Finite 70))"
  proof -
    have h: "passes False [Done, Data chunk_text70] \<and> is_finish chunk_stop_untimed \<and>
             ch_timings chunk_stop_untimed = None \<and> Done \<in> set [Done, Data chunk_text70] \<and>
             last_timed [Done, Data chunk_text70] = Some chunk_text70"
      by (simp add: example_is_finish example_chunk_fields)
    from T[where pre = "[Done, Data chunk_text70]" and c = chunk_stop_untimed and c' = chunk_text70,
        THEN conjunct2, THEN conjunct2, THEN conjunct1, THEN mp, OF h]
    obtain rec p lt' where
      a: "ch_timings chunk_text70 = Some lt'"
        "\<forall>reads ending post. stream_events example_decode reads = [Done, Data chunk_text70] @ Data chunk_stop_untimed # post \<longrightarrow>
            parseSseCloneAndEmitRecord example_platform example_decode example_clock example_ctx True reads ending = Some rec"
        "rec_resp rec = Some p"
        "resp_finish_reason p = Some (nullish_or (ch_finish_reason chunk_text70) (JString ''done''))"
        "resp_timings p = build_timings example_platform lt'"
      by blast
    have lt': "lt' = example_timings 70 700"
      using a(1) by (simp add: example_chunk_fields)
    have e1: "stream_events example_decode late_stop_reads = [Done, Data chunk_text70] @ Data chunk_stop_untimed # []"
      by (simp add: example_events)
    have a1: "parseSseCloneAndEmitRecord example_platform example_decode example_clock example_ctx True late_stop_reads Eof = Some rec"
      using a(2) e1 by blast
    show ?thesis
      by (rule exI[of _ rec], rule exI[of _ p])
         (simp add: a1 a(3) a(4) a(5) lt' pn dn)
  qed
  have w5: "parseSseCloneAndEmitRecord example_platform example_decode example_clock example_ctx True untimed_stop_reads Eof = None"
  proof -
    have h: "passes False [Data chunk_text70] \<and> is_finish chunk_stop_untimed \<and>
             ch_timings chunk_stop_untimed = None \<and>
             (Done \<notin> set [Data chunk_text70] \<or> last_timed [Data chunk_text70] = None)"
      by (simp add: example_is_finish example_chunk_fields)
    note a = T[where pre = "[Data chunk_text70]" and c = chunk_stop_untimed,
        THEN conjunct2, THEN conjunct2, THEN conjunct2, THEN conjunct1, THEN mp, OF h]
    have e1: "stream_events example_decode untimed_stop_reads = [Data chunk_text70] @ Data chunk_stop_untimed # [Done]"
      by (simp add: example_events)
    show ?thesis
      using a e1 by blast
  qed
  have w6: "\<exists>rec p.
      parseSseCloneAndEmitRecord example_platform example_decode example_clock example_ctx True late_timed_reads Eof = Some rec \<and>
      rec_resp rec = Some p \<and> resp_finish_reason p = Some (JString ''done'') \<and>
      predicted_n (resp_timings p) = Some (JNumber (Finite 70))"
  proof -
    have h: "passes False (stream_events example_decode late_timed_reads) \<and>
             Done \<in> set (stream_events example_decode late_timed_reads) \<and>
             last_timed (stream_events example_decode late_timed_reads) = Some chunk_text70"
      by (simp add: example_events example_is_finish example_chunk_fields)
    from T[where reads = late_timed_reads and c = chunk_text70,
        THEN conjunct2, THEN conjunct2, THEN conjunct2, THEN conjunct2, THEN conjunct1, THEN mp, OF h]
    obtain rec p lt' where
      a: "ch_timings chunk_text70 = Some lt'"
        "parseSseCloneAndEmitRecord example_platform example_decode example_clock example_ctx True late_timed_reads Eof = Some rec"
        "rec_resp rec = Some p"
        "resp_finish_reason p = Some (nullish_or (ch_finish_reason chunk_text70) (JString ''done''))"
        "resp_timings p = build_timings example_platform lt'"
      by blast
    have lt': "lt' = example_timings 70 700"
      using a(1) by (simp add: example_chunk_fields)
    show ?thesis
      by (rule exI[of _ rec], rule exI[of _ p])
         (simp add: a(2) a(3) a(4) a(5) lt' pn dn)
  qed
  have h7: "passes False (stream_events example_decode eof_reads)"
    by (simp add: example_events example_is_finish)
  have h7': "passes False (stream_events example_decode eof_reads) \<and>
      (Done \<notin> set (stream_events example_decode eof_reads) \<or>
       last_timed (stream_events example_decode eof_reads) = None)"
    by (simp add: example_events example_is_finish)
  have w7: "parseSseCloneAndEmitRecord example_platform example_decode example_clock example_ctx True eof_reads Eof = None"
    by (rule T[where reads = eof_reads,
        THEN conjunct2, THEN conjunct2, THEN conjunct2, THEN conjunct2, THEN conjunct2, THEN conjunct1,
        THEN mp, OF h7'])
  have w8: "parseSseCloneAndEmitRecord example_platform example_decode example_clock example_ctx True eof_reads Failed = None"
    by (rule T[where reads = eof_reads,
        THEN conjunct2, THEN conjunct2, THEN conjunct2, THEN conjunct2, THEN conjunct2, THEN conjunct2,
        THEN conjunct1, THEN mp, OF h7])
  show ?thesis
    by (intro conjI w1 w2 w3 w4 w5 w6 w7 w8)
qed

text \<open>
  Claim C1 as stated fails at the end of a stream without \<^verbatim>\<open>[DONE]\<close>: the stream of
  one chunk with timings and no finish reason, then the end of the stream, emits no
  record.
\<close>

theorem eof_without_done_counterexample:
  "last_timed (stream_events example_decode eof_reads) = Some chunk_text70 \<and>
   parseSseCloneAndEmitRecord example_platform example_decode example_clock example_ctx True eof_reads Eof = None"
proof -
  have p: "passes False (stream_events example_decode eof_reads)"
    by (simp add: example_events example_is_finish)
  have d: "Done \<notin> set (stream_events example_decode eof_reads) \<or>
           last_timed (stream_events example_decode eof_reads) = None"
    by (simp add: example_events)
  from parse_eof_dropped[OF p d] show ?thesis
    by (simp add: example_events example_chunk_fields)
qed

section \<open>Stream parser: every emitted record\<close>

lemma chunks_of_set: "(c \<in> set (chunks_of evs)) = (Data c \<in> set evs)"
  by (induction evs rule: chunks_of.induct) auto

lemma absorb_ok:
  assumes "c \<in> set (chunks_of evs)"
  shows "timed_ok evs s \<Longrightarrow> timed_ok evs (absorb s c)"
    and "boundary_ok evs s \<Longrightarrow> boundary_ok evs (absorb s c)"
    and "stop_ok clk evs s \<Longrightarrow> stop_ok clk evs (absorb s c)"
proof -
  show "timed_ok evs s \<Longrightarrow> timed_ok evs (absorb s c)"
    using assms by (cases "ch_timings c") (simp_all add: timed_ok_def absorb_lastTimedChunk)
  show "boundary_ok evs s \<Longrightarrow> boundary_ok evs (absorb s c)"
  proof (cases "ch_delta_reasoning_content c")
    case None
    then show "boundary_ok evs s \<Longrightarrow> boundary_ok evs (absorb s c)"
      by (simp add: boundary_ok_def absorb_reasoningBoundary)
  next
    case r: (Some x)
    show "boundary_ok evs s \<Longrightarrow> boundary_ok evs (absorb s c)"
    proof (cases "ch_timings c")
      case None
      with r show "boundary_ok evs s \<Longrightarrow> boundary_ok evs (absorb s c)"
        by (simp add: boundary_ok_def absorb_reasoningBoundary)
    next
      case (Some t)
      have "list_ex (\<lambda>c'. ch_delta_reasoning_content c' \<noteq> None \<and>
                        (case ch_timings c' of
                           None \<Rightarrow> False
                         | Some t' \<Rightarrow> \<lparr>rb_predicted_n = t_predicted_n t, rb_predicted_ms = t_predicted_ms t\<rparr>
                                      = \<lparr>rb_predicted_n = t_predicted_n t',
                                           rb_predicted_ms = t_predicted_ms t'\<rparr>))
            (chunks_of evs)"
        unfolding list_ex_iff using assms r Some by (intro bexI[of _ c]) simp_all
      then show "boundary_ok evs (absorb s c)"
        using r Some by (simp add: boundary_ok_def absorb_reasoningBoundary)
    qed
  qed
  show "stop_ok clk evs s \<Longrightarrow> stop_ok clk evs (absorb s c)"
    by (simp add: stop_ok_def absorb_frame split: option.splits)
qed

lemma promote_ok:
  assumes "timed_ok evs s" and "lastTimedChunk s = Some c"
      and "now = now_stop_in_loop clk \<or> now = now_stop_after_loop clk"
  shows "timed_ok evs (promote now c s)" and "stop_ok clk evs (promote now c s)"
    and "boundary_ok evs s \<Longrightarrow> boundary_ok evs (promote now c s)"
proof -
  from assms(1,2) have c: "c \<in> set (chunks_of evs)" "ch_timings c \<noteq> None"
    by (simp_all add: timed_ok_def)
  then obtain lt where lt: "ch_timings c = Some lt"
    by auto
  show "timed_ok evs (promote now c s)"
    using assms(1) by (simp add: timed_ok_def promote_fields split: option.splits)
  show "stop_ok clk evs (promote now c s)"
    using c(1) lt assms(3) by (auto simp: stop_ok_def promote_fields)
  show "boundary_ok evs s \<Longrightarrow> boundary_ok evs (promote now c s)"
    by (simp add: boundary_ok_def promote_fields split: option.splits)
qed

lemma step_event_ok:
  assumes "e \<in> set evs"
      and "timed_ok evs s" and "boundary_ok evs s" and "stop_ok clk evs s"
  shows "timed_ok evs (snd (step_event clk s e)) \<and> boundary_ok evs (snd (step_event clk s e)) \<and>
         stop_ok clk evs (snd (step_event clk s e))"
proof (cases e)
  case Done
  define s1 where "s1 = s\<lparr>sawDoneMarker := True\<rparr>"
  have s1: "timed_ok evs s1" "boundary_ok evs s1" "stop_ok clk evs s1"
    using assms(2,3,4)
    by (simp_all add: s1_def timed_ok_def boundary_ok_def stop_ok_def split: option.splits)
  show ?thesis
  proof (cases "lastTimedChunk s")
    case None
    then show ?thesis
      using s1 Done by (simp add: process_done_cases s1_def)
  next
    case (Some c)
    then have l: "lastTimedChunk s1 = Some c"
      by (simp add: s1_def)
    show ?thesis
    proof (cases "stopChunk s")
      case None
      have "step_event clk s e = (True, promote (now_stop_in_loop clk) c s1)"
        using Done Some None by (simp add: process_done_cases s1_def)
      then show ?thesis
        using promote_ok[OF s1(1) l, of "now_stop_in_loop clk" clk] s1(2) by simp
    next
      case st: (Some c')
      then show ?thesis
        using s1 Done Some by (simp add: process_done_cases s1_def)
    qed
  qed
next
  case (Data c)
  with assms(1) have c: "c \<in> set (chunks_of evs)"
    by (simp add: chunks_of_set)
  note a = absorb_ok[OF c]
  show ?thesis
  proof (cases "is_finish c")
    case False
    then show ?thesis
      using a(1)[OF assms(2)] a(2)[OF assms(3)] a(3)[OF assms(4)] Data
      by (simp add: process_chunk_pass)
  next
    case True
    from is_finish_cases[OF True] obtain f where f: "ch_finish_reason c = Some (JString f)"
      by blast
    define s2 where "s2 = (absorb s c)\<lparr> stopChunk := Some c, lastTimingsAtStop := ch_timings c,
                          stopFinishReason := ch_finish_reason c,
                          stopChunkAtMs := Some (now_stop_in_loop clk) \<rparr>"
    have st: "step_event clk s e = (True, s2)"
      using Data True by (simp add: process_chunk_finish s2_def)
    have t: "timed_ok evs s2"
      using a(1)[OF assms(2)] by (simp add: timed_ok_def s2_def split: option.splits)
    have b: "boundary_ok evs s2"
      using a(2)[OF assms(3)] by (simp add: boundary_ok_def s2_def split: option.splits)
    have so: "stop_ok clk evs s2"
      using c f by (cases "ch_timings c") (simp_all add: stop_ok_def s2_def nullish_or_def)
    show ?thesis
      using st t b so by simp
  qed
qed

lemma run_events_ok:
  assumes "set es \<subseteq> set evs"
      and "timed_ok evs s" and "boundary_ok evs s" and "stop_ok clk evs s"
  shows "timed_ok evs (snd (run_events clk s es)) \<and> boundary_ok evs (snd (run_events clk s es)) \<and>
         stop_ok clk evs (snd (run_events clk s es))"
  using assms
proof (induction es arbitrary: s)
  case Nil
  then show ?case by simp
next
  case (Cons e es)
  from Cons.prems(1) have e: "e \<in> set evs" and rest: "set es \<subseteq> set evs"
    by simp_all
  note st = step_event_ok[OF e Cons.prems(2,3,4)]
  show ?case
  proof (cases "fst (step_event clk s e)")
    case True
    then have "run_events clk s (e # es) = step_event clk s e"
      by (cases "step_event clk s e") simp
    with st show ?thesis by simp
  next
    case False
    then have r: "run_events clk s (e # es) = run_events clk (snd (step_event clk s e)) es"
      by (cases "step_event clk s e") simp
    from st have st': "timed_ok evs (snd (step_event clk s e))"
      "boundary_ok evs (snd (step_event clk s e))" "stop_ok clk evs (snd (step_event clk s e))"
      by simp_all
    show ?thesis
      unfolding r by (rule Cons.IH[OF rest st'])
  qed
qed

lemma promote_after_loop_ok:
  assumes "timed_ok evs s" and "boundary_ok evs s" and "stop_ok clk evs s"
  shows "boundary_ok evs (promote_after_loop clk s) \<and> stop_ok clk evs (promote_after_loop clk s) \<and>
         firstStreamChunkAtMs (promote_after_loop clk s) = firstStreamChunkAtMs s"
proof (cases "lastTimedChunk s")
  case None
  then show ?thesis
    using assms by (simp add: promote_after_loop_def)
next
  case (Some c)
  show ?thesis
  proof (cases "(stopChunk s = None \<or> lastTimingsAtStop s = None) \<and> sawDoneMarker s")
    case True
    then have p: "promote_after_loop clk s = promote (now_stop_after_loop clk) c s"
      using Some by (simp add: promote_after_loop_def)
    show ?thesis
      unfolding p
      using promote_ok[OF assms(1) Some, of "now_stop_after_loop clk" clk] assms(2)
      by (simp add: promote_fields)
  next
    case False
    then have p: "promote_after_loop clk s = s"
      using Some by (auto simp: promote_after_loop_def)
    show ?thesis
      unfolding p using assms by simp
  qed
qed

text \<open>Every emitted record is built from a state that holds the timings and the finish
  reason of a chunk of the stream, the reading of the clock after the first read, one
  of the two readings for the stop, and the reasoning boundary of a chunk of the stream.\<close>

lemma emit_Some:
  "emit pf clk ctx s0 = Some rec \<Longrightarrow>
     \<exists>lt. lastTimingsAtStop (promote_after_loop clk s0) = Some lt \<and>
          rec = build_record pf clk ctx (promote_after_loop clk s0) lt"
  by (auto simp: emit_def Let_def split: option.splits)

lemma parse_emits:
  assumes "parseSseCloneAndEmitRecord pf decode clk ctx isSse reads ending = Some rec"
  shows "\<exists>s lt c. rec = build_record pf clk ctx s lt \<and>
           c \<in> set (chunks_of (stream_events decode reads)) \<and> ch_timings c = Some lt \<and>
           stopFinishReason s = Some (nullish_or (ch_finish_reason c) (JString ''done'')) \<and>
           (stopChunkAtMs s = Some (now_stop_in_loop clk) \<or>
            stopChunkAtMs s = Some (now_stop_after_loop clk)) \<and>
           firstStreamChunkAtMs s = Some (now_first_chunk clk) \<and>
           boundary_ok (stream_events decode reads) s"
proof -
  define s0 where "s0 = init_pstate\<lparr>firstStreamChunkAtMs := Some (now_first_chunk clk)\<rparr>"
  define evs where "evs = stream_events decode reads"
  define s1 where "s1 = snd (run_events clk s0 evs)"
  define s where "s = promote_after_loop clk s1"
  have sse: "isSse"
    using assms by (auto simp: parseSseCloneAndEmitRecord_def split: if_splits)
  have ne: "reads \<noteq> []"
    using assms sse emit_init[of pf clk ctx] by (auto simp: parse_events split: stream_end.splits)
  obtain b where r: "run_events clk s0 evs = (b, s1)"
    by (cases "run_events clk s0 evs") (simp add: s1_def)
  have "parseSseCloneAndEmitRecord pf decode clk ctx isSse reads ending =
      (if b then emit pf clk ctx s1
       else (case ending of Eof \<Rightarrow> emit pf clk ctx s1 | Failed \<Rightarrow> None))"
    using sse ne r by (simp add: parse_events s0_def evs_def)
  with assms have e: "emit pf clk ctx s1 = Some rec"
    by (cases b; cases ending) simp_all
  from emit_Some[OF e] obtain lt where
    lt: "lastTimingsAtStop s = Some lt" and rec: "rec = build_record pf clk ctx s lt"
    by (auto simp: s_def)
  have i: "timed_ok evs s0" "boundary_ok evs s0" "stop_ok clk evs s0"
    by (simp_all add: s0_def init_pstate_def timed_ok_def boundary_ok_def stop_ok_def)
  from run_events_ok[OF subset_refl i] have
    o1: "timed_ok evs s1" "boundary_ok evs s1" "stop_ok clk evs s1"
    by (simp_all add: s1_def)
  from promote_after_loop_ok[OF o1] have
    o: "boundary_ok evs s" "stop_ok clk evs s" "firstStreamChunkAtMs s = firstStreamChunkAtMs s1"
    by (simp_all add: s_def)
  have f1: "firstStreamChunkAtMs s1 = Some (now_first_chunk clk)"
    using run_events_frame[OF r] by (simp add: s0_def)
  from o(2) lt obtain c where
    c: "stopChunk s = Some c" "c \<in> set (chunks_of evs)" "ch_timings c = Some lt"
       "stopFinishReason s = Some (nullish_or (ch_finish_reason c) (JString ''done''))"
       "stopChunkAtMs s = Some (now_stop_in_loop clk) \<or> stopChunkAtMs s = Some (now_stop_after_loop clk)"
    by (cases "stopChunk s") (simp_all add: stop_ok_def)
  show ?thesis
    by (rule exI[of _ s], rule exI[of _ lt], rule exI[of _ c])
       (use rec c o(1,3) f1 in \<open>simp add: evs_def\<close>)
qed

subsection \<open>The six client-side deltas\<close>

lemma MAX_VALUE_large: "2 ^ 53 \<le> MAX_VALUE"
proof -
  have "(2::rat) ^ 1 \<le> 2 ^ 971"
    by (rule power_increasing) simp_all
  then have "(2 ^ 53 - 1) * (2::rat) \<le> (2 ^ 53 - 1) * 2 ^ 971"
    by (intro mult_left_mono) simp_all
  then show ?thesis
    by (simp add: MAX_VALUE_def)
qed

text \<open>An exact result within the range of the integers that binary64 holds exactly is
  not an overflow.\<close>

lemma rounded_exact:
  assumes "fl pf x = x" and "\<bar>x\<bar> \<le> 2 ^ 53"
  shows "rounded pf x = Finite x"
proof -
  from assms(2) MAX_VALUE_large have "\<bar>x\<bar> \<le> MAX_VALUE"
    by (rule order_trans)
  then show ?thesis
    using assms(1) by (simp add: rounded_def Let_def abs_le_iff)
qed

lemma rounded_not_NaN: "rounded pf x \<noteq> NaN"
  by (simp add: rounded_def Let_def)

lemma max0_rounded_not_negative: "not_negative (math_max0 (rounded pf x))"
  by (simp add: rounded_def Let_def)

lemma duration_as_claimed: "delta_as_claimed pf a b (duration pf a b)"
proof (cases a)
  case None
  then show ?thesis by (simp add: duration_def)
next
  case a: (Some x)
  show ?thesis
  proof (cases b)
    case None
    then show ?thesis using a by (simp add: duration_def)
  next
    case (Some y)
    show ?thesis
      using a Some by (simp add: duration_def max0_rounded_not_negative)
  qed
qed

text \<open>
  Claim C7. In every emitted record the four marks of \<^verbatim>\<open>client_timing\<close> are the two
  marks of the timing context that the parser was given, the reading of the clock after
  the first read, and one of the two readings of the clock for the stop, which are
  always known. Each of the six deltas is, of its two marks as the parser was given
  them, \<^verbatim>\<open>Math.max(0, later - earlier)\<close> when both are known (\<open>max 0 (later - earlier)\<close>
  when the platform subtracts them exactly), \<^verbatim>\<open>null\<close> exactly when one of them is
  unknown, and never negative.
\<close>

theorem client_timing_deltas:
  assumes "parseSseCloneAndEmitRecord pf decode clk ctx isSse reads ending = Some rec"
  shows "\<exists>p stop. rec_resp rec = Some p \<and>
     (stop = now_stop_in_loop clk \<or> stop = now_stop_after_loop clk) \<and>
     (let ct = resp_client_timing p;
          request = tc_request_start_ms (px_timing ctx);
          headers = tc_response_headers_ms (px_timing ctx);
          first = Some (now_first_chunk clk)
      in
      request_start_ms ct = num_leaf request \<and>
      response_headers_ms ct = num_leaf headers \<and>
      first_stream_chunk_ms ct = num_leaf first \<and>
      stop_chunk_ms ct = num_leaf (Some stop) \<and>
      delta_as_claimed pf request headers (duration_request_to_headers_ms ct) \<and>
      delta_as_claimed pf request first (duration_request_to_first_stream_chunk_ms ct) \<and>
      delta_as_claimed pf headers first (duration_headers_to_first_stream_chunk_ms ct) \<and>
      delta_as_claimed pf first (Some stop) (duration_first_stream_chunk_to_stop_ms ct) \<and>
      delta_as_claimed pf headers (Some stop) (duration_headers_to_stop_ms ct) \<and>
      delta_as_claimed pf request (Some stop) (duration_request_to_stop_ms ct))"
proof -
  from parse_emits[OF assms] obtain s lt where
    rec: "rec = build_record pf clk ctx s lt" and
    st: "stopChunkAtMs s = Some (now_stop_in_loop clk) \<or> stopChunkAtMs s = Some (now_stop_after_loop clk)" and
    fc: "firstStreamChunkAtMs s = Some (now_first_chunk clk)"
    by blast
  from st obtain stop where
    stop: "stopChunkAtMs s = Some stop" "stop = now_stop_in_loop clk \<or> stop = now_stop_after_loop clk"
    by blast
  from build_record_resp[of pf clk ctx s lt] obtain p where
    p: "rec_resp (build_record pf clk ctx s lt) = Some p" and
    ct: "resp_client_timing p =
         build_client_timing pf (tc_request_start_ms (px_timing ctx))
           (tc_response_headers_ms (px_timing ctx)) (firstStreamChunkAtMs s)
           (case stopChunkAtMs s of Some t \<Rightarrow> Some t | None \<Rightarrow> Some (now_stop_default clk))"
    by blast
  have ct': "resp_client_timing p =
         build_client_timing pf (tc_request_start_ms (px_timing ctx))
           (tc_response_headers_ms (px_timing ctx)) (Some (now_first_chunk clk)) (Some stop)"
    unfolding ct fc stop(1) by simp
  have "let ct = resp_client_timing p;
          request = tc_request_start_ms (px_timing ctx);
          headers = tc_response_headers_ms (px_timing ctx);
          first = Some (now_first_chunk clk)
      in
      request_start_ms ct = num_leaf request \<and>
      response_headers_ms ct = num_leaf headers \<and>
      first_stream_chunk_ms ct = num_leaf first \<and>
      stop_chunk_ms ct = num_leaf (Some stop) \<and>
      delta_as_claimed pf request headers (duration_request_to_headers_ms ct) \<and>
      delta_as_claimed pf request first (duration_request_to_first_stream_chunk_ms ct) \<and>
      delta_as_claimed pf headers first (duration_headers_to_first_stream_chunk_ms ct) \<and>
      delta_as_claimed pf first (Some stop) (duration_first_stream_chunk_to_stop_ms ct) \<and>
      delta_as_claimed pf headers (Some stop) (duration_headers_to_stop_ms ct) \<and>
      delta_as_claimed pf request (Some stop) (duration_request_to_stop_ms ct)"
    unfolding ct' Let_def build_client_timing_def
    using duration_as_claimed by (simp add: max0_rounded_not_negative)
  with p rec stop(2) show ?thesis by blast
qed

lemma example_rounded: "\<bar>x\<bar> \<le> 2 ^ 53 \<Longrightarrow> rounded example_platform x = Finite x"
  by (rule rounded_exact) (simp_all add: example_platform_def)

lemma example_cut_parse:
  "\<exists>rec. parseSseCloneAndEmitRecord example_platform example_decode example_clock ctx True cut_reads Eof = Some rec"
proof -
  from parse_terminal_chunk[of "[Data chunk_think30]" chunk_stop100 "example_timings 100 1000"
      example_decode example_platform example_clock ctx]
  obtain rec where
    "\<forall>reads ending post. stream_events example_decode reads = [Data chunk_think30] @ Data chunk_stop100 # post \<longrightarrow>
       parseSseCloneAndEmitRecord example_platform example_decode example_clock ctx True reads ending = Some rec"
    by (auto simp: example_is_finish example_chunk_fields)
  moreover have "stream_events example_decode cut_reads = [Data chunk_think30] @ Data chunk_stop100 # []"
    by (simp add: example_events)
  ultimately show ?thesis
    by blast
qed

theorem client_timing_deltas_witness:
  "(\<exists>rec p.
      parseSseCloneAndEmitRecord example_platform example_decode example_clock example_ctx True cut_reads Eof = Some rec \<and>
      rec_resp rec = Some p \<and>
      request_start_ms (resp_client_timing p) = Some (JNumber (Finite 1000)) \<and>
      response_headers_ms (resp_client_timing p) = Some (JNumber (Finite 1100)) \<and>
      first_stream_chunk_ms (resp_client_timing p) = Some (JNumber (Finite 1200)) \<and>
      duration_request_to_headers_ms (resp_client_timing p) = Some (JNumber (Finite 100)) \<and>
      duration_request_to_first_stream_chunk_ms (resp_client_timing p) = Some (JNumber (Finite 200)) \<and>
      duration_headers_to_first_stream_chunk_ms (resp_client_timing p) = Some (JNumber (Finite 100)) \<and>
      (duration_request_to_stop_ms (resp_client_timing p) = Some (JNumber (Finite 1200)) \<or>
       duration_request_to_stop_ms (resp_client_timing p) = Some (JNumber (Finite 1300)))) \<and>
   (\<exists>rec p.
      parseSseCloneAndEmitRecord example_platform example_decode example_clock headers_only_ctx True cut_reads Eof = Some rec \<and>
      rec_resp rec = Some p \<and>
      request_start_ms (resp_client_timing p) = None \<and>
      duration_request_to_headers_ms (resp_client_timing p) = None \<and>
      duration_request_to_first_stream_chunk_ms (resp_client_timing p) = None \<and>
      duration_request_to_stop_ms (resp_client_timing p) = None \<and>
      duration_headers_to_first_stream_chunk_ms (resp_client_timing p) = Some (JNumber (Finite 100)) \<and>
      duration_first_stream_chunk_to_stop_ms (resp_client_timing p) \<noteq> None \<and>
      duration_headers_to_stop_ms (resp_client_timing p) \<noteq> None)"
proof -
  have r: "rounded example_platform 100 = Finite 100" "rounded example_platform 200 = Finite 200"
    "rounded example_platform 1200 = Finite 1200" "rounded example_platform 1300 = Finite 1300"
    by (simp_all add: example_rounded)
  have w1: "\<exists>rec p.
      parseSseCloneAndEmitRecord example_platform example_decode example_clock example_ctx True cut_reads Eof = Some rec \<and>
      rec_resp rec = Some p \<and>
      request_start_ms (resp_client_timing p) = Some (JNumber (Finite 1000)) \<and>
      response_headers_ms (resp_client_timing p) = Some (JNumber (Finite 1100)) \<and>
      first_stream_chunk_ms (resp_client_timing p) = Some (JNumber (Finite 1200)) \<and>
      duration_request_to_headers_ms (resp_client_timing p) = Some (JNumber (Finite 100)) \<and>
      duration_request_to_first_stream_chunk_ms (resp_client_timing p) = Some (JNumber (Finite 200)) \<and>
      duration_headers_to_first_stream_chunk_ms (resp_client_timing p) = Some (JNumber (Finite 100)) \<and>
      (duration_request_to_stop_ms (resp_client_timing p) = Some (JNumber (Finite 1200)) \<or>
       duration_request_to_stop_ms (resp_client_timing p) = Some (JNumber (Finite 1300)))"
  proof -
    from example_cut_parse[of example_ctx] obtain rec where
      e: "parseSseCloneAndEmitRecord example_platform example_decode example_clock example_ctx True cut_reads Eof = Some rec"
      by blast
    from client_timing_deltas[OF e] obtain p stop where
      p: "rec_resp rec = Some p" and
      stop: "stop = now_stop_in_loop example_clock \<or> stop = now_stop_after_loop example_clock" and
      d: "let ct = resp_client_timing p;
          request = tc_request_start_ms (px_timing example_ctx);
          headers = tc_response_headers_ms (px_timing example_ctx);
          first = Some (now_first_chunk example_clock)
      in
      request_start_ms ct = num_leaf request \<and>
      response_headers_ms ct = num_leaf headers \<and>
      first_stream_chunk_ms ct = num_leaf first \<and>
      stop_chunk_ms ct = num_leaf (Some stop) \<and>
      delta_as_claimed example_platform request headers (duration_request_to_headers_ms ct) \<and>
      delta_as_claimed example_platform request first (duration_request_to_first_stream_chunk_ms ct) \<and>
      delta_as_claimed example_platform headers first (duration_headers_to_first_stream_chunk_ms ct) \<and>
      delta_as_claimed example_platform first (Some stop) (duration_first_stream_chunk_to_stop_ms ct) \<and>
      delta_as_claimed example_platform headers (Some stop) (duration_headers_to_stop_ms ct) \<and>
      delta_as_claimed example_platform request (Some stop) (duration_request_to_stop_ms ct)"
      by blast
    have m: "request_start_ms (resp_client_timing p) = Some (JNumber (Finite 1000))"
      "response_headers_ms (resp_client_timing p) = Some (JNumber (Finite 1100))"
      "first_stream_chunk_ms (resp_client_timing p) = Some (JNumber (Finite 1200))"
      "duration_request_to_headers_ms (resp_client_timing p) = Some (JNumber (Finite 100))"
      "duration_request_to_first_stream_chunk_ms (resp_client_timing p) = Some (JNumber (Finite 200))"
      "duration_headers_to_first_stream_chunk_ms (resp_client_timing p) = Some (JNumber (Finite 100))"
      using d by (simp_all add: Let_def example_ctx_def example_clock_def num_leaf_def r)
    have s: "duration_request_to_stop_ms (resp_client_timing p) = Some (JNumber (Finite 1200)) \<or>
       duration_request_to_stop_ms (resp_client_timing p) = Some (JNumber (Finite 1300))"
      using stop
    proof
      assume "stop = now_stop_in_loop example_clock"
      with d have "duration_request_to_stop_ms (resp_client_timing p) = Some (JNumber (Finite 1200))"
        by (simp add: Let_def example_ctx_def example_clock_def r)
      then show ?thesis ..
    next
      assume "stop = now_stop_after_loop example_clock"
      with d have "duration_request_to_stop_ms (resp_client_timing p) = Some (JNumber (Finite 1300))"
        by (simp add: Let_def example_ctx_def example_clock_def r)
      then show ?thesis ..
    qed
    show ?thesis
      by (rule exI[of _ rec], rule exI[of _ p]) (simp add: e p m s)
  qed
  have w2: "\<exists>rec p.
      parseSseCloneAndEmitRecord example_platform example_decode example_clock headers_only_ctx True cut_reads Eof = Some rec \<and>
      rec_resp rec = Some p \<and>
      request_start_ms (resp_client_timing p) = None \<and>
      duration_request_to_headers_ms (resp_client_timing p) = None \<and>
      duration_request_to_first_stream_chunk_ms (resp_client_timing p) = None \<and>
      duration_request_to_stop_ms (resp_client_timing p) = None \<and>
      duration_headers_to_first_stream_chunk_ms (resp_client_timing p) = Some (JNumber (Finite 100)) \<and>
      duration_first_stream_chunk_to_stop_ms (resp_client_timing p) \<noteq> None \<and>
      duration_headers_to_stop_ms (resp_client_timing p) \<noteq> None"
  proof -
    from example_cut_parse[of headers_only_ctx] obtain rec where
      e: "parseSseCloneAndEmitRecord example_platform example_decode example_clock headers_only_ctx True cut_reads Eof = Some rec"
      by blast
    from client_timing_deltas[OF e] obtain p stop where
      p: "rec_resp rec = Some p" and
      d: "let ct = resp_client_timing p;
          request = tc_request_start_ms (px_timing headers_only_ctx);
          headers = tc_response_headers_ms (px_timing headers_only_ctx);
          first = Some (now_first_chunk example_clock)
      in
      request_start_ms ct = num_leaf request \<and>
      response_headers_ms ct = num_leaf headers \<and>
      first_stream_chunk_ms ct = num_leaf first \<and>
      stop_chunk_ms ct = num_leaf (Some stop) \<and>
      delta_as_claimed example_platform request headers (duration_request_to_headers_ms ct) \<and>
      delta_as_claimed example_platform request first (duration_request_to_first_stream_chunk_ms ct) \<and>
      delta_as_claimed example_platform headers first (duration_headers_to_first_stream_chunk_ms ct) \<and>
      delta_as_claimed example_platform first (Some stop) (duration_first_stream_chunk_to_stop_ms ct) \<and>
      delta_as_claimed example_platform headers (Some stop) (duration_headers_to_stop_ms ct) \<and>
      delta_as_claimed example_platform request (Some stop) (duration_request_to_stop_ms ct)"
      by blast
    have m: "request_start_ms (resp_client_timing p) = None"
      "duration_request_to_headers_ms (resp_client_timing p) = None"
      "duration_request_to_first_stream_chunk_ms (resp_client_timing p) = None"
      "duration_request_to_stop_ms (resp_client_timing p) = None"
      "duration_headers_to_first_stream_chunk_ms (resp_client_timing p) = Some (JNumber (Finite 100))"
      "duration_first_stream_chunk_to_stop_ms (resp_client_timing p) \<noteq> None"
      "duration_headers_to_stop_ms (resp_client_timing p) \<noteq> None"
      using d by (simp_all add: Let_def headers_only_ctx_def example_clock_def num_leaf_def r)
    show ?thesis
      by (rule exI[of _ rec], rule exI[of _ p]) (simp add: e p m)
  qed
  show ?thesis
    by (intro conjI w1 w2)
qed

subsection \<open>The finish reason of the record\<close>





lemma example_done_parse:
  "\<exists>rec. parseSseCloneAndEmitRecord example_platform example_decode example_clock example_ctx True
           done_reads Eof = Some rec"
proof -
  have h: "passes False [Data chunk_text70]" "last_timed [Data chunk_text70] = Some chunk_text70"
    by (simp_all add: example_is_finish example_chunk_fields)
  from parse_done_fallback[OF h, of example_decode example_platform example_clock example_ctx]
  obtain rec where
    "\<forall>reads ending post. stream_events example_decode reads = [Data chunk_text70] @ Done # post \<longrightarrow>
       parseSseCloneAndEmitRecord example_platform example_decode example_clock example_ctx True reads ending = Some rec"
    by blast
  moreover have "stream_events example_decode done_reads = [Data chunk_text70] @ Done # []"
    by (simp add: example_events)
  ultimately show ?thesis
    by blast
qed




subsection \<open>The reasoning and content split\<close>

lemma math_round_nonneg: "0 \<le> x \<Longrightarrow> 0 \<le> math_round x"
  by (simp add: math_round_def)

lemma MAX_VALUE_pos: "0 < MAX_VALUE"
proof -
  have "(0::rat) < 2 ^ 53" by simp
  also note MAX_VALUE_large
  finally show ?thesis .
qed

lemma rounded_not_negative: "0 \<le> fl pf x \<Longrightarrow> not_negative (rounded pf x)"
  using MAX_VALUE_pos by (simp add: rounded_def Let_def)

lemma math_max0_not_negative: "math_max0 n = NaN \<or> not_negative (math_max0 n)"
  by (cases n) simp_all

lemma roundMs_not_number: "\<not> is_number x \<Longrightarrow> roundMs pf x = None"
  by (auto simp: roundMs_def is_number_def split: option.splits jsval.splits)

lemma roundMs_Finite:
  "roundMs pf (Some (JNumber (Finite v))) =
     Some (JNumber (num_over pf (num_round (num_times pf (Finite v) 1000)) 1000))"
  by (simp add: roundMs_def)

lemma roundMs_not_finite:
  "roundMs pf (Some (JNumber PosInf)) = None" "roundMs pf (Some (JNumber NegInf)) = None"
  "roundMs pf (Some (JNumber NaN)) = None" "roundMs pf None = None"
  by (simp_all add: roundMs_def)

lemma roundMs_not_negative:
  assumes "\<forall>x. 0 \<le> x \<longrightarrow> 0 \<le> fl pf x" and "not_negative n"
      and "roundMs pf (Some (JNumber n)) = Some v"
  shows "\<exists>m. v = JNumber m \<and> not_negative m"
proof (cases n)
  case (Finite x)
  with assms(2) have x: "0 \<le> x" by simp
  then have "0 \<le> fl pf (x * 1000)"
    using assms(1) by simp
  then have a: "not_negative (rounded pf (x * 1000))"
    by (rule rounded_not_negative)
  have b: "not_negative (num_round (rounded pf (x * 1000)))"
    using a by (cases "rounded pf (x * 1000)") (simp_all add: math_round_nonneg)
  have c: "not_negative (num_over pf (num_round (rounded pf (x * 1000))) 1000)"
  proof (cases "num_round (rounded pf (x * 1000))")
    case f: (Finite y)
    with b have "0 \<le> y / 1000" by simp
    then have "0 \<le> fl pf (y / 1000)"
      using assms(1) by blast
    then show ?thesis
      using f by (simp add: rounded_not_negative)
  qed (use b in simp_all)
  show ?thesis
    using assms(3) c Finite by (auto simp: roundMs_Finite)
qed (use assms in \<open>simp_all add: roundMs_not_finite\<close>)

text \<open>The fields of the split.\<close>

lemma build_derived_None:
  "reasoning_n (build_derived pf None lt) = Some (JNumber (Finite 0))"
  "reasoning_ms (build_derived pf None lt) = Some (JNumber (Finite 0))"
  "content_n (build_derived pf None lt) = (if is_number (t_predicted_n lt) then t_predicted_n lt else None)"
  "content_ms (build_derived pf None lt) = roundMs pf (t_predicted_ms lt)"
  by (simp_all add: build_derived_def Let_def roundMs_not_number)

lemma build_derived_Some:
  "reasoning_n (build_derived pf (Some b) lt) = Some (nullish_or (rb_predicted_n b) (JNumber (Finite 0)))"
  "reasoning_ms (build_derived pf (Some b) lt) =
     roundMs pf (Some (nullish_or (rb_predicted_ms b) (JNumber (Finite 0))))"
  "content_n (build_derived pf (Some b) lt) =
     (case t_predicted_n lt of
        Some (JNumber t) \<Rightarrow>
          Some (JNumber (math_max0 (num_sub pf t (ToNumber pf (nullish_or (rb_predicted_n b) (JNumber (Finite 0)))))))
      | _ \<Rightarrow> None)"
  "content_ms (build_derived pf (Some b) lt) =
     roundMs pf
       (case t_predicted_ms lt of
          Some (JNumber t) \<Rightarrow>
            Some (JNumber (math_max0 (num_sub pf t (ToNumber pf (nullish_or (rb_predicted_ms b) (JNumber (Finite 0)))))))
        | _ \<Rightarrow> None)"
  by (simp_all add: build_derived_def Let_def)

lemma build_derived_as_code: "split_as_code pf rb lt (build_derived pf rb lt)"
proof (cases rb)
  case None
  then show ?thesis
    by (simp add: build_derived_None)
next
  case (Some b)
  define rn where "rn = nullish_or (rb_predicted_n b) (JNumber (Finite 0))"
  define rms where "rms = nullish_or (rb_predicted_ms b) (JNumber (Finite 0))"
  note f = build_derived_Some[of pf b lt, folded rn_def rms_def]
  have 1: "\<not> is_number (t_predicted_n lt) \<longrightarrow> content_n (build_derived pf (Some b) lt) = None"
    unfolding f by (auto simp: is_number_def split: option.splits jsval.splits)
  have 2: "\<not> is_number (t_predicted_ms lt) \<longrightarrow> content_ms (build_derived pf (Some b) lt) = None"
    unfolding f by (auto simp: is_number_def roundMs_not_finite split: option.splits jsval.splits)
  have 3: "\<forall>t r. t_predicted_n lt = Some (JNumber (Finite t)) \<and>
               reasoning_n (build_derived pf (Some b) lt) = Some (JNumber (Finite r)) \<and>
               rounded pf (t - r) = Finite (t - r) \<longrightarrow>
               content_n (build_derived pf (Some b) lt) = Some (JNumber (Finite (max 0 (t - r))))"
    unfolding f by simp
  have 4: "\<forall>t r. t_predicted_ms lt = Some (JNumber (Finite t)) \<and> rms = JNumber (Finite r) \<longrightarrow>
               content_ms (build_derived pf (Some b) lt) =
                 roundMs pf (Some (JNumber (math_max0 (rounded pf (t - r)))))"
    unfolding f by simp
  have 5: "\<forall>v. content_n (build_derived pf (Some b) lt) = Some v \<longrightarrow>
             (\<exists>n. v = JNumber n \<and> (n = NaN \<or> not_negative n))"
    unfolding f using math_max0_not_negative
    by (auto split: option.splits jsval.splits)
  have 6: "(\<forall>x. 0 \<le> x \<longrightarrow> 0 \<le> fl pf x) \<longrightarrow>
           (\<forall>v. content_ms (build_derived pf (Some b) lt) = Some v \<longrightarrow>
              (\<exists>n. v = JNumber n \<and> not_negative n))"
  proof (intro impI allI)
    fix v
    assume sg: "\<forall>x. 0 \<le> x \<longrightarrow> 0 \<le> fl pf x"
    assume c: "content_ms (build_derived pf (Some b) lt) = Some v"
    show "\<exists>n. v = JNumber n \<and> not_negative n"
    proof (cases "t_predicted_ms lt")
      case None
      with c show ?thesis
        unfolding f by (simp add: roundMs_not_finite)
    next
      case s: (Some tv)
      show ?thesis
      proof (cases tv)
        case (JNumber t)
        define m where "m = math_max0 (num_sub pf t (ToNumber pf rms))"
        from c have r: "roundMs pf (Some (JNumber m)) = Some v"
          unfolding f by (simp add: s JNumber m_def)
        from math_max0_not_negative[of "num_sub pf t (ToNumber pf rms)"]
        have "m = NaN \<or> not_negative m"
          by (simp add: m_def)
        then show ?thesis
        proof
          assume "m = NaN"
          with r show ?thesis by (simp add: roundMs_not_finite)
        next
          assume "not_negative m"
          from roundMs_not_negative[OF sg this r] show ?thesis .
        qed
      qed (use c s in \<open>simp_all add: f roundMs_not_finite\<close>)
    qed
  qed
  show ?thesis
    unfolding Some
    using 1 2 3 4[unfolded rms_def] 5 6 by (simp add: build_derived_Some(1,2))
qed

text \<open>
  Claim C2, as the code has it. Every emitted record has the timings \<open>lt\<close> of a chunk
  of the stream (its terminal chunk) and possibly a reasoning boundary \<open>rb\<close>: the
  \<^verbatim>\<open>predicted_n\<close> and \<^verbatim>\<open>predicted_ms\<close> of a chunk of the stream that carried reasoning
  content and timings. There is none when no chunk carried reasoning content. The record
  has a phase boundary exactly when there is a reasoning boundary; its
  \<^verbatim>\<open>timings.predicted_n\<close> is that of \<open>lt\<close> as the chunk carried it, its
  \<^verbatim>\<open>timings.predicted_ms\<close> is the \<^verbatim>\<open>roundMs\<close> of that of \<open>lt\<close>; and its split is what
  \<open>split_as_code\<close> says.
\<close>

theorem derived_split:
  assumes "parseSseCloneAndEmitRecord pf decode clk ctx isSse reads ending = Some rec"
  shows "\<exists>p lt rb. rec_resp rec = Some p \<and>
     list_ex (\<lambda>c. ch_timings c = Some lt) (chunks_of (stream_events decode reads)) \<and>
     (case rb of
        None \<Rightarrow> True
      | Some b \<Rightarrow>
          list_ex (\<lambda>c. ch_delta_reasoning_content c \<noteq> None \<and>
                        (case ch_timings c of
                           None \<Rightarrow> False
                         | Some t \<Rightarrow> b = \<lparr>rb_predicted_n = t_predicted_n t,
                                           rb_predicted_ms = t_predicted_ms t\<rparr>))
            (chunks_of (stream_events decode reads))) \<and>
     (no_reasoning (stream_events decode reads) \<longrightarrow> rb = None) \<and>
     (resp_phase_boundary p = None) = (rb = None) \<and>
     predicted_n (resp_timings p) = t_predicted_n lt \<and>
     predicted_ms (resp_timings p) = roundMs pf (t_predicted_ms lt) \<and>
     split_as_code pf rb lt (resp_derived p)"
proof -
  define evs where "evs = stream_events decode reads"
  from parse_emits[OF assms] obtain s lt c where
    rec: "rec = build_record pf clk ctx s lt" and
    c: "c \<in> set (chunks_of evs)" "ch_timings c = Some lt" and
    bo: "boundary_ok evs s"
    unfolding evs_def by blast
  define rb where "rb = reasoningBoundary s"
  from build_record_resp[of pf clk ctx s lt] obtain p where
    p: "rec_resp (build_record pf clk ctx s lt) = Some p" and
    tm: "resp_timings p = build_timings pf lt" and
    d: "resp_derived p = build_derived pf rb lt" and
    pb: "resp_phase_boundary p =
         (case rb of
            None \<Rightarrow> None
          | Some b \<Rightarrow> Some \<lparr> reasoning_final_predicted_n = rb_predicted_n b,
                            reasoning_final_predicted_ms = roundMs pf (rb_predicted_ms b) \<rparr>)"
    unfolding rb_def by blast
  have 1: "list_ex (\<lambda>c. ch_timings c = Some lt) (chunks_of evs)"
    unfolding list_ex_iff using c by blast
  have 2: "case rb of
        None \<Rightarrow> True
      | Some b \<Rightarrow>
          list_ex (\<lambda>c. ch_delta_reasoning_content c \<noteq> None \<and>
                        (case ch_timings c of
                           None \<Rightarrow> False
                         | Some t \<Rightarrow> b = \<lparr>rb_predicted_n = t_predicted_n t,
                                           rb_predicted_ms = t_predicted_ms t\<rparr>))
            (chunks_of evs)"
    using bo unfolding boundary_ok_def rb_def .
  have 3: "no_reasoning evs \<longrightarrow> rb = None"
  proof
    assume n: "no_reasoning evs"
    show "rb = None"
    proof (cases rb)
      case (Some b)
      with 2 obtain c' where "c' \<in> set (chunks_of evs)" "ch_delta_reasoning_content c' \<noteq> None"
        by (auto simp: list_ex_iff)
      with n show ?thesis
        by (auto simp: no_reasoning_def list_all_iff)
    qed simp
  qed
  have 4: "(resp_phase_boundary p = None) = (rb = None)"
    unfolding pb by (cases rb) simp_all
  have 5: "predicted_n (resp_timings p) = t_predicted_n lt"
    "predicted_ms (resp_timings p) = roundMs pf (t_predicted_ms lt)"
    unfolding tm by (simp_all add: build_timings_def)
  note 6 = build_derived_as_code[where pf = pf and rb = rb and lt = lt, folded d]
  show ?thesis
    apply (rule exI[of _ p], rule exI[of _ lt], rule exI[of _ rb])
    unfolding evs_def[symmetric]
    using p rec 1 2 3 4 5 6 by simp
qed

lemma example_reasoning_fields:
  "ch_delta_reasoning_content chunk_think30 = Some ''hm''"
  "ch_delta_reasoning_content chunk_think50 = Some ''hm''"
  "ch_delta_reasoning_content chunk_text70 = None"
  "ch_delta_reasoning_content chunk_stop100 = None"
  "ch_delta_reasoning_content chunk_stop30 = None"
  by (simp_all add: chunk_think30_def chunk_think50_def chunk_text70_def chunk_stop100_def
      chunk_stop30_def example_chunk_def)

lemma example_timings_n:
  "t_predicted_n (example_timings n ms) = Some (JNumber (Finite n))"
  "t_predicted_ms (example_timings n ms) = Some (JNumber (Finite ms))"
  by (simp_all add: example_timings_def num_leaf_def)

theorem derived_split_witness:
  "(\<exists>rec p r c.
      parseSseCloneAndEmitRecord example_platform example_decode example_clock example_ctx True cut_reads Eof = Some rec \<and>
      rec_resp rec = Some p \<and>
      predicted_n (resp_timings p) = Some (JNumber (Finite 100)) \<and>
      reasoning_n (resp_derived p) = Some (JNumber (Finite r)) \<and>
      content_n (resp_derived p) = Some (JNumber (Finite c)) \<and>
      r + c = 100 \<and> 0 \<le> c) \<and>
   (\<exists>rec p.
      parseSseCloneAndEmitRecord example_platform example_decode example_clock example_ctx True done_reads Eof = Some rec \<and>
      rec_resp rec = Some p \<and>
      predicted_n (resp_timings p) = Some (JNumber (Finite 70)) \<and>
      reasoning_n (resp_derived p) = Some (JNumber (Finite 0)) \<and>
      reasoning_ms (resp_derived p) = Some (JNumber (Finite 0)) \<and>
      content_n (resp_derived p) = predicted_n (resp_timings p) \<and>
      content_ms (resp_derived p) = predicted_ms (resp_timings p))"
proof -
  have w1: "\<exists>rec p r c.
      parseSseCloneAndEmitRecord example_platform example_decode example_clock example_ctx True cut_reads Eof = Some rec \<and>
      rec_resp rec = Some p \<and>
      predicted_n (resp_timings p) = Some (JNumber (Finite 100)) \<and>
      reasoning_n (resp_derived p) = Some (JNumber (Finite r)) \<and>
      content_n (resp_derived p) = Some (JNumber (Finite c)) \<and>
      r + c = 100 \<and> 0 \<le> c"
  proof -
    from parse_terminal_chunk[of "[Data chunk_think30]" chunk_stop100 "example_timings 100 1000"
        example_decode example_platform example_clock example_ctx]
    obtain rec p0 where
      a: "\<forall>reads ending post. stream_events example_decode reads = [Data chunk_think30] @ Data chunk_stop100 # post \<longrightarrow>
         parseSseCloneAndEmitRecord example_platform example_decode example_clock example_ctx True reads ending = Some rec"
         "rec_resp rec = Some p0"
         "resp_timings p0 = build_timings example_platform (example_timings 100 1000)"
      by (auto simp: example_is_finish example_chunk_fields)
    have "stream_events example_decode cut_reads = [Data chunk_think30] @ Data chunk_stop100 # []"
      by (simp add: example_events)
    with a(1) have e: "parseSseCloneAndEmitRecord example_platform example_decode example_clock example_ctx True cut_reads Eof = Some rec"
      by blast
    from derived_split[OF e] obtain p lt rb where
      p: "rec_resp rec = Some p" and
      lt: "list_ex (\<lambda>c. ch_timings c = Some lt) (chunks_of (stream_events example_decode cut_reads))" and
      rb: "case rb of
        None \<Rightarrow> True
      | Some b \<Rightarrow>
          list_ex (\<lambda>c. ch_delta_reasoning_content c \<noteq> None \<and>
                        (case ch_timings c of
                           None \<Rightarrow> False
                         | Some t \<Rightarrow> b = \<lparr>rb_predicted_n = t_predicted_n t,
                                           rb_predicted_ms = t_predicted_ms t\<rparr>))
            (chunks_of (stream_events example_decode cut_reads))" and
      n: "predicted_n (resp_timings p) = t_predicted_n lt" and
      sp: "split_as_code example_platform rb lt (resp_derived p)"
      by blast
    from p a(2) have pp: "p = p0" by simp
    have pn: "predicted_n (resp_timings p) = Some (JNumber (Finite 100))"
      unfolding pp a(3) by (simp add: build_timings_def example_timings_n)
    with n have tn: "t_predicted_n lt = Some (JNumber (Finite 100))"
      by simp
    have "\<exists>r c. reasoning_n (resp_derived p) = Some (JNumber (Finite r)) \<and>
            content_n (resp_derived p) = Some (JNumber (Finite c)) \<and> r + c = 100 \<and> 0 \<le> c"
    proof (cases rb)
      case None
      with sp tn have "reasoning_n (resp_derived p) = Some (JNumber (Finite 0))"
        "content_n (resp_derived p) = Some (JNumber (Finite 100))"
        by (simp_all add: is_number_def)
      then show ?thesis by simp
    next
      case (Some b)
      with rb have b: "b = \<lparr>rb_predicted_n = Some (JNumber (Finite 30)),
                            rb_predicted_ms = Some (JNumber (Finite 300))\<rparr>"
        by (simp add: example_events example_chunk_fields example_reasoning_fields example_timings_n)
      from sp Some have
        rn: "reasoning_n (resp_derived p) = Some (nullish_or (rb_predicted_n b) (JNumber (Finite 0)))" and
        ex: "\<forall>t r. t_predicted_n lt = Some (JNumber (Finite t)) \<and>
               reasoning_n (resp_derived p) = Some (JNumber (Finite r)) \<and>
               rounded example_platform (t - r) = Finite (t - r) \<longrightarrow>
               content_n (resp_derived p) = Some (JNumber (Finite (max 0 (t - r))))"
        by simp_all
      have rn': "reasoning_n (resp_derived p) = Some (JNumber (Finite 30))"
        unfolding rn b by (simp add: nullish_or_def)
      have "rounded example_platform (100 - 30) = Finite (100 - 30)"
        by (rule example_rounded) simp
      with ex tn rn' have "content_n (resp_derived p) = Some (JNumber (Finite (max 0 (100 - 30))))"
        by blast
      with rn' show ?thesis by simp
    qed
    then obtain r c where
      "reasoning_n (resp_derived p) = Some (JNumber (Finite r))"
      "content_n (resp_derived p) = Some (JNumber (Finite c))" "r + c = 100" "0 \<le> c"
      by blast
    with e p pn show ?thesis
      by blast
  qed
  have w2: "\<exists>rec p.
      parseSseCloneAndEmitRecord example_platform example_decode example_clock example_ctx True done_reads Eof = Some rec \<and>
      rec_resp rec = Some p \<and>
      predicted_n (resp_timings p) = Some (JNumber (Finite 70)) \<and>
      reasoning_n (resp_derived p) = Some (JNumber (Finite 0)) \<and>
      reasoning_ms (resp_derived p) = Some (JNumber (Finite 0)) \<and>
      content_n (resp_derived p) = predicted_n (resp_timings p) \<and>
      content_ms (resp_derived p) = predicted_ms (resp_timings p)"
  proof -
    from example_done_parse obtain rec where
      e: "parseSseCloneAndEmitRecord example_platform example_decode example_clock example_ctx True done_reads Eof = Some rec"
      by blast
    have nr: "no_reasoning (stream_events example_decode done_reads)"
      by (simp add: no_reasoning_def example_events example_reasoning_fields)
    from derived_split[OF e] nr obtain p lt where
      p: "rec_resp rec = Some p" and
      lt: "list_ex (\<lambda>c. ch_timings c = Some lt) (chunks_of (stream_events example_decode done_reads))" and
      n: "predicted_n (resp_timings p) = t_predicted_n lt"
         "predicted_ms (resp_timings p) = roundMs example_platform (t_predicted_ms lt)" and
      sp: "split_as_code example_platform None lt (resp_derived p)"
      by blast
    from lt have l: "lt = example_timings 70 700"
      by (simp add: example_events example_chunk_fields)
    have m: "predicted_n (resp_timings p) = Some (JNumber (Finite 70))"
      "reasoning_n (resp_derived p) = Some (JNumber (Finite 0))"
      "reasoning_ms (resp_derived p) = Some (JNumber (Finite 0))"
      "content_n (resp_derived p) = predicted_n (resp_timings p)"
      "content_ms (resp_derived p) = predicted_ms (resp_timings p)"
      using sp n by (simp_all add: l example_timings_n is_number_def)
    show ?thesis
      by (rule exI[of _ rec], rule exI[of _ p]) (simp add: e p m)
  qed
  show ?thesis
    by (intro conjI w1 w2)
qed

text \<open>
  Claim C2 as stated fails when the reasoning boundary lies beyond the total of the
  terminal chunk: a reasoning chunk at 50 predicted tokens followed by a stop chunk at
  30 gives a record with \<open>reasoning_n = 50\<close>, \<open>content_n = 0\<close> and \<open>predicted_n = 30\<close>.
\<close>

theorem split_beyond_total_counterexample:
  "split_n (parseSseCloneAndEmitRecord example_platform example_decode example_clock example_ctx True
      regress_reads Eof) =
     Some (Some (JNumber (Finite 50)), Some (JNumber (Finite 0)), Some (JNumber (Finite 30)))"
proof -
  define s0 where "s0 = init_pstate\<lparr>firstStreamChunkAtMs := Some (now_first_chunk example_clock)\<rparr>"
  define s1 where "s1 = absorb s0 chunk_think50"
  define s2 where "s2 = (absorb s1 chunk_stop30)\<lparr> stopChunk := Some chunk_stop30,
      lastTimingsAtStop := ch_timings chunk_stop30, stopFinishReason := ch_finish_reason chunk_stop30,
      stopChunkAtMs := Some (now_stop_in_loop example_clock) \<rparr>"
  have r: "run_events example_clock s0 [Data chunk_think50] = (False, s1)"
    by (simp add: process_chunk_pass example_is_finish s1_def)
  have st: "step_event example_clock s1 (Data chunk_stop30) = (True, s2)"
    by (simp add: process_chunk_finish example_is_finish s2_def)
  have ev: "stream_events example_decode regress_reads = [Data chunk_think50] @ Data chunk_stop30 # []"
    by (simp add: example_events)
  have f: "stopChunk s2 = Some chunk_stop30" "lastTimingsAtStop s2 = Some (example_timings 30 300)"
    by (simp_all add: s2_def example_chunk_fields)
  have b: "reasoningBoundary s2 = Some \<lparr>rb_predicted_n = Some (JNumber (Finite 50)),
                                        rb_predicted_ms = Some (JNumber (Finite 500))\<rparr>"
    by (simp add: s2_def s1_def absorb_reasoningBoundary example_reasoning_fields example_chunk_fields
        example_timings_n)
  have e: "parseSseCloneAndEmitRecord example_platform example_decode example_clock example_ctx True
      regress_reads Eof = Some (build_record example_platform example_clock example_ctx s2 (example_timings 30 300))"
    using parse_stops_at[OF ev r[unfolded s0_def] st, of example_platform example_ctx Eof]
      emit_stopped[OF f, of example_platform example_clock example_ctx] by simp
  from build_record_resp[of example_platform example_clock example_ctx s2 "example_timings 30 300"]
  obtain p where
    p: "rec_resp (build_record example_platform example_clock example_ctx s2 (example_timings 30 300)) = Some p"
       "resp_timings p = build_timings example_platform (example_timings 30 300)"
       "resp_derived p = build_derived example_platform (reasoningBoundary s2) (example_timings 30 300)"
    by blast
  have rd: "rounded example_platform (30 - 50) = Finite (30 - 50)"
    by (rule example_rounded) simp
  have d: "reasoning_n (resp_derived p) = Some (JNumber (Finite 50))"
    "content_n (resp_derived p) = Some (JNumber (Finite 0))"
    "predicted_n (resp_timings p) = Some (JNumber (Finite 30))"
    using rd unfolding p(2,3) b
    by (simp_all add: build_derived_Some build_timings_def example_timings_n nullish_or_def)
  show ?thesis
    unfolding e split_n_def using p(1) d by simp
qed

section \<open>Storing a record: what changes\<close>

lemma assign_frame:
  "snd (assignChainMetadata env store r sndr) =
     r\<lparr> chain_id := chain_id (snd (assignChainMetadata env store r sndr)),
        turn_number := turn_number (snd (assignChainMetadata env store r sndr)) \<rparr> \<and>
   chain_id (snd (assignChainMetadata env store r sndr)) \<noteq> None \<and>
   turn_number (snd (assignChainMetadata env store r sndr)) \<noteq> None"
  by (simp add: assignChainMetadata_def Let_def)

lemma addRecord_cases:
  "addRecord sid now fault env store r sndr =
     (if tab_id sndr = None \<or> fault = No_fault
      then assignChainMetadata env store
             (r\<lparr> session_id := Some sid,
                 captured_at_ms := (if truthy_num (captured_at_ms r) then captured_at_ms r else Some now) \<rparr>) sndr
      else if fault = Get_rejects
      then (store, r\<lparr> session_id := Some sid,
                 captured_at_ms := (if truthy_num (captured_at_ms r) then captured_at_ms r else Some now) \<rparr>)
      else (store, snd (assignChainMetadata env store
             (r\<lparr> session_id := Some sid,
                 captured_at_ms := (if truthy_num (captured_at_ms r) then captured_at_ms r else Some now) \<rparr>) sndr)))"
  by (cases fault) (simp_all add: addRecord_def Let_def)

text \<open>
  Claim C8, as the code has it. \<^verbatim>\<open>addRecord\<close> leaves every field of the record as
  the parser emitted it, but for four: it sets \<^verbatim>\<open>session_id\<close> to the active session,
  it keeps \<^verbatim>\<open>captured_at_ms\<close> when that is a number other than 0 and sets it to the
  current time otherwise, and \<^verbatim>\<open>chain_id\<close> and \<^verbatim>\<open>turn_number\<close> hold what the one
  call of \<^verbatim>\<open>assignChainMetadata\<close> assigns to the record so stamped; unless the
  sender has a tab and the read of the tab's chain state rejects: then the two chain
  fields stay as the parser left them. When the read or the write of the chain state
  rejects, the chain store is as before the call. The correlator itself changes no
  field but these two.
\<close>

theorem addRecord_frame:
  "\<exists>c n.
     Some c = chain_id (snd (assignChainMetadata env store
                (r\<lparr> session_id := Some sid,
                    captured_at_ms := (if truthy_num (captured_at_ms r) then captured_at_ms r else Some now) \<rparr>)
                sndr)) \<and>
     Some n = turn_number (snd (assignChainMetadata env store
                (r\<lparr> session_id := Some sid,
                    captured_at_ms := (if truthy_num (captured_at_ms r) then captured_at_ms r else Some now) \<rparr>)
                sndr)) \<and>
     snd (addRecord sid now fault env store r sndr) =
       (if tab_id sndr \<noteq> None \<and> fault = Get_rejects
        then r\<lparr> session_id := Some sid,
                captured_at_ms := (if truthy_num (captured_at_ms r) then captured_at_ms r else Some now) \<rparr>
        else r\<lparr> session_id := Some sid,
                captured_at_ms := (if truthy_num (captured_at_ms r) then captured_at_ms r else Some now),
                chain_id := Some c, turn_number := Some n \<rparr>) \<and>
     fst (addRecord sid now fault env store r sndr) =
       (if tab_id sndr \<noteq> None \<and> fault \<noteq> No_fault then store
        else fst (assignChainMetadata env store
                (r\<lparr> session_id := Some sid,
                    captured_at_ms := (if truthy_num (captured_at_ms r) then captured_at_ms r else Some now) \<rparr>)
                sndr)) \<and>
     snd (assignChainMetadata env store r sndr) =
       r\<lparr> chain_id := chain_id (snd (assignChainMetadata env store r sndr)),
          turn_number := turn_number (snd (assignChainMetadata env store r sndr)) \<rparr>"
proof -
  define r2 where "r2 = r\<lparr> session_id := Some sid,
          captured_at_ms := (if truthy_num (captured_at_ms r) then captured_at_ms r else Some now) \<rparr>"
  note a = addRecord_cases[where sid = sid and now = now and fault = fault and env = env
      and store = store and r = r and sndr = sndr, folded r2_def]
  note f = assign_frame[of env store r2 sndr]
  from f obtain c where c: "chain_id (snd (assignChainMetadata env store r2 sndr)) = Some c"
    by (cases "chain_id (snd (assignChainMetadata env store r2 sndr))") simp_all
  from f obtain n where n: "turn_number (snd (assignChainMetadata env store r2 sndr)) = Some n"
    by (cases "turn_number (snd (assignChainMetadata env store r2 sndr))") simp_all
  have e: "snd (assignChainMetadata env store r2 sndr) = r2\<lparr>chain_id := Some c, turn_number := Some n\<rparr>"
    using f[THEN conjunct1] unfolding c n .
  have s: "snd (addRecord sid now fault env store r sndr) =
       (if tab_id sndr \<noteq> None \<and> fault = Get_rejects then r2
        else r2\<lparr>chain_id := Some c, turn_number := Some n\<rparr>)"
    unfolding a using e by (cases fault) simp_all
  have t: "fst (addRecord sid now fault env store r sndr) =
       (if tab_id sndr \<noteq> None \<and> fault \<noteq> No_fault then store
        else fst (assignChainMetadata env store r2 sndr))"
    unfolding a by (cases fault) simp_all
  have g: "r2\<lparr>chain_id := Some c, turn_number := Some n\<rparr> =
      r\<lparr> session_id := Some sid,
         captured_at_ms := (if truthy_num (captured_at_ms r) then captured_at_ms r else Some now),
         chain_id := Some c, turn_number := Some n \<rparr>"
    by (simp add: r2_def)
  show ?thesis
    apply (rule exI[of _ c], rule exI[of _ n])
    unfolding r2_def[symmetric] c n
    using s t assign_frame[of env store r sndr, THEN conjunct1] unfolding g[symmetric]
    by simp
qed

lemma example_stamped:
  "first_turn_record\<lparr> session_id := Some ''s-1'',
      captured_at_ms := (if truthy_num (captured_at_ms first_turn_record)
                         then captured_at_ms first_turn_record else Some 5000) \<rparr> =
   first_turn_record\<lparr>session_id := Some ''s-1''\<rparr>"
  by (simp add: first_turn_record_def example_record_def truthy_num_def)

lemma example_assigned:
  "chain_id (snd (assignChainMetadata env_a Map.empty
      (first_turn_record\<lparr>session_id := Some ''s-1''\<rparr>) tab_sender))
     = Some (makeChainId ''1000000'' ''aaaaaaaa'')"
  "turn_number (snd (assignChainMetadata env_a Map.empty
      (first_turn_record\<lparr>session_id := Some ''s-1''\<rparr>) tab_sender))
     = Some 1"
  by (simp_all add: assignChainMetadata_def Let_def getTabChainState_def tab_sender_def
      shouldRotateChain_def env_a_def truthy_str_def)

theorem addRecord_frame_witness:
  "snd (addRecord ''s-1'' 5000 No_fault env_a Map.empty first_turn_record tab_sender) =
     first_turn_record\<lparr> session_id := Some ''s-1'',
        chain_id := Some (makeChainId ''1000000'' ''aaaaaaaa''), turn_number := Some 1 \<rparr> \<and>
   snd (addRecord ''s-1'' 5000 Set_rejects env_a Map.empty first_turn_record tab_sender) =
     first_turn_record\<lparr> session_id := Some ''s-1'',
        chain_id := Some (makeChainId ''1000000'' ''aaaaaaaa''), turn_number := Some 1 \<rparr> \<and>
   fst (addRecord ''s-1'' 5000 Set_rejects env_a Map.empty first_turn_record tab_sender) = Map.empty \<and>
   snd (addRecord ''s-1'' 5000 Get_rejects env_a Map.empty first_turn_record tab_sender) =
     first_turn_record\<lparr> session_id := Some ''s-1'' \<rparr> \<and>
   fst (addRecord ''s-1'' 5000 Get_rejects env_a Map.empty first_turn_record tab_sender) = Map.empty"
proof -
  have t: "tab_id tab_sender \<noteq> None"
    by (simp add: tab_sender_def)
  have k: "first_turn_record\<lparr> session_id := Some ''s-1'',
      captured_at_ms := (if truthy_num (captured_at_ms first_turn_record)
                         then captured_at_ms first_turn_record else Some 5000),
      chain_id := Some c, turn_number := Some n \<rparr> =
     first_turn_record\<lparr>session_id := Some ''s-1'', chain_id := Some c, turn_number := Some n\<rparr>" for c n
    by (simp add: first_turn_record_def example_record_def truthy_num_def)
  have 1: "snd (addRecord ''s-1'' 5000 No_fault env_a Map.empty first_turn_record tab_sender) =
     first_turn_record\<lparr> session_id := Some ''s-1'',
        chain_id := Some (makeChainId ''1000000'' ''aaaaaaaa''), turn_number := Some 1 \<rparr>"
    using addRecord_frame[where env = env_a and store = Map.empty and r = first_turn_record
        and sid = "''s-1''" and now = 5000 and sndr = tab_sender and fault = No_fault]
    unfolding example_stamped example_assigned k by auto
  have 2: "snd (addRecord ''s-1'' 5000 Set_rejects env_a Map.empty first_turn_record tab_sender) =
     first_turn_record\<lparr> session_id := Some ''s-1'',
        chain_id := Some (makeChainId ''1000000'' ''aaaaaaaa''), turn_number := Some 1 \<rparr> \<and>
     fst (addRecord ''s-1'' 5000 Set_rejects env_a Map.empty first_turn_record tab_sender) = Map.empty"
    using addRecord_frame[where env = env_a and store = Map.empty and r = first_turn_record
        and sid = "''s-1''" and now = 5000 and sndr = tab_sender and fault = Set_rejects] t
    unfolding example_stamped example_assigned k by auto
  have 3: "snd (addRecord ''s-1'' 5000 Get_rejects env_a Map.empty first_turn_record tab_sender) =
     first_turn_record\<lparr> session_id := Some ''s-1'' \<rparr> \<and>
     fst (addRecord ''s-1'' 5000 Get_rejects env_a Map.empty first_turn_record tab_sender) = Map.empty"
    using addRecord_frame[where env = env_a and store = Map.empty and r = first_turn_record
        and sid = "''s-1''" and now = 5000 and sndr = tab_sender and fault = Get_rejects] t
    unfolding example_stamped example_assigned k by auto
  show ?thesis
    using 1 2 3 by blast
qed

text \<open>
  Claim C8 as stated fails for \<^verbatim>\<open>session_id\<close>: the record that the parser emits has
  none, the record that \<^verbatim>\<open>addRecord\<close> stores has the active session's. And the
  chain fields are not written at all when the read of the tab's chain state rejects.
\<close>

theorem session_id_written_counterexample:
  "Option.bind (parseSseCloneAndEmitRecord example_platform example_decode example_clock example_ctx True
      cut_reads Eof) session_id = None \<and>
   Option.bind
     (stored_of No_fault (parseSseCloneAndEmitRecord example_platform example_decode example_clock
        example_ctx True cut_reads Eof))
      session_id = Some ''s-1'' \<and>
   Option.bind
     (stored_of Get_rejects (parseSseCloneAndEmitRecord example_platform example_decode example_clock
        example_ctx True cut_reads Eof))
      chain_id = None"
proof -
  from example_cut_parse obtain rec where
    e0: "parseSseCloneAndEmitRecord example_platform example_decode example_clock example_ctx True cut_reads Eof
         = Some rec"
    by blast
  from parse_emits[OF e0] obtain s lt where
    "rec = build_record example_platform example_clock example_ctx s lt"
    by blast
  with e0 have
    e: "parseSseCloneAndEmitRecord example_platform example_decode example_clock example_ctx True cut_reads Eof
         = Some (build_record example_platform example_clock example_ctx s lt)"
    by simp
  have 1: "session_id (build_record example_platform example_clock example_ctx s lt) = None"
    "chain_id (build_record example_platform example_clock example_ctx s lt) = None"
    by (simp_all add: build_record_def Let_def)
  have 2: "session_id (snd (addRecord ''s-1'' 5000 No_fault env_a Map.empty
        (build_record example_platform example_clock example_ctx s lt) tab_sender)) = Some ''s-1''"
    by (simp add: addRecord_def assignChainMetadata_def Let_def)
  have 3: "chain_id (snd (addRecord ''s-1'' 5000 Get_rejects env_a Map.empty
        (build_record example_platform example_clock example_ctx s lt) tab_sender)) = None"
    using 1(2) by (simp add: addRecord_def Let_def tab_sender_def)
  show ?thesis
    unfolding e stored_of_def using 1 2 3 by simp
qed

end
